(* ===== verification/Prelude.thy ===== *)
theory Prelude
  imports Main "HOL-Library.Word" "HOL-Library.Signed_Division"
begin

text \<open>
  Shared vocabulary of the development: the names of the machine integers of the Cortex-M4
  target, the collections of facts the component theories extend, and the generic lemmas on
  masks, byte lists and state machines that more than one component needs.

  A C integer of width \<open>w\<close> is a \<open>w word\<close>; where C promotes to \<open>int\<close> and the promotion can be
  observed (signed differences, truncating division, narrowing of a negative value) the model
  computes on \<open>int\<close> and narrows with \<open>word_of_int\<close>. A memory object is the list of its bytes.
\<close>

unbundle bit_operations_syntax

subsection \<open>Types\<close>

type_synonym u8 = "8 word"
type_synonym u16 = "16 word"
type_synonym u32 = "32 word"
type_synonym u64 = "64 word"
type_synonym bytes = "u8 list"

text \<open>Signed integers are words too; \<open>sint\<close> reads their two's complement value.\<close>

type_synonym s8 = "8 word"
type_synonym s16 = "16 word"

subsection \<open>Collections of facts\<close>

named_theorems masks \<open>hexadecimal masks of the source as shifted bit masks\<close>
named_theorems lengths \<open>operations that keep the length of a buffer\<close>
named_theorems frames \<open>fields and bytes that an operation leaves alone\<close>

subsection \<open>Masks and bytes\<close>

lemma mask_u8 [masks]:
  "(0x07 :: u8) = mask 3" "(0x7F :: u8) = mask 7" "(0x0F :: u8) = mask 4"
  "(0xF0 :: u8) = push_bit 4 (mask 4)" "(0xFF :: u8) = mask 8"
  by (simp_all add: mask_eq_exp_minus_1)

lemma mask_u16 [masks]:
  "(0x00FF :: u16) = mask 8" "(0xFF00 :: u16) = push_bit 8 (mask 8)"
  by (simp_all add: mask_eq_exp_minus_1)

lemma mask_u32 [masks]:
  "(0x000000FF :: u32) = mask 8" "(0x0000FF00 :: u32) = push_bit 8 (mask 8)"
  "(0x00FF0000 :: u32) = push_bit 16 (mask 8)" "(0xFF000000 :: u32) = push_bit 24 (mask 8)"
  by (simp_all add: mask_eq_exp_minus_1)

lemma unat_and_mask: "unat (x AND mask n) = unat x mod 2 ^ n" for x :: "'a::len word"
proof -
  have "unat (take_bit n x) = take_bit n (unat x)" by (rule unsigned_take_bit_eq)
  then show ?thesis by (simp only: take_bit_eq_mask) (simp only: take_bit_eq_mod flip: take_bit_eq_mask)
qed

lemma unat_ucast: "unat (ucast x :: 'b::len word) = unat x mod 2 ^ LENGTH('b)"
  for x :: "'a::len word"
  by (simp add: unsigned_ucast_eq take_bit_eq_mod)

lemma unat_times: "unat (x * y) = unat x * unat y mod 2 ^ LENGTH('a)" for x y :: "'a::len word"
  by (fact unat_word_ariths(2))

lemma unat_plus: "unat (x + y) = (unat x + unat y) mod 2 ^ LENGTH('a)" for x y :: "'a::len word"
  by (fact unat_word_ariths(1))

lemmas unat_arith_simps = unat_ucast unat_times unat_plus unat_div_distrib unat_mod_distrib

lemma uint_less_of_unat: "unat x < n \<Longrightarrow> uint x < int n" "unat x \<le> n \<Longrightarrow> uint x \<le> int n"
  for x :: "'a::len word"
proof -
  have "uint x = int (unat x)" by simp
  then show "unat x < n \<Longrightarrow> uint x < int n" "unat x \<le> n \<Longrightarrow> uint x \<le> int n" by linarith+
qed

lemma unat_low_nibble: "unat (x AND 0x0F) = unat x mod 16" for x :: u8
  using unat_and_mask [of x 4] by (simp add: masks)

lemma and_mask_full: "LENGTH('a) \<le> n \<Longrightarrow> x AND mask n = x" for x :: "'a::len word"
  by (rule bit_word_eqI) (auto simp: bit_simps)

lemma bit_beyond_byte [simp]: "8 \<le> n \<Longrightarrow> \<not> bit x n" for x :: u8
  using bit_imp_le_length [of x n] by auto

lemma u8_eq_iff: "a = b \<longleftrightarrow> (\<forall>k < 8. bit a k = bit b k)" for a b :: u8
  by (auto intro: bit_word_eqI)

lemma bit_twice: "bit (b * 2) k \<longleftrightarrow> 0 < k \<and> k < 8 \<and> bit b (k - 1)" for b :: u8
proof -
  have "b * 2 = push_bit 1 b" by simp
  then show ?thesis by (simp only: bit_simps) auto
qed

lemma bit_0xFE: "bit (0xFE :: u8) k \<longleftrightarrow> 0 < k \<and> k < 8"
proof -
  have "(0xFE :: u8) = push_bit 1 (mask 7)" by (simp add: mask_eq_exp_minus_1)
  then show ?thesis by (simp only: bit_simps) auto
qed

lemma sdiv_nonneg: "0 \<le> a \<Longrightarrow> 0 < b \<Longrightarrow> a sdiv b = a div b" for a b :: int
  by (cases "a = 0") (simp_all add: signed_divide_int_def)

lemma sint_word_of_int: "- (2 ^ (LENGTH('a) - 1)) \<le> k \<Longrightarrow> k < 2 ^ (LENGTH('a) - 1)
    \<Longrightarrow> sint (word_of_int k :: 'a::len word) = k"
  by (simp add: sint_sbintrunc' signed_take_bit_int_eq_self)

definition byte_of :: "nat \<Rightarrow> 'a::len word \<Rightarrow> u8" where
  "byte_of k v = ucast (drop_bit (8 * k) v)"

lemma bit_byte_of [bit_simps]: "bit (byte_of k v) n \<longleftrightarrow> n < 8 \<and> bit v (8 * k + n)"
  by (auto simp: byte_of_def bit_simps dest: bit_imp_le_length)

lemma list7_cases:
  assumes "length b = 7"
  obtains b0 b1 b2 b3 b4 b5 b6 where "b = [b0, b1, b2, b3, b4, b5, b6]"
  using assms by (auto simp: length_Suc_conv eval_nat_numeral)

lemma list6_cases:
  assumes "length b = 6"
  obtains b0 b1 b2 b3 b4 b5 where "b = [b0, b1, b2, b3, b4, b5]"
  using assms by (auto simp: length_Suc_conv eval_nat_numeral)

lemma image_constantI: "(\<And>b. b \<in> S \<Longrightarrow> f b = c) \<Longrightarrow> a \<in> S \<Longrightarrow> f ` S = {c}"
  by force

subsection \<open>Step relations and their invariants\<close>

text \<open>
  A component whose operations may be called in any order is a relation between states. The
  reachable states are the reflexive and transitive closure of the steps from an initial state,
  and an inductive invariant holds in all of them. The components interpret this locale.
\<close>

inductive reachable :: "('s \<Rightarrow> bool) \<Rightarrow> ('s \<Rightarrow> 's \<Rightarrow> bool) \<Rightarrow> 's \<Rightarrow> bool" for init step where
  reach_init: "init s \<Longrightarrow> reachable init step s"
| reach_step: "reachable init step s \<Longrightarrow> step s t \<Longrightarrow> reachable init step t"

locale invariant_machine =
  fixes init :: "'s \<Rightarrow> bool" and step :: "'s \<Rightarrow> 's \<Rightarrow> bool" and inv :: "'s \<Rightarrow> bool"
  assumes inv_init: "init s \<Longrightarrow> inv s"
    and inv_step: "inv s \<Longrightarrow> step s t \<Longrightarrow> inv t"
begin

lemma inv_reachable: "reachable init step s \<Longrightarrow> inv s"
  by (induction rule: reachable.induct) (auto intro: inv_init inv_step)

lemma inv_steps: "step\<^sup>*\<^sup>* s t \<Longrightarrow> inv s \<Longrightarrow> inv t"
  by (induction rule: rtranclp_induct) (auto intro: inv_step)

end

end
