(* ===== verification/Sensor.thy ===== *)
theory Sensor
  imports Prelude
begin

text \<open>
  The decoder of the pressure sensor's six byte messages and the battery gauge (\<open>sensor.c\<close>,
  \<open>sensor.h\<close>). The sensor clocks its data out one bit late, so the decoder first shifts the whole
  buffer left by one bit, then reads big-endian pressure, temperature, voltage and flags and
  compares an XOR checksum whose lowest bit is lost.

  The product \<open>16.75 * code\<close> is computed in single precision; for a 16 bit code it is exact, so
  the model keeps it as four times the value, \<open>67 * code\<close>. Converting a float outside the range of
  \<open>uint16_t\<close> is undefined in C: the model's result is then \<open>None\<close>.
\<close>

subsection \<open>Readings\<close>

record sensor_readings =
  pressure_hpa :: s16
  temperature_c :: s8
  voltage_mv :: s16
  flags :: u8
  checksum :: u8

definition SENSOR_BUFFER_SIZE :: nat where [simp]: "SENSOR_BUFFER_SIZE = 6"
definition SENSOR_COMP_CONST_PRESS_OFFSET :: int where "SENSOR_COMP_CONST_PRESS_OFFSET = - 248"
definition SENSOR_COMP_CONST_TEMP :: int where "SENSOR_COMP_CONST_TEMP = - 55"
definition SENSOR_COMP_CONST_VOLT :: int where "SENSOR_COMP_CONST_VOLT = 122"
definition SENSOR_ERROR_CHK :: int where "SENSOR_ERROR_CHK = 1"
definition EXIT_SUCCESS :: int where "EXIT_SUCCESS = 0"

lemmas sensor_consts = SENSOR_COMP_CONST_PRESS_OFFSET_def SENSOR_COMP_CONST_TEMP_def
  SENSOR_COMP_CONST_VOLT_def SENSOR_ERROR_CHK_def EXIT_SUCCESS_def

subsection \<open>decode_sensor_buffer\<close>

text \<open>One iteration of the shift loop, and the loop.\<close>

definition shift_iteration :: "nat \<Rightarrow> bytes \<Rightarrow> bytes" where
  "shift_iteration i buf =
     (let b = buf[i := push_bit 1 (buf ! i)]
      in if i < SENSOR_BUFFER_SIZE - 1 then b[i := b ! i OR drop_bit 7 (b ! (i + 1))] else b)"

definition shift_buffer :: "bytes \<Rightarrow> bytes" where
  "shift_buffer buf = fold shift_iteration [0..<SENSOR_BUFFER_SIZE] buf"

text \<open>The first two bytes as a little-endian load, its bytes swapped and narrowed.\<close>

definition pressure_code :: "bytes \<Rightarrow> s16" where
  "pressure_code buf =
     (let v = (ucast (buf ! 0) OR push_bit 8 (ucast (buf ! 1)) :: u32)
      in ucast (drop_bit 8 v OR push_bit 8 v))"

text \<open>Conversion of \<open>quarters / 4\<close> from float to \<open>uint16_t\<close>: truncation, undefined out of range.\<close>

definition float_quarters_to_u16 :: "int \<Rightarrow> u16 option" where
  "float_quarters_to_u16 quarters =
     (let t = quarters sdiv 4 in if 0 \<le> t \<and> t < 65536 then Some (word_of_int t) else None)"

definition sensor_checksum :: "bytes \<Rightarrow> u8" where
  "sensor_checksum buf = 0xFE AND (buf ! 0 XOR buf ! 1 XOR buf ! 2 XOR buf ! 3 XOR buf ! 4)"

definition decode_sensor_buffer :: "bytes \<Rightarrow> (int \<times> bytes \<times> sensor_readings) option" where
  "decode_sensor_buffer buffer =
     (let buf = shift_buffer buffer
      in case float_quarters_to_u16 (67 * sint (pressure_code buf)) of
           None \<Rightarrow> None
         | Some p \<Rightarrow>
             let r = \<lparr>pressure_hpa = word_of_int (uint p + SENSOR_COMP_CONST_PRESS_OFFSET),
                      temperature_c = word_of_int (uint (buf ! 2) + SENSOR_COMP_CONST_TEMP),
                      voltage_mv = word_of_int ((uint (buf ! 3) + SENSOR_COMP_CONST_VOLT) * 10),
                      flags = buf ! 4,
                      checksum = sensor_checksum buf\<rparr>
             in Some (if checksum r \<noteq> buf ! 5 then SENSOR_ERROR_CHK else EXIT_SUCCESS, buf, r))"

subsection \<open>battery_level_percent\<close>

definition battery_level_percent :: "s16 \<Rightarrow> u8" where
  "battery_level_percent voltage =
     (let v = sint voltage
      in if v \<ge> 3000 then 100
         else if v > 2900 then word_of_int (100 - ((3000 - v) * 58) sdiv 100)
         else if v > 2740 then word_of_int (42 - ((2900 - v) * 24) sdiv 160)
         else if v > 2440 then word_of_int (18 - ((2740 - v) * 12) sdiv 300)
         else if v > 2100 then word_of_int (6 - ((2440 - v) * 6) sdiv 340)
         else 0)"

subsection \<open>The shift loop\<close>

lemma shift_buffer_bytes:
  "shift_buffer [b0, b1, b2, b3, b4, b5] =
     [push_bit 1 b0 OR drop_bit 7 b1, push_bit 1 b1 OR drop_bit 7 b2,
      push_bit 1 b2 OR drop_bit 7 b3, push_bit 1 b3 OR drop_bit 7 b4,
      push_bit 1 b4 OR drop_bit 7 b5, push_bit 1 b5]"
  by (simp add: shift_buffer_def shift_iteration_def upt_conv_Cons)

lemma shift_buffer_length [simp, lengths]:
  "length buf = SENSOR_BUFFER_SIZE \<Longrightarrow> length (shift_buffer buf) = SENSOR_BUFFER_SIZE"
  by (simp, elim list6_cases) (simp add: shift_buffer_bytes)

lemma bit_shift_buffer:
  assumes "length buf = SENSOR_BUFFER_SIZE" and "i < SENSOR_BUFFER_SIZE"
  shows "bit (shift_buffer buf ! i) k \<longleftrightarrow>
    (if k = 0 then i < 5 \<and> bit (buf ! (i + 1)) 7 else k < 8 \<and> bit (buf ! i) (k - 1))"
proof -
  from assms(1) obtain b0 b1 b2 b3 b4 b5 where b: "buf = [b0, b1, b2, b3, b4, b5]"
    by (auto elim: list6_cases)
  from assms(2) consider "i = 0" | "i = 1" | "i = 2" | "i = 3" | "i = 4" | "i = 5"
    by (simp only: SENSOR_BUFFER_SIZE_def) linarith
  then show ?thesis
    by cases (auto simp: b shift_buffer_bytes bit_simps bit_twice)
qed

text \<open>The buffer as one 48 bit big-endian number.\<close>

definition be48 :: "bytes \<Rightarrow> 48 word" where
  "be48 bs = foldl (\<lambda>a b. push_bit 8 a OR ucast b) 0 bs"

lemma bit_be48:
  assumes "length bs = 6" and "n < 48"
  shows "bit (be48 bs) n \<longleftrightarrow> bit (bs ! (5 - n div 8)) (n mod 8)"
proof -
  from assms(1) obtain b0 b1 b2 b3 b4 b5 where b: "bs = [b0, b1, b2, b3, b4, b5]"
    by (auto elim: list6_cases)
  have "n div 8 < 6" using assms(2) by simp
  then consider "n div 8 = 0" | "n div 8 = 1" | "n div 8 = 2" | "n div 8 = 3" | "n div 8 = 4"
    | "n div 8 = 5" by linarith
  moreover have "n mod 8 = n - 8 * (n div 8)" by (rule modulo_nat_def [THEN trans]) simp
  ultimately show ?thesis
    by cases (use assms(2) in \<open>auto simp: b be48_def bit_simps div_eq_0_iff\<close>)
qed

text \<open>
  The shift loop moves the whole message, read as one 48 bit number with the first
  byte most significant, left by one bit.
\<close>

theorem be48_shift_buffer:
  assumes "length buf = SENSOR_BUFFER_SIZE"
  shows "be48 (shift_buffer buf) = push_bit 1 (be48 buf)"
proof -
  define sh where "sh = push_bit 1 (be48 buf)"
  have "be48 (shift_buffer buf) = sh"
  proof (rule bit_word_eqI)
    fix n assume n: "n < LENGTH(48)"
    have i: "5 - n div 8 < SENSOR_BUFFER_SIZE" by simp
    have 1: "bit (be48 (shift_buffer buf)) n \<longleftrightarrow>
        (if n mod 8 = 0 then 5 - n div 8 < 5 \<and> bit (buf ! (5 - n div 8 + 1)) 7
         else bit (buf ! (5 - n div 8)) (n mod 8 - 1))"
      using n assms bit_shift_buffer [OF assms i, of "n mod 8"] by (simp add: bit_be48)
    have 2: "bit sh n \<longleftrightarrow> 0 < n \<and> bit (be48 buf) (n - 1)"
      using n unfolding sh_def by (simp only: bit_simps) auto
    show "bit (be48 (shift_buffer buf)) n = bit sh n"
    proof (cases "n mod 8 = 0")
      case True
      then obtain m where m: "n = 8 * m" by auto
      show ?thesis
      proof (cases m)
        case 0 then show ?thesis by (subst 1, subst 2) (simp add: m)
      next
        case (Suc j)
        then have "(n - 1) div 8 = j" "(n - 1) mod 8 = 7" "j < 5" using m n by simp_all
        moreover from this have "5 - Suc j + 1 = 5 - j" "5 - Suc j < 5" by simp_all
        ultimately show ?thesis
          by (subst 1, subst 2) (use n assms m Suc in \<open>simp add: bit_be48\<close>)
      qed
    next
      case False
      then have "(n - 1) div 8 = n div 8" "(n - 1) mod 8 = n mod 8 - 1" "0 < n"
        by (cases n; simp add: div_Suc mod_Suc split: if_splits)+
      with False n assms show ?thesis by (simp add: 1 2 bit_be48)
    qed
  qed
  then show ?thesis by (simp add: sh_def)
qed

subsection \<open>The checksum\<close>

definition xor_bytes :: "bytes \<Rightarrow> u8" where
  "xor_bytes bs = foldr (XOR) bs 0"

lemma all_below_shift: "(\<forall>k < 8. 0 < k \<longrightarrow> \<not> P (k - 1)) \<longleftrightarrow> (\<forall>k < 8. k < 7 \<longrightarrow> \<not> P k)" for P :: "nat \<Rightarrow> bool"
proof
  assume "\<forall>k < 8. 0 < k \<longrightarrow> \<not> P (k - 1)"
  then have "k < 7 \<Longrightarrow> \<not> P k" for k by (drule_tac x = "Suc k" in spec) simp
  then show "\<forall>k < 8. k < 7 \<longrightarrow> \<not> P k" by blast
qed auto

lemma bit_sensor_checksum:
  "bit (sensor_checksum s) k \<longleftrightarrow> 0 < k \<and> k < 8 \<and>
     ((((bit (s ! 0) k \<noteq> bit (s ! 1) k) \<noteq> bit (s ! 2) k) \<noteq> bit (s ! 3) k) \<noteq> bit (s ! 4) k)"
proof -
  have "bit (sensor_checksum s) k \<longleftrightarrow> (0 < k \<and> k < 8) \<and>
      bit (s ! 0 XOR s ! 1 XOR s ! 2 XOR s ! 3 XOR s ! 4) k"
    unfolding sensor_checksum_def bit_and_iff bit_0xFE by simp
  then show ?thesis unfolding bit_xor_iff by blast
qed

lemma bit_xor_bytes:
  "bit (xor_bytes [b0, b1, b2, b3, b4, b5]) k \<longleftrightarrow>
     (((((bit b0 k \<noteq> bit b1 k) \<noteq> bit b2 k) \<noteq> bit b3 k) \<noteq> bit b4 k) \<noteq> bit b5 k)"
  by (simp add: xor_bytes_def bit_xor_iff) blast

lemma checksum_match:
  assumes "length buf = SENSOR_BUFFER_SIZE"
  shows "sensor_checksum (shift_buffer buf) = shift_buffer buf ! 5 \<longleftrightarrow> xor_bytes buf AND 0x7F = 0"
proof -
  let ?s = "shift_buffer buf"
  have "sensor_checksum ?s = ?s ! 5 \<longleftrightarrow> (\<forall>k < 8. bit (sensor_checksum ?s) k = bit (?s ! 5) k)"
    by (rule u8_eq_iff)
  also have "\<dots> \<longleftrightarrow> (\<forall>k < 8. 0 < k \<longrightarrow> \<not> bit (xor_bytes buf) (k - 1))"
  proof (intro all_cong1 imp_cong refl)
    fix k :: nat assume k: "k < 8"
    obtain b0 b1 b2 b3 b4 b5 where b: "buf = [b0, b1, b2, b3, b4, b5]"
      using assms by (auto elim: list6_cases)
    show "(bit (sensor_checksum ?s) k = bit (?s ! 5) k) = (0 < k \<longrightarrow> \<not> bit (xor_bytes buf) (k - 1))"
    proof (cases "k = 0")
      case False
      with k assms show ?thesis
        unfolding bit_sensor_checksum b bit_xor_bytes
        by (simp add: bit_shift_buffer)
    qed (use assms in \<open>simp add: bit_sensor_checksum bit_shift_buffer\<close>)
  qed
  also have "\<dots> \<longleftrightarrow> (\<forall>k < 8. k < 7 \<longrightarrow> \<not> bit (xor_bytes buf) k)"
    by (rule all_below_shift)
  also have "\<dots> \<longleftrightarrow> (\<forall>k < 8. bit (xor_bytes buf AND 0x7F) k = bit (0 :: u8) k)"
    unfolding masks bit_and_iff bit_mask_iff bit_0_eq by auto
  also have "\<dots> \<longleftrightarrow> xor_bytes buf AND 0x7F = 0"
    by (rule u8_eq_iff [symmetric])
  finally show ?thesis .
qed

text \<open>Whether a message is accepted depends on the raw bytes only, seven bits of each.\<close>

lemma decode_sensor_buffer_accepts:
  assumes "length buf = SENSOR_BUFFER_SIZE" and "decode_sensor_buffer buf = Some (rc, b, r)"
  shows "rc = EXIT_SUCCESS \<longleftrightarrow> xor_bytes buf AND 0x7F = 0"
    and "rc \<noteq> EXIT_SUCCESS \<Longrightarrow> rc = SENSOR_ERROR_CHK"
    and "b = shift_buffer buf"
  using assms(2) checksum_match [OF assms(1)]
  by (auto simp: decode_sensor_buffer_def sensor_consts Let_def split: option.splits if_splits)

subsection \<open>What the sensor sends\<close>

text \<open>
  The message as the sensor builds it, and as it arrives: one bit late, so that an arbitrary
  leading bit comes first and the last bit of the checksum is lost.
\<close>

definition sensor_frame :: "u16 \<Rightarrow> u8 \<Rightarrow> u8 \<Rightarrow> u8 \<Rightarrow> bytes" where
  "sensor_frame code temp volt flg =
     (let d = [byte_of 1 code, byte_of 0 code, temp, volt, flg] in d @ [xor_bytes d])"

definition late_by_one :: "bool \<Rightarrow> bytes \<Rightarrow> bytes" where
  "late_by_one lead fr =
     map2 (\<lambda>prev cur. push_bit 7 prev OR drop_bit 1 cur) ((if lead then 1 else 0) # fr) fr"

lemma late_bytes:
  "push_bit 1 (push_bit 7 p OR drop_bit 1 c) OR drop_bit 7 (push_bit 7 c OR drop_bit 1 n) = c"
  "push_bit 1 (push_bit 7 p OR drop_bit 1 c) = c AND 0xFE"
  for p c n :: u8
  by (rule bit_word_eqI; subst bit_simps | auto simp: bit_simps bit_twice bit_0xFE
      simp del: bit_numeral_word_iff)+

lemma shift_late_by_one:
  assumes "length fr = SENSOR_BUFFER_SIZE"
  shows "shift_buffer (late_by_one lead fr) = fr[5 := fr ! 5 AND 0xFE]"
proof -
  obtain f0 f1 f2 f3 f4 f5 where fr: "fr = [f0, f1, f2, f3, f4, f5]"
    using assms by (auto elim: list6_cases)
  define l :: u8 where "l = (if lead then 1 else 0)"
  have "late_by_one lead fr =
      [push_bit 7 l OR drop_bit 1 f0, push_bit 7 f0 OR drop_bit 1 f1, push_bit 7 f1 OR drop_bit 1 f2,
       push_bit 7 f2 OR drop_bit 1 f3, push_bit 7 f3 OR drop_bit 1 f4, push_bit 7 f4 OR drop_bit 1 f5]"
    by (simp add: late_by_one_def fr flip: l_def)
  then have "shift_buffer (late_by_one lead fr) = [f0, f1, f2, f3, f4, f5 AND 0xFE]"
    by (simp only: shift_buffer_bytes late_bytes(1)) (simp only: late_bytes(2))
  then show ?thesis by (simp add: fr eval_nat_numeral)
qed

lemma pressure_code_bytes:
  "buf ! 0 = byte_of 1 code \<Longrightarrow> buf ! 1 = byte_of 0 code \<Longrightarrow> pressure_code buf = code"
  by (rule bit_word_eqI) (auto simp: pressure_code_def bit_simps)

lemma sensor_frame_checksum:
  "sensor_checksum (take 5 (sensor_frame code temp volt flg) @ rest)
     = sensor_frame code temp volt flg ! 5 AND 0xFE"
  by (simp add: sensor_frame_def sensor_checksum_def xor_bytes_def ac_simps xor.commute and.commute)

lemma float_conversion:
  "float_quarters_to_u16 (67 * c) = (if 0 \<le> c \<and> c \<le> 3912 then Some (word_of_int (67 * c div 4)) else None)"
proof (cases "0 \<le> c")
  case True
  moreover from this have "67 * c div 4 < 65536 \<longleftrightarrow> c \<le> 3912" "0 \<le> 67 * c div 4" by linarith+
  ultimately show ?thesis by (simp add: float_quarters_to_u16_def Let_def sdiv_nonneg)
next
  case False
  then have "(67 * c) sdiv 4 = - ((- 67 * c) div 4)"
    by (simp add: signed_divide_int_def abs_mult)
  moreover have "0 < (- 67 * c) div 4" using False by linarith
  ultimately show ?thesis using False by (simp add: float_quarters_to_u16_def Let_def)
qed

lemma sint_small_u16: "unat x < 32768 \<Longrightarrow> sint x = int (unat x)" for x :: s16
  using sint_word_of_int [of "int (unat x)", where 'a = 16] uint_less_of_unat(1) [of x 32768]
    uint_ge_0 [of x] by simp

subsection \<open>Properties of the decoder\<close>

lemma decode_sent_result:
  assumes "unat code \<le> 1970" and "unat temp \<le> 182"
  shows "\<exists>b r. decode_sensor_buffer (late_by_one lead (sensor_frame code temp volt flg))
           = Some (EXIT_SUCCESS, b, r)
       \<and> sint (pressure_hpa r) = 67 * int (unat code) div 4 - 248
       \<and> sint (temperature_c r) = int (unat temp) - 55
       \<and> sint (voltage_mv r) = (int (unat volt) + 122) * 10
       \<and> flags r = flg"
proof -
  let ?fr = "sensor_frame code temp volt flg"
  define s where "s = shift_buffer (late_by_one lead ?fr)"
  have s: "s = [byte_of 1 code, byte_of 0 code, temp, volt, flg, ?fr ! 5 AND 0xFE]"
    unfolding s_def by (subst shift_late_by_one) (simp_all add: sensor_frame_def)
  have chk: "sensor_checksum s = s ! 5"
    using sensor_frame_checksum [of code temp volt flg "[?fr ! 5 AND 0xFE]"]
    by (simp add: s) (simp add: sensor_frame_def)
  have c: "sint (pressure_code s) = int (unat code)"
    using assms(1) pressure_code_bytes [of s code] by (simp add: s sint_small_u16)
  have p: "0 \<le> 67 * int (unat code) div 4" "67 * int (unat code) div 4 \<le> 32997"
    using assms(1) by linarith+
  have "uint volt < 256" using unsigned_less [of volt, where 'a = int] by simp
  then have v: "sint (word_of_int ((int (unat volt) + 122) * 10) :: s16) = (int (unat volt) + 122) * 10"
    by (intro sint_word_of_int) simp_all
  have t: "sint (word_of_int (int (unat temp) - 55) :: s8) = int (unat temp) - 55"
    using uint_less_of_unat(2) [OF assms(2)] by (intro sint_word_of_int) simp_all
  have "sint (word_of_int (67 * int (unat code) div 4 - 248) :: s16) = 67 * int (unat code) div 4 - 248"
    using p by (intro sint_word_of_int) simp_all
  moreover have "uint (word_of_int (67 * int (unat code) div 4) :: u16) = 67 * int (unat code) div 4"
    using p by (simp only: uint_word_of_int) (simp add: take_bit_int_eq_self)
  moreover have "s ! 2 = temp" "s ! 3 = volt" "s ! 4 = flg" by (simp_all add: s)
  ultimately show ?thesis
    using uint_less_of_unat(2) [OF assms(1)] uint_ge_0 [of code] t v chk unfolding decode_sensor_buffer_def s_def [symmetric] Let_def c float_conversion
    by (simp add: sensor_consts)
qed

text \<open>
  Property C26: a message that the sensor sends one bit late is decoded to what the sensor
  measured, whatever the leading bit is: pressure \<open>16.75 * code - 248\<close> rounded down, temperature
  and supply voltage with their offsets, and the flags. The bounds are those within which the
  pressure and the temperature fit their fields.
\<close>

theorem decode_sent_message:
  assumes "unat code \<le> 1970" and "unat temp \<le> 182"
  shows "\<exists>b r. decode_sensor_buffer (late_by_one lead (sensor_frame code temp volt flg))
           = Some (EXIT_SUCCESS, b, r)
       \<and> sint (pressure_hpa r) = 67 * int (unat code) div 4 - 248
       \<and> sint (temperature_c r) = int (unat temp) - 55
       \<and> sint (voltage_mv r) = (int (unat volt) + 122) * 10
       \<and> flags r = flg"
  by (rule decode_sent_result [OF assms])


subsection \<open>Properties of the battery gauge\<close>

text \<open>The gauge on the integers it computes with.\<close>

definition gauge :: "int \<Rightarrow> int" where
  "gauge v = (if v \<ge> 3000 then 100 else if v > 2900 then 100 - (3000 - v) * 58 div 100
     else if v > 2740 then 42 - (2900 - v) * 24 div 160
     else if v > 2440 then 18 - (2740 - v) * 12 div 300
     else if v > 2100 then 6 - (2440 - v) * 6 div 340 else 0)"

lemma gauge_sections:
  "2900 < v \<Longrightarrow> v < 3000 \<Longrightarrow> 43 \<le> gauge v \<and> gauge v \<le> 100"
  "2740 < v \<Longrightarrow> v \<le> 2900 \<Longrightarrow> 19 \<le> gauge v \<and> gauge v \<le> 42"
  "2440 < v \<Longrightarrow> v \<le> 2740 \<Longrightarrow> 7 \<le> gauge v \<and> gauge v \<le> 18"
  "2100 < v \<Longrightarrow> v \<le> 2440 \<Longrightarrow> 1 \<le> gauge v \<and> gauge v \<le> 6"
  unfolding gauge_def by (simp; linarith)+

lemma gauge_range: "0 \<le> gauge v \<and> gauge v \<le> 100"
proof -
  have "3000 \<le> v \<Longrightarrow> gauge v = 100" "v \<le> 2100 \<Longrightarrow> gauge v = 0" by (simp_all add: gauge_def)
  then show ?thesis using gauge_sections [of v] by linarith
qed

lemma uint_battery_level: "uint (battery_level_percent v) = gauge (sint v)"
proof -
  have "battery_level_percent v = word_of_int (gauge (sint v))"
    by (simp add: battery_level_percent_def gauge_def Let_def sdiv_nonneg)
  then show ?thesis
    using gauge_range [of "sint v"] by (simp add: uint_word_of_int take_bit_int_eq_self)
qed

lemma gauge_upper:
  "v \<le> 2100 \<Longrightarrow> gauge v = 0" "v \<le> 2440 \<Longrightarrow> gauge v \<le> 6" "v \<le> 2740 \<Longrightarrow> gauge v \<le> 18"
  "v \<le> 2900 \<Longrightarrow> gauge v \<le> 42"
proof -
  show 1: "v \<le> 2100 \<Longrightarrow> gauge v = 0" by (simp add: gauge_def)
  show 2: "v \<le> 2440 \<Longrightarrow> gauge v \<le> 6" using 1 gauge_sections(4) [of v] by linarith
  show 3: "v \<le> 2740 \<Longrightarrow> gauge v \<le> 18" using 2 gauge_sections(3) [of v] by linarith
  show "v \<le> 2900 \<Longrightarrow> gauge v \<le> 42" using 3 gauge_sections(2) [of v] by linarith
qed

lemma section_mono: "v \<le> w \<Longrightarrow> 0 \<le> k \<Longrightarrow> 0 < m \<Longrightarrow> c - (a - v) * k div m \<le> c - (a - w) * k div m"
  for a c k m v w :: int
  by (simp add: zdiv_mono1 mult_right_mono)

lemma gauge_mono:
  assumes "v \<le> w"
  shows "gauge v \<le> gauge w"
proof -
  consider "3000 \<le> w" | "2900 < v" "w < 3000" | "v \<le> 2900" "2900 < w" "w < 3000"
    | "2740 < v" "w \<le> 2900" | "v \<le> 2740" "2740 < w" "w \<le> 2900"
    | "2440 < v" "w \<le> 2740" | "v \<le> 2440" "2440 < w" "w \<le> 2740"
    | "2100 < v" "w \<le> 2440" | "v \<le> 2100" "2100 < w" "w \<le> 2440" | "w \<le> 2100" by linarith
  then show ?thesis
  proof cases
    case 1 with gauge_range [of v] show ?thesis by (simp add: gauge_def)
  next
    case 2 with assms section_mono [OF assms, of 58 100 100 3000] show ?thesis by (simp add: gauge_def)
  next
    case 3 with gauge_upper(4) [of v] gauge_sections(1) [of w] show ?thesis by linarith
  next
    case 4 with assms section_mono [OF assms, of 24 160 42 2900] show ?thesis by (simp add: gauge_def)
  next
    case 5 with gauge_upper(3) [of v] gauge_sections(2) [of w] show ?thesis by linarith
  next
    case 6 with assms section_mono [OF assms, of 12 300 18 2740] show ?thesis by (simp add: gauge_def)
  next
    case 7 with gauge_upper(2) [of v] gauge_sections(3) [of w] show ?thesis by linarith
  next
    case 8 with assms section_mono [OF assms, of 6 340 6 2440] show ?thesis by (simp add: gauge_def)
  next
    case 9 with gauge_upper(1) [of v] gauge_sections(4) [of w] show ?thesis by linarith
  next
    case 10 with assms show ?thesis by (simp add: gauge_upper)
  qed
qed

text \<open>
  The gauge never decreases when the voltage rises, across all four sections of the
  discharge curve, stays within 0 and 100, and reaches both ends.
\<close>

theorem battery_level_monotone:
  "(sint v \<le> sint w \<longrightarrow> battery_level_percent v \<le> battery_level_percent w)
    \<and> battery_level_percent v \<le> 100
    \<and> (sint v \<ge> 3000 \<longrightarrow> battery_level_percent v = 100)
    \<and> (sint v \<le> 2100 \<longrightarrow> battery_level_percent v = 0)"
  using gauge_mono [of "sint v" "sint w"] gauge_range [of "sint v"]
  by (simp add: word_le_def uint_battery_level) (simp add: battery_level_percent_def)

subsection \<open>Witnesses\<close>

theorem be48_shift_buffer_witness:
  "be48 (shift_buffer [0x12, 0x34, 0x56, 0x78, 0x9A, 0xBC]) = 0x2468ACF13578"
  using be48_shift_buffer [of "[0x12, 0x34, 0x56, 0x78, 0x9A, 0xBC]"] by (simp add: be48_def)

theorem decode_sent_message_witness:
  "\<exists>b r. decode_sensor_buffer (late_by_one True (sensor_frame 100 83 173 0))
       = Some (EXIT_SUCCESS, b, r)
     \<and> sint (pressure_hpa r) = 1427 \<and> sint (temperature_c r) = 28 \<and> sint (voltage_mv r) = 2950
     \<and> flags r = 0"
  using decode_sent_message [of 100 83 True 173 0] by simp

lemma decoded: "map_option fst x = Some rc \<Longrightarrow> \<exists>b r. x = Some (rc, b, r)"
  by auto


theorem battery_level_monotone_witness:
  "battery_level_percent 2300 \<le> battery_level_percent 2800
    \<and> battery_level_percent 3000 = 100 \<and> battery_level_percent 1800 = 0"
  using battery_level_monotone [of 2300 2800] battery_level_monotone [of 3000 3000]
    battery_level_monotone [of 1800 1800] by simp

end
