(* ===== verification/Platform.thy ===== *)
theory Platform
  imports Sensor
begin

text \<open>
  The boundary of the program. Everything that Zephyr, the ANT stack, the Bluetooth stack and the
  hardware do is outside the repository, so it is a parameter: the firmware issues calls, the
  environment answers them.

  The state of the world that every component sees is the list of calls issued so far, latest
  first. The environment \<open>env\<close> answers a call as a function of that history and of the call, so it
  is any deterministic or externally driven behaviour at all; nothing is assumed about it unless a
  theorem says so. Uninitialised memory is part of the environment too (\<open>env_junk\<close>). Calls that
  only write log messages are left out.
\<close>

subsection \<open>What the firmware names\<close>

text \<open>Work items of \<open>main.c\<close>, \<open>bluetooth.c\<close> and \<open>spi.c\<close>, and the two pins.\<close>

datatype work = Poweroff_work | Supervision_work | Advertise_work | Disable_bt_work
  | Reboot_work | Spim_receive_work

datatype gpio = Wake_signal | Int_gpio

datatype gpio_int = GPIO_INT_LEVEL_ACTIVE | GPIO_INT_EDGE_TO_ACTIVE

text \<open>The ANT channel configuration, with the fields the source assigns.\<close>

record ant_channel_config =
  cfg_channel_number :: u8
  cfg_channel_type :: u8
  cfg_ext_assign :: u8
  cfg_rf_freq :: u8
  cfg_transmission_type :: u8
  cfg_device_type :: u8
  cfg_device_number :: u16
  cfg_channel_period :: u16
  cfg_network_number :: u8

datatype call =
  Ant_init | Ant_cb_register | Ant_plus_key_set u8
| Ant_channel_init ant_channel_config | Ant_channel_open u8
| Ant_acknowledge_message_tx u8 bytes | Ant_broadcast_message_tx u8 bytes
| Settings_subsys_init | Settings_save_one string bytes | Settings_load_subtree_direct string
| K_work_schedule work nat | K_work_submit work | K_work_cancel_delayable work
| K_uptime_seconds | Sys_poweroff | Sys_reboot
| Gpio_is_ready_dt gpio | Gpio_pin_configure_dt gpio | Gpio_pin_interrupt_configure_dt gpio gpio_int
| Gpio_pin_get_dt gpio | Gpio_init_callback gpio | Gpio_add_callback gpio
| Device_is_ready | Spi_read | Zbus_chan_pub sensor_readings
| Bt_enable | Bt_disable | Bt_le_adv_start | Bt_le_adv_stop | Smp_bt_unregister
| Bt_conn_auth_cb_register | Bt_set_name string | Logger_backend_ble_set_hook
| Mgmt_callback_register
| Nrf_power_rampower_mask_on u8 u32 | Nrf_power_rampower_mask_off u8 u32
| Hw_id_get

subsection \<open>The environment\<close>

text \<open>
  A stored setting as the settings subsystem hands it to a loader callback: the length of the rest
  of its name below the subtree (0 for an exact match), the length of its value, the result of
  reading it and the bytes the read leaves in the destination.
\<close>

record setting_entry =
  entry_name_len :: nat
  entry_len :: nat
  entry_read_rc :: int
  entry_data :: bytes

text \<open>\<open>struct direct_immediate_value\<close> of \<open>settings.c\<close>; \<open>dest\<close> is the memory it points to.\<close>

record direct_immediate_value =
  div_len :: nat
  div_dest :: bytes
  div_fetched :: u8

type_synonym loader_cb = "setting_entry \<Rightarrow> direct_immediate_value \<Rightarrow> int \<times> direct_immediate_value"

record env =
  env_rc :: "call list \<Rightarrow> call \<Rightarrow> int"
  env_load :: "call list \<Rightarrow> string \<Rightarrow> loader_cb \<Rightarrow> direct_immediate_value \<Rightarrow> int \<times> direct_immediate_value"
  env_spi_data :: "call list \<Rightarrow> nat \<Rightarrow> u8"
  env_hw_id :: "call list \<Rightarrow> string"
  env_junk :: "call list \<Rightarrow> nat \<Rightarrow> u8"

record world =
  calls :: "call list"

definition invoke :: "env \<Rightarrow> call \<Rightarrow> 'a world_scheme \<Rightarrow> int \<times> 'a world_scheme" where
  "invoke e c w = (env_rc e (calls w) c, w\<lparr>calls := c # calls w\<rparr>)"

text \<open>A call whose result the source ignores.\<close>

definition issue :: "env \<Rightarrow> call \<Rightarrow> 'a world_scheme \<Rightarrow> 'a world_scheme" where
  "issue e c w = snd (invoke e c w)"

definition junk_bytes :: "env \<Rightarrow> nat \<Rightarrow> 'a world_scheme \<Rightarrow> bytes" where
  "junk_bytes e n w = map (env_junk e (calls w)) [0..<n]"

lemma invoke_simps [simp]:
  "fst (invoke e c w) = env_rc e (calls w) c"
  "snd (invoke e c w) = w\<lparr>calls := c # calls w\<rparr>"
  by (simp_all add: invoke_def)

lemma issue_simp [simp]: "issue e c w = w\<lparr>calls := c # calls w\<rparr>"
  by (simp add: issue_def)

lemma length_junk_bytes [simp, lengths]: "length (junk_bytes e n w) = n"
  by (simp add: junk_bytes_def)

subsection \<open>Error codes\<close>

definition EINVAL :: int where [simp]: "EINVAL = 22"
definition ENOENT :: int where [simp]: "ENOENT = 2"
definition EXIT_FAILURE :: int where [simp]: "EXIT_FAILURE = 1"

end
