(* ===== verification/Crc32.thy ===== *)
theory Crc32
  imports Prelude
begin

text \<open>
  CRC-32 (ISO-HDLC), the checksum Zephyr's \<open>crc32_ieee\<close> is documented to compute, bit by bit:
  reflected polynomial \<open>0xEDB88320\<close>, register preset to ones, result complemented. The firmware only
  calls it, so the theory of the retained data keeps the checksum a parameter; this instance shows
  that the law assumed of the parameter there holds of the real checksum.
\<close>

definition crc_shift :: "u32 \<Rightarrow> u32" where
  "crc_shift x = (if bit x 0 then drop_bit 1 x XOR 0xEDB88320 else drop_bit 1 x)"

definition crc_byte :: "u32 \<Rightarrow> u8 \<Rightarrow> u32" where
  "crc_byte r b = (crc_shift ^^ 8) (r XOR ucast b)"

definition crc32 :: "bytes \<Rightarrow> u32" where
  "crc32 bs = NOT (foldl crc_byte 0xFFFFFFFF bs)"

subsection \<open>The register is linear\<close>

lemma crc_shift_xor: "crc_shift (x XOR y) = crc_shift x XOR crc_shift y"
proof -
  have "drop_bit 1 (x XOR y) = drop_bit 1 x XOR drop_bit 1 y" by (rule drop_bit_xor)
  then show ?thesis by (simp add: crc_shift_def bit_xor_iff ac_simps xor.assoc)
qed

lemma crc_shifts_xor: "(crc_shift ^^ n) (x XOR y) = (crc_shift ^^ n) x XOR (crc_shift ^^ n) y"
  by (induction n) (simp_all add: crc_shift_xor)

lemma crc_shifts_push: "push_bit n (drop_bit n x) = x \<Longrightarrow> (crc_shift ^^ n) x = drop_bit n x"
proof (induction n arbitrary: x)
  case (Suc n)
  have low: "\<not> bit x k" if "k < Suc n" for k
    using arg_cong [OF Suc.prems, where f = "\<lambda>v. bit v k"] that by (simp only: bit_push_bit_iff) simp
  have s: "crc_shift x = drop_bit 1 x" using low [of 0] by (simp add: crc_shift_def)
  have "push_bit n (drop_bit n (drop_bit 1 x)) = drop_bit 1 x"
  proof (rule bit_word_eqI)
    fix k assume "k < LENGTH(32)"
    then show "bit (push_bit n (drop_bit n (drop_bit 1 x))) k = bit (drop_bit 1 x) k"
      using low [of "Suc k"] by (cases "k < n") (auto simp: bit_simps)
  qed
  then have "(crc_shift ^^ n) (drop_bit 1 x) = drop_bit n (drop_bit 1 x)" by (rule Suc.IH)
  then show ?case using funpow_swap1 [of crc_shift n x] by (simp add: s drop_bit_drop_bit)
qed simp

text \<open>
  A complemented byte of the register fed back turns the low byte into ones; the upper bytes move
  down unchanged. After four bytes nothing of the register is left.
\<close>

lemma crc_feed_back:
  assumes "k < 4"
  shows "crc_byte (drop_bit (8 * k) r XOR t) (byte_of k (NOT r))
    = drop_bit (8 * k + 8) r XOR (crc_shift ^^ 8) (0xFF XOR t)"
proof -
  have m: "drop_bit (8 * k) r XOR ucast (byte_of k (NOT r)) = push_bit 8 (drop_bit (8 * k + 8) r) XOR 0xFF"
  proof -
    have "drop_bit (8 * k) r XOR ucast (byte_of k (NOT r)) = push_bit 8 (drop_bit (8 * k + 8) r) XOR mask 8"
      by (rule bit_word_eqI) (use assms in \<open>auto simp: bit_simps\<close>)
    then show ?thesis by (simp add: masks)
  qed
  have p: "push_bit 8 (drop_bit 8 (push_bit 8 (drop_bit (8 * k + 8) r))) = push_bit 8 (drop_bit (8 * k + 8) r)"
    and d: "drop_bit 8 (push_bit 8 (drop_bit (8 * k + 8) r)) = drop_bit (8 * k + 8) r"
    by (rule bit_word_eqI; auto simp: bit_simps dest: bit_imp_le_length)+
  have "(drop_bit (8 * k) r XOR t) XOR ucast (byte_of k (NOT r))
      = push_bit 8 (drop_bit (8 * k + 8) r) XOR (0xFF XOR t)"
    using arg_cong [OF m, where f = "\<lambda>v. v XOR t"] by (simp only: ac_simps)
  then show ?thesis
    using crc_shifts_xor [of 8 "push_bit 8 (drop_bit (8 * k + 8) r)" "0xFF XOR t"] crc_shifts_push [OF p]
    by (simp only: crc_byte_def d)
qed

lemma crc_eight_shifts:
  "(crc_shift ^^ 8) x = crc_shift (crc_shift (crc_shift (crc_shift
     (crc_shift (crc_shift (crc_shift (crc_shift x)))))))"
  by (simp add: eval_nat_numeral)

lemmas crc_eval = crc_byte_def crc_eight_shifts crc_shift_def

lemma crc32_residue: "crc32 (m @ map (\<lambda>k. byte_of k (crc32 m)) [0..<4]) = 0x2144df1c"
proof -
  define r where "r = foldl crc_byte 0xFFFFFFFF m"
  define f where "f t = (crc_shift ^^ 8) (0xFF XOR t)" for t
  have c: "crc32 m = NOT r" by (simp add: crc32_def r_def)
  have "foldl crc_byte r (map (\<lambda>k. byte_of k (NOT r)) [0..<4])
      = crc_byte (crc_byte (crc_byte (crc_byte (drop_bit (8 * 0) r XOR 0) (byte_of 0 (NOT r)))
          (byte_of 1 (NOT r))) (byte_of 2 (NOT r))) (byte_of 3 (NOT r))"
    by (simp add: upt_rec numeral_2_eq_2 numeral_3_eq_3)
  also have "\<dots> = drop_bit 32 r XOR f (f (f (f 0)))"
    using crc_feed_back [of 0 r 0] crc_feed_back [of 1 r "f 0"] crc_feed_back [of 2 r "f (f 0)"]
      crc_feed_back [of 3 r "f (f (f 0))"]
    by (simp add: f_def)
  also have "drop_bit 32 r = 0" by (rule bit_word_eqI) (auto simp: bit_simps dest: bit_imp_le_length)
  also have "f (f (f (f 0))) = 0xDEBB20E3" 
    by (simp add: f_def crc_eval)
  finally have "foldl crc_byte r (map (\<lambda>k. byte_of k (NOT r)) [0..<4]) = 0xDEBB20E3" by simp
  then show ?thesis by (simp add: c) (simp add: crc32_def r_def)
qed

text \<open>A published check value of the algorithm, for the single byte \<open>a\<close>.\<close>

lemma crc32_check_value: "crc32 [0x61] = 0xE8B7BE43"
  by (simp add: crc32_def crc_eval)

subsection \<open>A changed field changes the checksum\<close>

text \<open>
  The register forgets nothing: a shift is injective, and four bytes fed into the register are the
  word they make up, shifted 32 times.
\<close>

lemma xor_cancel: "x XOR y = x XOR z \<longleftrightarrow> y = z" "y XOR x = z XOR x \<longleftrightarrow> y = z" for x y z :: "'a::len word"
  by (metis xor.assoc xor.commute xor_self_eq xor.left_neutral)+

lemma crc_shift_zero: "crc_shift x = 0 \<Longrightarrow> x = 0"
proof -
  assume z: "crc_shift x = 0"
  have b: "bit (crc_shift x) k \<longleftrightarrow> k < 32 \<and> (bit x (k + 1) \<noteq> (bit x 0 \<and> bit (0xEDB88320 :: u32) k))" for k
    by (auto simp: crc_shift_def bit_simps dest: bit_imp_le_length)
  have "bit (crc_shift x) 31 \<longleftrightarrow> bit x 0" using b [of 31] by (auto dest: bit_imp_le_length)
  then have "\<not> bit x 0" using z by simp
  then have "\<not> bit x k" for k using b [of "k - 1"] z by (cases k) (auto dest: bit_imp_le_length)
  then show "x = 0" by (intro bit_word_eqI) simp
qed

lemma crc_shifts_inj: "(crc_shift ^^ n) x = (crc_shift ^^ n) y \<longleftrightarrow> x = y"
proof
  assume "(crc_shift ^^ n) x = (crc_shift ^^ n) y"
  then have "(crc_shift ^^ n) (x XOR y) = 0" by (simp add: crc_shifts_xor)
  then have "x XOR y = 0" by (induction n) (auto dest: crc_shift_zero)
  then show "x = y" using xor_cancel(2) [of x y y] by simp
qed simp

lemma crc_run_inj: "foldl crc_byte r bs = foldl crc_byte r' bs \<longleftrightarrow> r = r'"
  by (induction bs arbitrary: r r') (auto simp: crc_byte_def crc_shifts_inj xor_cancel)

lemma crc_byte_shifted:
  assumes "n + 8 \<le> 32"
  shows "crc_byte ((crc_shift ^^ n) x) b = (crc_shift ^^ (n + 8)) (x XOR push_bit n (ucast b))"
proof -
  have "push_bit n (drop_bit n (push_bit n (ucast b :: u32))) = push_bit n (ucast b)"
    "drop_bit n (push_bit n (ucast b :: u32)) = ucast b"
    by (rule bit_word_eqI; use assms in \<open>auto simp: bit_simps dest: bit_imp_le_length\<close>)+
  then have "(crc_shift ^^ n) (push_bit n (ucast b :: u32)) = ucast b" using crc_shifts_push by metis
  then have "(crc_shift ^^ n) x XOR ucast b = (crc_shift ^^ n) (x XOR push_bit n (ucast b))"
    by (simp add: crc_shifts_xor)
  then show ?thesis by (simp add: crc_byte_def funpow_add add.commute [of n])
qed

lemma crc_word: "foldl crc_byte r (map (\<lambda>k. byte_of k v) [0..<4]) = (crc_shift ^^ 32) (r XOR v)" for v :: u32
proof -
  have "v = ucast (byte_of 0 v) XOR push_bit 8 (ucast (byte_of 1 v)) XOR push_bit 16 (ucast (byte_of 2 v))
      XOR push_bit 24 (ucast (byte_of 3 v))" (is "_ = ?w")
    by (rule bit_word_eqI) (auto simp: bit_simps)
  moreover have "foldl crc_byte r (map (\<lambda>k. byte_of k v) [0..<4]) = (crc_shift ^^ 32) (r XOR ?w)"
    using crc_byte_shifted [of 0] crc_byte_shifted [of 8] crc_byte_shifted [of 16] crc_byte_shifted [of 24]
    by (simp add: upt_rec numeral_2_eq_2 numeral_3_eq_3 xor.assoc)
  ultimately show ?thesis by simp
qed

lemma crc32_word_change:
  fixes v v' :: u32
  shows "crc32 (pre @ map (\<lambda>k. byte_of k v) [0..<4] @ post) = crc32 (pre @ map (\<lambda>k. byte_of k v') [0..<4] @ post)
    \<longleftrightarrow> v = v'"
  unfolding crc32_def foldl_append crc_word
  by (simp add: crc_run_inj crc_shifts_inj xor_cancel)

end
