(* ===== verification/Retained.thy ===== *)
theory Retained
  imports Platform Crc32
begin

text \<open>
  Data that survives power-off (\<open>retained.c\<close>, \<open>retained.h\<close>): boot and power-off counters and the
  cumulated uptime, kept in RAM that stays powered, guarded by a CRC.

  Parameters (\<open>hw\<close>): Zephyr's \<open>crc32_ieee\<close>, the SRAM range of the device tree, the address of the
  object and the retention field of the power registers. The structure is read as its bytes in
  memory order (little-endian), 24 bytes of data followed by the CRC.
\<close>

record hw =
  crc32_ieee :: "bytes \<Rightarrow> u32"
  SRAM_BEGIN :: u32
  SRAM_SIZE :: u32
  retained_addr :: u32
  S0RETENTION_On :: u32
  S0RETENTION_Pos :: nat

record retained_data =
  uptime_latest :: u64
  uptime_sum :: u64
  boots :: u32
  off_count :: u32
  crc :: u32

text \<open>The program's global state starts with the call history and the retained data.\<close>

record retained_world = world +
  retained_obj :: retained_data

subsection \<open>Retaining a RAM range\<close>

definition SMALL_SECTION_SIZE :: u32 where "SMALL_SECTION_SIZE = 4096"
definition SMALL_SECTIONS_PER_BLOCK :: u32 where "SMALL_SECTIONS_PER_BLOCK = 2"
definition SMALL_BLOCK_SIZE :: u32 where
  "SMALL_BLOCK_SIZE = SMALL_SECTIONS_PER_BLOCK * SMALL_SECTION_SIZE"
definition SMALL_BLOCK_COUNT :: u32 where "SMALL_BLOCK_COUNT = 8"
definition SMALL_SECTION_SPAN :: u32 where "SMALL_SECTION_SPAN = SMALL_BLOCK_COUNT * SMALL_BLOCK_SIZE"
definition LARGE_SECTION_SIZE :: u32 where "LARGE_SECTION_SIZE = 32768"
definition SRAM_END :: "hw \<Rightarrow> u32" where "SRAM_END hw = SRAM_BEGIN hw + SRAM_SIZE hw"
definition LARGE_SECTION_BEGIN :: "hw \<Rightarrow> u32" where
  "LARGE_SECTION_BEGIN hw = SRAM_BEGIN hw + SMALL_SECTION_SPAN"

lemmas section_defs = SMALL_SECTION_SIZE_def SMALL_SECTIONS_PER_BLOCK_def SMALL_BLOCK_SIZE_def
  SMALL_BLOCK_COUNT_def SMALL_SECTION_SPAN_def LARGE_SECTION_SIZE_def

text \<open>The body of the loop: power block and retention mask of an address, and its section size.\<close>

definition section_size_of :: "hw \<Rightarrow> u32 \<Rightarrow> u32" where
  "section_size_of hw addr =
     (if addr \<ge> LARGE_SECTION_BEGIN hw then LARGE_SECTION_SIZE else SMALL_SECTION_SIZE)"

definition section_of :: "hw \<Rightarrow> u32 \<Rightarrow> u8 \<times> u32" where
  "section_of hw addr =
     (let is_large = addr \<ge> LARGE_SECTION_BEGIN hw;
          block = (if is_large then 8 else 0) :: u8;
          block_base = (if is_large then LARGE_SECTION_BEGIN hw else SRAM_BEGIN hw);
          sections_per_block = (if is_large then 16 else SMALL_SECTIONS_PER_BLOCK);
          sec = (addr - block_base) div section_size_of hw addr;
          (block, sec) = (if sec \<ge> sections_per_block
            then (block + ucast (sec div sections_per_block), sec mod sections_per_block)
            else (block, sec))
      in (block, push_bit (unat sec + S0RETENTION_Pos hw) (S0RETENTION_On hw)))"

definition section_call :: "hw \<Rightarrow> bool \<Rightarrow> u32 \<Rightarrow> call" where
  "section_call hw enable addr =
     (let (block, mask) = section_of hw addr
      in if enable then Nrf_power_rampower_mask_on block mask else Nrf_power_rampower_mask_off block mask)"

definition next_section :: "hw \<Rightarrow> u32 \<Rightarrow> u32" where
  "next_section hw addr = addr + (section_size_of hw addr - addr mod section_size_of hw addr)"

partial_function (option) retain_loop ::
  "hw \<Rightarrow> env \<Rightarrow> bool \<Rightarrow> u32 \<Rightarrow> u32 \<Rightarrow> 'a world_scheme \<Rightarrow> 'a world_scheme option" where
  "retain_loop hw e enable addr addr_end w =
     (let w1 = issue e (section_call hw enable addr) w; addr' = next_section hw addr
      in if addr' < addr_end then retain_loop hw e enable addr' addr_end w1 else Some w1)"

definition ram_range_retain ::
  "hw \<Rightarrow> env \<Rightarrow> u32 \<Rightarrow> u32 \<Rightarrow> bool \<Rightarrow> 'a world_scheme \<Rightarrow> (int \<times> 'a world_scheme) option" where
  "ram_range_retain hw e ptr len enable w =
     (if len = 0 \<or> ptr < SRAM_BEGIN hw \<or> ptr > SRAM_END hw - len then Some (- EINVAL, w)
      else map_option (\<lambda>w'. (0, w')) (retain_loop hw e enable ptr (ptr + len) w))"

subsection \<open>Validation and update\<close>

definition le_bytes :: "nat \<Rightarrow> 'a::len word \<Rightarrow> bytes" where
  "le_bytes n v = map (\<lambda>k. byte_of k v) [0..<n]"

definition RETAINED_CRC_OFFSET :: nat where "RETAINED_CRC_OFFSET = 24"
definition RETAINED_CHECKED_SIZE :: nat where "RETAINED_CHECKED_SIZE = RETAINED_CRC_OFFSET + 4"

definition retained_bytes :: "retained_data \<Rightarrow> bytes" where
  "retained_bytes r = le_bytes 8 (uptime_latest r) @ le_bytes 8 (uptime_sum r)
     @ le_bytes 4 (boots r) @ le_bytes 4 (off_count r) @ le_bytes 4 (crc r)"

definition crc_residue :: u32 where "crc_residue = 0x2144df1c"

definition retained_zero :: retained_data where
  "retained_zero = \<lparr>uptime_latest = 0, uptime_sum = 0, boots = 0, off_count = 0, crc = 0\<rparr>"

definition retained_valid :: "hw \<Rightarrow> retained_data \<Rightarrow> bool" where
  "retained_valid hw r \<longleftrightarrow>
     crc32_ieee hw (take RETAINED_CHECKED_SIZE (retained_bytes r)) = crc_residue"

definition retained_validate ::
  "hw \<Rightarrow> env \<Rightarrow> 'a retained_world_scheme \<Rightarrow> (bool \<times> 'a retained_world_scheme) option" where
  "retained_validate hw e w =
     (let valid = retained_valid hw (retained_obj w);
          r1 = (if valid then retained_obj w else retained_zero);
          w1 = w\<lparr>retained_obj := r1\<lparr>uptime_latest := 0\<rparr>\<rparr>
      in case ram_range_retain hw e (retained_addr hw) (of_nat RETAINED_CHECKED_SIZE) True w1 of
           None \<Rightarrow> None
         | Some (_, w2) \<Rightarrow> Some (valid, w2))"

definition k_uptime_seconds :: "env \<Rightarrow> 'a world_scheme \<Rightarrow> u32 \<times> 'a world_scheme" where
  "k_uptime_seconds e w = (let (s, w') = invoke e K_uptime_seconds w in (word_of_int s, w'))"

definition retained_accrue :: "u64 \<Rightarrow> retained_data \<Rightarrow> retained_data" where
  "retained_accrue now r =
     r\<lparr>uptime_sum := uptime_sum r + (now - uptime_latest r), uptime_latest := now\<rparr>"

definition retained_seal :: "hw \<Rightarrow> retained_data \<Rightarrow> retained_data" where
  "retained_seal hw r = r\<lparr>crc := crc32_ieee hw (take RETAINED_CRC_OFFSET (retained_bytes r))\<rparr>"

definition retained_update :: "hw \<Rightarrow> env \<Rightarrow> 'a retained_world_scheme \<Rightarrow> 'a retained_world_scheme" where
  "retained_update hw e w =
     (let (now, w1) = k_uptime_seconds e w
      in w1\<lparr>retained_obj := retained_seal hw (retained_accrue (ucast now) (retained_obj w1))\<rparr>)"

subsection \<open>Layout\<close>

lemma length_le_bytes [simp, lengths]: "length (le_bytes n v) = n"
  by (simp add: le_bytes_def)

lemma length_retained_bytes [simp, lengths]: "length (retained_bytes r) = 28"
  by (simp add: retained_bytes_def)

definition retained_data_bytes :: "retained_data \<Rightarrow> bytes" where
  "retained_data_bytes r = le_bytes 8 (uptime_latest r) @ le_bytes 8 (uptime_sum r)
     @ le_bytes 4 (boots r) @ le_bytes 4 (off_count r)"

lemma take_retained_bytes [simp]:
  "take RETAINED_CRC_OFFSET (retained_bytes r) = retained_data_bytes r"
  "take RETAINED_CHECKED_SIZE (retained_bytes r) = retained_data_bytes r @ le_bytes 4 (crc r)"
  by (simp_all add: retained_bytes_def retained_data_bytes_def RETAINED_CRC_OFFSET_def
      RETAINED_CHECKED_SIZE_def)

lemma retained_data_bytes_crc [simp]: "retained_data_bytes (r\<lparr>crc := c\<rparr>) = retained_data_bytes r"
  by (simp add: retained_data_bytes_def)

text \<open>
  What the comment of \<open>retained_validate\<close> states of CRC-32: the CRC of any message followed by its
  own CRC, little-endian, is the residue.
\<close>

definition crc_law :: "(bytes \<Rightarrow> u32) \<Rightarrow> bool" where
  "crc_law f \<longleftrightarrow> (\<forall>m. f (m @ le_bytes 4 (f m)) = crc_residue)"

lemma seal_valid: "crc_law (crc32_ieee hw) \<Longrightarrow> retained_valid hw (retained_seal hw r)"
  by (simp add: retained_valid_def retained_seal_def crc_law_def)

lemma seal_fields [simp, frames]:
  "uptime_latest (retained_seal hw r) = uptime_latest r" "uptime_sum (retained_seal hw r) = uptime_sum r"
  "boots (retained_seal hw r) = boots r" "off_count (retained_seal hw r) = off_count r"
  by (simp_all add: retained_seal_def)

lemma accrue_fields [simp, frames]:
  "boots (retained_accrue n r) = boots r" "off_count (retained_accrue n r) = off_count r"
  "uptime_latest (retained_accrue n r) = n"
  "uptime_sum (retained_accrue n r) - n = uptime_sum r - uptime_latest r"
  by (simp_all add: retained_accrue_def)

subsection \<open>The retention loop\<close>

text \<open>
  The memory map of the nRF52 series: the RAM starts at a multiple of the largest section, and
  nothing the loop computes beyond its end wraps around.
\<close>

definition sram_layout :: "hw \<Rightarrow> bool" where
  "sram_layout hw \<longleftrightarrow> 32768 dvd unat (SRAM_BEGIN hw)
     \<and> unat (SRAM_BEGIN hw) + unat (SRAM_SIZE hw) + 98304 \<le> 2 ^ 32"

definition in_sram :: "hw \<Rightarrow> nat \<Rightarrow> nat \<Rightarrow> bool" where
  "in_sram hw ptr len \<longleftrightarrow>
     unat (SRAM_BEGIN hw) \<le> ptr \<and> ptr + len \<le> unat (SRAM_BEGIN hw) + unat (SRAM_SIZE hw)"

lemma sram_unat:
  assumes "sram_layout hw"
  shows "unat (SRAM_END hw) = unat (SRAM_BEGIN hw) + unat (SRAM_SIZE hw)"
    and "unat (LARGE_SECTION_BEGIN hw) = unat (SRAM_BEGIN hw) + 65536"
  using assms
  by (simp_all add: sram_layout_def SRAM_END_def LARGE_SECTION_BEGIN_def section_defs unat_plus)

text \<open>Section sizes and successors as numbers.\<close>

definition sec_size :: "nat \<Rightarrow> nat \<Rightarrow> nat" where
  "sec_size large a = (if large \<le> a then 32768 else 4096)"

definition sec_next :: "nat \<Rightarrow> nat \<Rightarrow> nat" where
  "sec_next large a = a - a mod sec_size large a + sec_size large a"

lemma sec_next_bounds: "a < sec_next large a" "sec_next large a \<le> a + 32768"
proof -
  have "a mod sec_size large a < sec_size large a" "sec_size large a \<le> 32768"
    by (simp_all add: sec_size_def)
  moreover have "a mod sec_size large a \<le> a" by (rule mod_less_eq_dividend)
  ultimately show "a < sec_next large a" "sec_next large a \<le> a + 32768"
    by (simp_all add: sec_next_def)
qed

lemma unat_section_size: "unat (section_size_of hw a) = sec_size (unat (LARGE_SECTION_BEGIN hw)) (unat a)"
  by (simp add: section_size_of_def sec_size_def section_defs word_le_nat_alt)

lemma unat_next_section:
  assumes "unat a + 32768 < 2 ^ 32"
  shows "unat (next_section hw a) = sec_next (unat (LARGE_SECTION_BEGIN hw)) (unat a)"
proof -
  let ?l = "unat (LARGE_SECTION_BEGIN hw)"
  have m: "unat a mod sec_size ?l (unat a) < sec_size ?l (unat a)" by (simp add: sec_size_def)
  have "unat (section_size_of hw a - a mod section_size_of hw a)
      = sec_size ?l (unat a) - unat a mod sec_size ?l (unat a)"
    using m by (subst unat_sub) (simp_all add: word_le_nat_alt unat_mod_distrib unat_section_size)
  moreover have "unat a mod sec_size ?l (unat a) \<le> unat a" by (rule mod_less_eq_dividend)
  moreover have "sec_size ?l (unat a) \<le> 32768" by (simp add: sec_size_def)
  ultimately show ?thesis
    using m assms by (simp add: next_section_def unat_plus sec_next_def)
qed

text \<open>Addresses of one section lead to the same call.\<close>

lemma same_section:
  assumes "a \<le> b" "b < sec_next l a" "4096 dvd l" "base \<le> a"
    and "if l \<le> a then base = l \<and> 32768 dvd l else 4096 dvd base"
  shows "l \<le> b \<longleftrightarrow> l \<le> a" "(b - base) div sec_size l a = (a - base) div sec_size l a"
proof -
  define s where "s = sec_size l a"
  have s: "0 < s" "sec_next l a = a - a mod s + s" by (simp_all add: s_def sec_size_def sec_next_def)
  have d: "s dvd base" using assms(5) by (simp add: s_def sec_size_def split: if_splits)
  have q: "sec_next l a = (a div s + 1) * s"
    using s(2) by (simp add: minus_mod_eq_div_mult)
  have bq: "b div s = a div s"
  proof (rule antisym)
    show "b div s \<le> a div s"
      using assms(2) q less_mult_imp_div_less [of b "a div s + 1" s] by simp
  qed (rule div_le_mono [OF assms(1)])
  show "l \<le> b \<longleftrightarrow> l \<le> a"
  proof (cases "l \<le> a")
    case False
    then have [simp]: "s = 4096" by (simp add: s_def sec_size_def)
    obtain m where m: "l = 4096 * m" using assms(3) by auto
    then have "a div 4096 < m" using False by (simp add: div_less_iff_less_mult mult.commute)
    then have "(a div 4096 + 1) * 4096 \<le> l" unfolding m by simp
    with False assms(2) q show ?thesis by simp
  qed (use assms(1) in simp)
  obtain m j k where "base = s * m" "a = base + j" "b = base + k"
    using d assms(1,4) le_Suc_ex le_trans unfolding dvd_def by metis
  then show "(b - base) div sec_size l a = (a - base) div sec_size l a"
    unfolding s_def [symmetric] using bq s(1) by simp
qed

lemma section_call_same:
  assumes "sram_layout hw" "SRAM_BEGIN hw \<le> a" "a \<le> b"
    and "unat b < sec_next (unat (LARGE_SECTION_BEGIN hw)) (unat a)"
  shows "section_call hw en b = section_call hw en a"
proof -
  let ?l = "LARGE_SECTION_BEGIN hw"
  have lay: "32768 dvd unat (SRAM_BEGIN hw)" "unat ?l = unat (SRAM_BEGIN hw) + 65536"
    using assms(1) sram_unat(2) by (simp_all add: sram_layout_def)
  define base where "base = (if a \<ge> ?l then ?l else SRAM_BEGIN hw)"
  have base: "base \<le> a" "base \<le> b" using assms(2,3) by (auto simp: base_def)
  have d32: "32768 dvd unat ?l" unfolding lay(2) by (rule dvd_add [OF lay(1)]) simp
  have d4: "4096 dvd unat ?l" "4096 dvd unat (SRAM_BEGIN hw)"
    using d32 lay(1) by (auto intro: dvd_trans [of _ 32768])
  note same = same_section [of "unat a" "unat b" "unat ?l" "unat base", OF _ assms(4) d4(1)]
  have large: "b \<ge> ?l \<longleftrightarrow> a \<ge> ?l" and
    quot: "(unat b - unat base) div sec_size (unat ?l) (unat a)
      = (unat a - unat base) div sec_size (unat ?l) (unat a)"
    using same assms(3) base(1) d32 d4 by (auto simp: word_le_nat_alt base_def)
  have size: "section_size_of hw b = section_size_of hw a"
    by (simp add: section_size_of_def large)
  have "unat ((b - base) div section_size_of hw a) = unat ((a - base) div section_size_of hw a)"
    using quot base by (simp add: unat_div_distrib unat_sub unat_section_size word_le_nat_alt)
  then have "(b - base) div section_size_of hw a = (a - base) div section_size_of hw a"
    by (simp only: word_unat_eq_iff)
  then show ?thesis
    by (simp add: section_call_def section_of_def size large base_def split: if_splits)
qed

text \<open>The loop ends, and it issues exactly the calls of the sections the range touches.\<close>

lemma retain_loop_calls:
  assumes "sram_layout hw" "SRAM_BEGIN hw \<le> a" "a < a_end" "a_end \<le> SRAM_END hw"
  shows "\<exists>cs. retain_loop hw e en a a_end w = Some (w\<lparr>calls := cs @ calls w\<rparr>)
    \<and> set cs = section_call hw en ` {b. a \<le> b \<and> b < a_end}"
  using assms
proof (induction "unat a_end - unat a" arbitrary: a w rule: less_induct)
  case less
  let ?n = "next_section hw a" and ?w1 = "w\<lparr>calls := section_call hw en a # calls w\<rparr>"
  have "unat a_end \<le> unat (SRAM_BEGIN hw) + unat (SRAM_SIZE hw)" "unat a < unat a_end"
    using less.prems sram_unat(1) by (simp_all add: word_le_nat_alt word_less_nat_alt)
  then have n: "unat ?n = sec_next (unat (LARGE_SECTION_BEGIN hw)) (unat a)"
    using less.prems(1) by (intro unat_next_section) (simp add: sram_layout_def)
  then have an: "a < ?n" using sec_next_bounds(1) by (simp add: word_less_nat_alt)
  have here: "section_call hw en b = section_call hw en a" if "a \<le> b" "b < ?n" for b
    by (rule section_call_same [OF less.prems(1,2) that(1)]) (use that(2) n in \<open>simp add: word_less_nat_alt\<close>)
  show ?case
  proof (cases "?n < a_end")
    case True
    have "unat a_end - unat ?n < unat a_end - unat a"
      using True an by (simp add: word_less_nat_alt)
    moreover have "SRAM_BEGIN hw \<le> ?n" using less.prems(2) an by simp
    ultimately obtain cs where cs: "retain_loop hw e en ?n a_end ?w1 = Some (?w1\<lparr>calls := cs @ calls ?w1\<rparr>)"
      "set cs = section_call hw en ` {b. ?n \<le> b \<and> b < a_end}"
      using less.hyps [of ?n ?w1] less.prems(1,4) True by blast
    have "{b. a \<le> b \<and> b < a_end} = {b. a \<le> b \<and> b < ?n} \<union> {b. ?n \<le> b \<and> b < a_end}"
      using an True by auto
    moreover have "section_call hw en ` {b. a \<le> b \<and> b < ?n} = {section_call hw en a}"
      by (rule image_constantI [of _ _ _ a], use here in blast, use an in simp)
    ultimately have "set (cs @ [section_call hw en a]) = section_call hw en ` {b. a \<le> b \<and> b < a_end}"
      by (simp add: cs(2) image_Un)
    moreover have "retain_loop hw e en a a_end w = Some (w\<lparr>calls := (cs @ [section_call hw en a]) @ calls w\<rparr>)"
      by (subst retain_loop.simps) (simp add: True cs(1) Let_def)
    ultimately show ?thesis by blast
  next
    case False
    then have e: "a_end \<le> ?n" by simp
    have "section_call hw en ` {b. a \<le> b \<and> b < a_end} = set [section_call hw en a]"
      unfolding list.set
      by (rule image_constantI [of _ _ _ a], use here less_le_trans [OF _ e] in blast, use less.prems(3) in simp)
    moreover have "retain_loop hw e en a a_end w = Some (w\<lparr>calls := [section_call hw en a] @ calls w\<rparr>)"
      by (subst retain_loop.simps) (simp add: False Let_def)
    ultimately show ?thesis by blast
  qed
qed

lemma ram_range_retain_calls:
  assumes "sram_layout hw" "0 < len" "in_sram hw (unat ptr) (unat len)"
  shows "\<exists>cs. ram_range_retain hw e ptr len en w = Some (0, w\<lparr>calls := cs @ calls w\<rparr>)
    \<and> set cs = section_call hw en ` {b. ptr \<le> b \<and> b < ptr + len}"
proof -
  have len: "0 < unat len" using assms(2) by (simp add: word_less_nat_alt)
  have fit: "unat ptr + unat len \<le> unat (SRAM_END hw)" "unat (SRAM_END hw) < 2 ^ 32"
    using assms(1,3) unsigned_less [of "SRAM_END hw", where 'a = nat]
    by (simp_all add: sram_unat in_sram_def)
  then have e: "unat (ptr + len) = unat ptr + unat len" by (simp add: unat_plus)
  have "len \<le> SRAM_END hw" using fit(1) by (simp add: word_le_nat_alt)
  then have "unat (SRAM_END hw - len) = unat (SRAM_END hw) - unat len" by (simp add: unat_sub)
  then have "\<not> (len = 0 \<or> ptr < SRAM_BEGIN hw \<or> ptr > SRAM_END hw - len)"
    using fit assms(2,3) by (auto simp: word_less_nat_alt in_sram_def)
  moreover have "SRAM_BEGIN hw \<le> ptr" "ptr < ptr + len" "ptr + len \<le> SRAM_END hw"
    using assms(3) e len fit by (simp_all add: word_le_nat_alt word_less_nat_alt in_sram_def)
  ultimately show ?thesis
    using retain_loop_calls [OF assms(1), of ptr "ptr + len" e en w] by (auto simp: ram_range_retain_def)
qed

subsection \<open>Properties\<close>

text \<open>
  The RAM map in the comment of \<open>retained.c\<close>, as block and section of an offset into the RAM: eight
  blocks of two 4 KiB sections, then blocks of sixteen 32 KiB sections.
\<close>

definition ram_map :: "nat \<Rightarrow> nat \<times> nat" where
  "ram_map off = (if off < 65536 then (off div 8192, off mod 8192 div 4096)
     else (8 + (off - 65536) div 524288, (off - 65536) mod 524288 div 32768))"

text \<open>Switching the retention of one section: its block's register, and its bit in the retention field.\<close>

definition retention_call :: "hw \<Rightarrow> bool \<Rightarrow> nat \<times> nat \<Rightarrow> call" where
  "retention_call hw enable = (\<lambda>(block, section).
     (if enable then Nrf_power_rampower_mask_on else Nrf_power_rampower_mask_off)
       (of_nat block) (push_bit (section + S0RETENTION_Pos hw) (S0RETENTION_On hw)))"

lemma block_section:
  fixes sec k :: u32
  assumes "unat sec = n" "k = 2 \<or> k = 16" "r = (if sec \<ge> k then (b + ucast (sec div k), sec mod k) else (b, sec))"
  shows "fst r = (b + of_nat (n div unat k) :: u8)" "unat (snd r) = n mod unat k"
proof -
  have k: "0 < unat k" using assms(2) by auto
  have "ucast (sec div k) = (of_nat (unat (sec div k)) :: u8)" by simp
  then have u: "ucast (sec div k) = (of_nat (n div unat k) :: u8)" by (simp only: unat_div_distrib assms(1))
  have "sec \<ge> k \<longleftrightarrow> unat k \<le> n" by (simp add: word_le_nat_alt assms(1))
  then show "fst r = (b + of_nat (n div unat k) :: u8)" "unat (snd r) = n mod unat k"
    using u by (simp_all add: assms(1,3) unat_mod_distrib)
qed

lemma section_call_ram_map:
  assumes "sram_layout hw" "SRAM_BEGIN hw \<le> addr"
  shows "section_call hw en addr = retention_call hw en (ram_map (unat addr - unat (SRAM_BEGIN hw)))"
proof -
  define off where "off = unat addr - unat (SRAM_BEGIN hw)"
  have off: "unat addr = unat (SRAM_BEGIN hw) + off" using assms(2) by (simp add: off_def word_le_nat_alt)
  note l = sram_unat(2) [OF assms(1)]
  show ?thesis
  proof (cases "off < 65536")
    case True
    let ?sec = "(addr - SRAM_BEGIN hw) div SMALL_SECTION_SIZE"
    have small: "\<not> addr \<ge> LARGE_SECTION_BEGIN hw" using True by (simp add: word_le_nat_alt l off)
    have "unat ?sec = off div 4096"
      using assms(2) off by (simp add: unat_div_distrib unat_sub section_defs)
    define r where "r = (if ?sec \<ge> 2 then (0 + ucast (?sec div 2), ?sec mod 2) else (0 :: u8, ?sec))"
    note b = block_section [OF \<open>unat ?sec = _\<close> disjI1 [OF refl] r_def]
    have "section_of hw addr = (fst r, push_bit (unat (snd r) + S0RETENTION_Pos hw) (S0RETENTION_On hw))"
      using small by (cases "?sec \<ge> 2") (simp_all add: section_of_def section_size_of_def SMALL_SECTIONS_PER_BLOCK_def r_def Let_def)
    moreover have "off div 4096 div 2 = off div 8192" by (simp add: div_mult2_eq [symmetric])
    moreover have "off mod 8192 div 4096 = off div 4096 mod 2" by (simp add: mod_mult2_eq [of off 4096 2, simplified])
    ultimately show ?thesis
      using True b unfolding off_def [symmetric]
      by (simp add: section_call_def retention_call_def ram_map_def)
  next
    case False
    let ?sec = "(addr - LARGE_SECTION_BEGIN hw) div LARGE_SECTION_SIZE"
    have large: "addr \<ge> LARGE_SECTION_BEGIN hw" using False by (simp add: word_le_nat_alt l off)
    have "unat ?sec = (off - 65536) div 32768"
      using large off l by (simp add: unat_div_distrib unat_sub LARGE_SECTION_SIZE_def)
    define r where "r = (if ?sec \<ge> 16 then (8 + ucast (?sec div 16), ?sec mod 16) else (8 :: u8, ?sec))"
    note b = block_section [OF \<open>unat ?sec = _\<close> disjI2 [OF refl] r_def]
    have "section_of hw addr = (fst r, push_bit (unat (snd r) + S0RETENTION_Pos hw) (S0RETENTION_On hw))"
      using large by (cases "?sec \<ge> 16") (simp_all add: section_of_def section_size_of_def r_def Let_def)
    moreover have "(off - 65536) div 32768 div 16 = (off - 65536) div 524288" by (simp add: div_mult2_eq [symmetric])
    moreover have "(off - 65536) mod 524288 div 32768 = (off - 65536) div 32768 mod 16"
      by (simp add: mod_mult2_eq [of "off - 65536" 32768 16, simplified])
    ultimately show ?thesis
      using False b unfolding off_def [symmetric]
      by (simp add: section_call_def retention_call_def ram_map_def)
  qed
qed

text \<open>
  Property C35: retaining a range within the RAM returns, succeeds, and switches exactly the sections of
  the RAM map that hold a byte of the range, each with its own bit in the register of its own block, and
  nothing else.
\<close>

theorem ram_range_retain_covers:
  assumes "sram_layout hw" "0 < len" "in_sram hw (unat ptr) (unat len)"
  shows "\<exists>cs. ram_range_retain hw e ptr len en w = Some (0, w\<lparr>calls := cs @ calls w\<rparr>)
    \<and> set cs = {retention_call hw en (ram_map off) | off.
        unat ptr \<le> unat (SRAM_BEGIN hw) + off \<and> unat (SRAM_BEGIN hw) + off < unat ptr + unat len}"
proof -
  have fit: "unat ptr + unat len \<le> unat (SRAM_END hw)" "unat (SRAM_BEGIN hw) \<le> unat ptr"
    using assms(1,3) by (simp_all add: sram_unat in_sram_def)
  then have "unat ptr + unat len < 2 ^ 32"
    using unsigned_less [of "SRAM_END hw", where 'a = nat] by simp
  then have e: "unat (ptr + len) = unat ptr + unat len" by (simp add: unat_plus)
  obtain cs where cs: "ram_range_retain hw e ptr len en w = Some (0, w\<lparr>calls := cs @ calls w\<rparr>)"
    "set cs = section_call hw en ` {b. ptr \<le> b \<and> b < ptr + len}"
    using ram_range_retain_calls [OF assms] by blast
  have "section_call hw en ` {b. ptr \<le> b \<and> b < ptr + len} = {retention_call hw en (ram_map off) | off.
      unat ptr \<le> unat (SRAM_BEGIN hw) + off \<and> unat (SRAM_BEGIN hw) + off < unat ptr + unat len}" (is "?L = ?R")
  proof (intro equalityI subsetI)
    fix c assume "c \<in> ?L"
    then obtain b where b: "c = section_call hw en b" "unat ptr \<le> unat b" "unat b < unat ptr + unat len"
      by (auto simp: word_le_nat_alt word_less_nat_alt e)
    then have "c = retention_call hw en (ram_map (unat b - unat (SRAM_BEGIN hw)))"
      using fit(2) section_call_ram_map [OF assms(1), of b en] by (simp add: word_le_nat_alt)
    with b fit(2) show "c \<in> ?R" by (intro CollectI exI [of _ "unat b - unat (SRAM_BEGIN hw)"]) simp
  next
    fix c assume "c \<in> ?R"
    then obtain off where o: "c = retention_call hw en (ram_map off)" "unat ptr \<le> unat (SRAM_BEGIN hw) + off"
      "unat (SRAM_BEGIN hw) + off < unat ptr + unat len" by blast
    define b :: u32 where "b = of_nat (unat (SRAM_BEGIN hw) + off)"
    have u: "unat (of_nat n :: u32) = n" if "n < 2 ^ 32" for n
      using that by (simp add: unat_of_nat take_bit_eq_mod)
    have b: "unat b = unat (SRAM_BEGIN hw) + off"
      unfolding b_def by (rule u) (use o(3) \<open>unat ptr + unat len < 2 ^ 32\<close> in linarith)
    then have "c = section_call hw en b"
      using section_call_ram_map [OF assms(1), of b en] by (simp add: o(1) word_le_nat_alt)
    moreover have "b \<in> {b. ptr \<le> b \<and> b < ptr + len}" using b o(2,3) e by (simp add: word_le_nat_alt word_less_nat_alt)
    ultimately show "c \<in> ?L" by (rule image_eqI)
  qed
  with cs show ?thesis by (intro exI [of _ cs]) simp
qed

text \<open>
  A range that is empty or not entirely within the RAM is rejected with \<open>-EINVAL\<close>
  and no power register is touched. The bound on the length is needed: the guard subtracts it from
  the end of the RAM, and a longer length wraps around.
\<close>

theorem ram_range_retain_rejects:
  assumes "sram_layout hw" "len \<le> SRAM_END hw" "len = 0 \<or> \<not> in_sram hw (unat ptr) (unat len)"
  shows "ram_range_retain hw e ptr len en w = Some (- EINVAL, w)"
proof -
  have "unat (SRAM_END hw - len) = unat (SRAM_END hw) - unat len"
    using assms(2) by (simp add: unat_sub)
  then have "ptr > SRAM_END hw - len \<or> ptr < SRAM_BEGIN hw \<or> len = 0"
    using assms(2,3) sram_unat(1) [OF assms(1)]
    by (auto simp: word_less_nat_alt word_le_nat_alt in_sram_def)
  then show ?thesis by (auto simp: ram_range_retain_def)
qed

text \<open>What validation does, given that its loop runs over RAM.\<close>

definition retained_placed :: "hw \<Rightarrow> bool" where
  "retained_placed hw \<longleftrightarrow> sram_layout hw \<and> in_sram hw (unat (retained_addr hw)) RETAINED_CHECKED_SIZE"

lemma retained_validate_result:
  assumes "retained_placed hw"
  shows "\<exists>cs. retained_validate hw e w = Some (retained_valid hw (retained_obj w),
      w\<lparr>retained_obj := (if retained_valid hw (retained_obj w) then retained_obj w
           else retained_zero)\<lparr>uptime_latest := 0\<rparr>,
        calls := cs @ calls w\<rparr>)
    \<and> set cs = section_call hw True `
        {b. retained_addr hw \<le> b \<and> b < retained_addr hw + of_nat RETAINED_CHECKED_SIZE}"
proof -
  have "in_sram hw (unat (retained_addr hw)) (unat (of_nat RETAINED_CHECKED_SIZE :: u32))"
    "(0 :: u32) < of_nat RETAINED_CHECKED_SIZE"
    using assms by (simp_all add: retained_placed_def RETAINED_CHECKED_SIZE_def RETAINED_CRC_OFFSET_def)
  then have "\<exists>cs. ram_range_retain hw e (retained_addr hw) (of_nat RETAINED_CHECKED_SIZE) True w'
      = Some (0, w'\<lparr>calls := cs @ calls w'\<rparr>) \<and> set cs = section_call hw True `
        {b. retained_addr hw \<le> b \<and> b < retained_addr hw + of_nat RETAINED_CHECKED_SIZE}"
    for w' :: "'a retained_world_scheme"
    using ram_range_retain_calls [of hw "of_nat RETAINED_CHECKED_SIZE" "retained_addr hw" e True w'] assms
    by (simp add: retained_placed_def)
  from this [of "w\<lparr>retained_obj := (if retained_valid hw (retained_obj w) then retained_obj w
      else retained_zero)\<lparr>uptime_latest := 0\<rparr>\<rparr>"]
  show ?thesis by (auto simp: retained_validate_def Let_def)
qed

lemma retained_update_obj:
  "retained_obj (retained_update hw e w) =
     retained_seal hw (retained_accrue (ucast (fst (k_uptime_seconds e w))) (retained_obj w))"
  by (simp add: retained_update_def k_uptime_seconds_def Let_def split_def)

text \<open>
  Validation returns; data whose CRC does not match are replaced by zeros, data whose
  CRC matches are kept, in both cases with the uptime base of the new session at zero; and in
  both cases every section the structure lies in is configured to survive power-off, and only
  those.
\<close>

theorem retained_validate_outcome:
  assumes "retained_placed hw"
  shows "\<exists>ok w' cs. retained_validate hw e w = Some (ok, w')
    \<and> ok = retained_valid hw (retained_obj w)
    \<and> retained_obj w' = (if ok then retained_obj w else retained_zero)\<lparr>uptime_latest := 0\<rparr>
    \<and> calls w' = cs @ calls w
    \<and> set cs = section_call hw True `
        {b. retained_addr hw \<le> b \<and> b < retained_addr hw + of_nat RETAINED_CHECKED_SIZE}"
  using retained_validate_result [OF assms, of e w] by auto

text \<open>
  Property C24: what an update seals before power-off is accepted at the next boot, and the boot
  counter, the power-off counter and the cumulated uptime come back unchanged. The CRC is a
  parameter; the law assumed of it is the residue property the code relies on.
\<close>

theorem retained_survives_power_off:
  assumes "crc_law (crc32_ieee hw)" "retained_placed hw"
  shows "\<exists>w'. retained_validate hw e' (wb\<lparr>retained_obj := retained_obj (retained_update hw e w)\<rparr>) = Some (True, w')
    \<and> boots (retained_obj w') = boots (retained_obj w)
    \<and> off_count (retained_obj w') = off_count (retained_obj w)
    \<and> uptime_sum (retained_obj w') = uptime_sum (retained_obj (retained_update hw e w))
    \<and> uptime_latest (retained_obj w') = 0"
proof -
  let ?w = "wb\<lparr>retained_obj := retained_obj (retained_update hw e w)\<rparr>"
  have "retained_valid hw (retained_obj ?w)" using seal_valid [OF assms(1)] by (simp add: retained_update_obj)
  then show ?thesis
    using retained_validate_result [OF assms(2), of e' ?w] by (auto simp: retained_update_obj)
qed

text \<open>
  Property C36: however often the data are updated in a session, the uptime gained since its start
  is the last uptime reading: no second is counted twice or lost (modulo \<open>2 ^ 64\<close>), and the
  counters stay.
\<close>

theorem session_uptime:
  "retained_obj ((retained_update hw e ^^ Suc n) w) = r' \<Longrightarrow> retained_obj w = r
    \<Longrightarrow> uptime_sum r' = uptime_sum r - uptime_latest r + uptime_latest r'
      \<and> uptime_latest r' = ucast (fst (k_uptime_seconds e ((retained_update hw e ^^ n) w)))
      \<and> boots r' = boots r \<and> off_count r' = off_count r"
proof (induction n arbitrary: r')
  case 0
  then show ?case
    by (auto simp: retained_update_obj retained_accrue_def)
next
  case (Suc n)
  let ?w = "(retained_update hw e ^^ Suc n) w"
  have r': "r' = retained_seal hw (retained_accrue (ucast (fst (k_uptime_seconds e ?w))) (retained_obj ?w))"
    using Suc.prems(1) by (simp add: retained_update_obj)
  show ?case
    using Suc.IH [OF refl Suc.prems(2)] unfolding r' by (simp add: retained_accrue_def)
qed

subsection \<open>Witnesses\<close>

text \<open>An nRF52 with 64 KiB of RAM, the structure across a section border, and the real CRC-32.\<close>

definition nrf52_hw :: hw where
  "nrf52_hw = \<lparr>crc32_ieee = crc32, SRAM_BEGIN = 0x20000000, SRAM_SIZE = 0x10000,
     retained_addr = 0x20001FF0, S0RETENTION_On = 1, S0RETENTION_Pos = 16\<rparr>"

lemma nrf52_hw_laws:
  "crc_law (crc32_ieee nrf52_hw)" "sram_layout nrf52_hw" "retained_placed nrf52_hw"
proof -
  show "crc_law (crc32_ieee nrf52_hw)"
    using crc32_residue by (simp add: crc_law_def le_bytes_def crc_residue_def nrf52_hw_def)
  show "sram_layout nrf52_hw"
    by (simp add: sram_layout_def nrf52_hw_def dvd_eq_mod_eq_0)
  then show "retained_placed nrf52_hw"
    by (simp add: retained_placed_def in_sram_def nrf52_hw_def RETAINED_CHECKED_SIZE_def RETAINED_CRC_OFFSET_def)
qed

definition uptime_env :: "int \<Rightarrow> env" where
  "uptime_env s = \<lparr>env_rc = \<lambda>_ _. s, env_load = \<lambda>_ _ _ d. (0, d), env_spi_data = \<lambda>_ _. 0,
     env_hw_id = \<lambda>_. [], env_junk = \<lambda>_ _. 0\<rparr>"

definition cold_world :: "retained_world" where
  "cold_world = \<lparr>calls = [], retained_obj = retained_zero\<rparr>"

text \<open>The structure lies across the border of blocks 0 and 1: two sections are switched.\<close>

theorem ram_range_retain_covers_witness:
  "\<exists>cs. ram_range_retain nrf52_hw (uptime_env 0) 0x20001FF0 28 True cold_world
      = Some (0, cold_world\<lparr>calls := cs @ calls cold_world\<rparr>)
    \<and> set cs = {Nrf_power_rampower_mask_on 0 (push_bit 17 1), Nrf_power_rampower_mask_on 1 (push_bit 16 1)}"
proof -
  have "in_sram nrf52_hw (unat (0x20001FF0 :: u32)) (unat (28 :: u32))"
    by (simp add: in_sram_def nrf52_hw_def)
  from ram_range_retain_covers [OF nrf52_hw_laws(2) _ this, where e = "uptime_env 0" and en = True and w = cold_world]
  obtain cs where cs: "ram_range_retain nrf52_hw (uptime_env 0) 0x20001FF0 28 True cold_world
      = Some (0, cold_world\<lparr>calls := cs @ calls cold_world\<rparr>)"
    and s: "set cs = {retention_call nrf52_hw True (ram_map off) | off. 8176 \<le> off \<and> off < 8204}"
    by (auto simp: nrf52_hw_def)
  have "ram_map off = (if off < 8192 then (0, 1) else (1, 0))" if "8176 \<le> off" "off < 8204" for off
  proof (cases "off < 8192")
    case True
    then have "off div 4096 = 1" using that by (intro div_nat_eqI) simp_all
    with True show ?thesis by (simp add: ram_map_def)
  next
    case False
    then have "off = 8192 + (off - 8192)" "off - 8192 < 4096" using that by simp_all
    then obtain d where "off = 8192 + d" "d < 4096" by blast
    then show ?thesis by (simp add: ram_map_def)
  qed
  note m = this
  have "set cs = retention_call nrf52_hw True ` {(0, 1), (1, 0)}"
  proof (intro equalityI subsetI)
    fix c assume "c \<in> set cs"
    then show "c \<in> retention_call nrf52_hw True ` {(0, 1), (1, 0)}" unfolding s using m by (auto split: if_splits)
  next
    fix c assume "c \<in> retention_call nrf52_hw True ` {(0, 1), (1, 0)}"
    then have "c = retention_call nrf52_hw True (ram_map 8176) \<or> c = retention_call nrf52_hw True (ram_map 8192)"
      by (simp add: m)
    then show "c \<in> set cs" unfolding s by fastforce
  qed
  then have "set cs = {Nrf_power_rampower_mask_on 0 (push_bit 17 1), Nrf_power_rampower_mask_on 1 (push_bit 16 1)}"
    by (simp add: retention_call_def nrf52_hw_def)
  with cs show ?thesis by blast
qed

theorem ram_range_retain_rejects_witness:
  "ram_range_retain nrf52_hw (uptime_env 0) 0x2000FFF0 28 True cold_world = Some (- EINVAL, cold_world)"
  by (rule ram_range_retain_rejects [OF nrf52_hw_laws(2)]) (simp_all add: SRAM_END_def in_sram_def nrf52_hw_def)

theorem retained_validate_outcome_witness:
  "\<exists>w'. retained_validate nrf52_hw (uptime_env 0) cold_world
      = Some (retained_valid nrf52_hw retained_zero, w') \<and> retained_obj w' = retained_zero"
  using retained_validate_outcome [OF nrf52_hw_laws(3), where e = "uptime_env 0" and w = cold_world]
  by (auto simp: cold_world_def) (auto simp: retained_zero_def split: if_splits)

theorem retained_survives_power_off_witness:
  "\<exists>w'. retained_validate nrf52_hw (uptime_env 0)
        (cold_world\<lparr>retained_obj := retained_obj (retained_update nrf52_hw (uptime_env 99) cold_world)\<rparr>)
      = Some (True, w')
    \<and> uptime_sum (retained_obj w') = 99"
proof -
  have "uptime_sum (retained_obj (retained_update nrf52_hw (uptime_env 99) cold_world)) = 99"
    by (simp add: retained_update_obj retained_accrue_def k_uptime_seconds_def uptime_env_def
        cold_world_def retained_zero_def split_def)
  with retained_survives_power_off [OF nrf52_hw_laws(1,3), where e' = "uptime_env 0" and wb = cold_world and e = "uptime_env 99" and w = cold_world]
  show ?thesis by auto
qed

theorem session_uptime_witness:
  "uptime_sum (retained_obj ((retained_update nrf52_hw (uptime_env 60) ^^ Suc 2) cold_world)) = 60"
  using session_uptime [OF refl refl, where hw = nrf52_hw and e = "uptime_env 60" and n = 2 and w = cold_world]
  by (simp add: k_uptime_seconds_def uptime_env_def cold_world_def retained_zero_def split_def)

end
