(* ===== verification/Codec.thy ===== *)
theory Codec
  imports Prelude
begin

text \<open>
  The byte codecs of \<open>include/ant_profiles/tpms/ant_tpms_utils.h\<close>: little-endian encoding of 16,
  24 and 32 bit values into a byte buffer. A C pointer into a buffer is the buffer and an offset;
  the encoder returns the whole buffer, so that what it leaves alone is part of its result. The
  returned byte count is a separate constant.

  The locale \<open>le_codec\<close> is the contract the data pages rely on; each of the three codecs
  interprets it.
\<close>

subsection \<open>The codecs\<close>

definition uint16_encode :: "u16 \<Rightarrow> bytes \<Rightarrow> nat \<Rightarrow> bytes" where
  "uint16_encode value buf off = buf
     [off := ucast (drop_bit 0 (value AND 0x00FF)),
      off + 1 := ucast (drop_bit 8 (value AND 0xFF00))]"

definition uint16_decode :: "bytes \<Rightarrow> nat \<Rightarrow> u16" where
  "uint16_decode buf off = ucast (buf ! off) OR push_bit 8 (ucast (buf ! (off + 1)))"

definition uint24_encode :: "u32 \<Rightarrow> bytes \<Rightarrow> nat \<Rightarrow> bytes" where
  "uint24_encode value buf off = buf
     [off := ucast (drop_bit 0 (value AND 0x000000FF)),
      off + 1 := ucast (drop_bit 8 (value AND 0x0000FF00)),
      off + 2 := ucast (drop_bit 16 (value AND 0x00FF0000))]"

definition uint24_decode :: "bytes \<Rightarrow> nat \<Rightarrow> u32" where
  "uint24_decode buf off =
     ucast (buf ! off) OR push_bit 8 (ucast (buf ! (off + 1)))
       OR push_bit 16 (ucast (buf ! (off + 2)))"

definition uint32_encode :: "u32 \<Rightarrow> bytes \<Rightarrow> nat \<Rightarrow> bytes" where
  "uint32_encode value buf off = buf
     [off := ucast (drop_bit 0 (value AND 0x000000FF)),
      off + 1 := ucast (drop_bit 8 (value AND 0x0000FF00)),
      off + 2 := ucast (drop_bit 16 (value AND 0x00FF0000)),
      off + 3 := ucast (drop_bit 24 (value AND 0xFF000000))]"

definition uint32_decode :: "bytes \<Rightarrow> nat \<Rightarrow> u32" where
  "uint32_decode buf off =
     push_bit 0 (ucast (buf ! off)) OR push_bit 8 (ucast (buf ! (off + 1)))
       OR push_bit 16 (ucast (buf ! (off + 2))) OR push_bit 24 (ucast (buf ! (off + 3)))"

definition uint16_encode_size :: nat where "uint16_encode_size = 2"
definition uint24_encode_size :: nat where "uint24_encode_size = 3"
definition uint32_encode_size :: nat where "uint32_encode_size = 4"

subsection \<open>The contract of a codec\<close>

text \<open>
  Byte \<open>i\<close> of the window holds bits \<open>8 i\<close> to \<open>8 i + 7\<close> of the value, everything else in the buffer
  stays, and the decoder reads those bits back. All the laws the pages use follow from this.
\<close>

locale le_codec =
  fixes enc :: "'a::len word \<Rightarrow> bytes \<Rightarrow> nat \<Rightarrow> bytes"
    and dec :: "bytes \<Rightarrow> nat \<Rightarrow> 'a word"
    and width :: nat
  assumes enc_length: "length (enc v buf off) = length buf"
    and enc_nth: "i < length buf \<Longrightarrow>
      enc v buf off ! i = (if off \<le> i \<and> i < off + width then byte_of (i - off) v else buf ! i)"
    and dec_bit: "n < LENGTH('a) \<Longrightarrow>
      bit (dec buf off) n \<longleftrightarrow> n < 8 * width \<and> bit (buf ! (off + n div 8)) (n mod 8)"
begin

lemma dec_enc: "off + width \<le> length buf \<Longrightarrow> dec (enc v buf off) off = v AND mask (8 * width)"
  by (rule bit_word_eqI) (auto simp: dec_bit enc_nth bit_simps less_mult_imp_div_less)

lemma enc_dec:
  assumes "off + width \<le> length buf" and "8 * width \<le> LENGTH('a)"
  shows "enc (dec buf off) buf off = buf"
proof (rule nth_equalityI)
  fix i assume "i < length (enc (dec buf off) buf off)"
  then have i: "i < length buf" by (simp add: enc_length)
  show "enc (dec buf off) buf off ! i = buf ! i"
  proof (cases "off \<le> i \<and> i < off + width")
    case True
    then have "byte_of (i - off) (dec buf off) = buf ! i"
      using assms by (intro bit_word_eqI) (auto simp: bit_simps dec_bit)
    with True i show ?thesis by (simp add: enc_nth)
  qed (auto simp: enc_nth i)
qed (simp add: enc_length)

text \<open>A value is unaffected by a write to another, disjoint window.\<close>

lemma dec_enc_disjoint:
  assumes "off + width \<le> off' \<or> off' + width \<le> off" and "off + width \<le> length buf"
  shows "dec (enc v buf off') off = dec buf off"
proof (rule bit_word_eqI)
  fix n assume n: "n < LENGTH('a)"
  have "n < 8 * width \<Longrightarrow> n div 8 < width" by (simp add: less_mult_imp_div_less mult.commute)
  with n assms show "bit (dec (enc v buf off') off) n = bit (dec buf off) n"
    by (auto simp: dec_bit enc_nth)
qed

text \<open>The window is overwritten completely: what was there before does not matter.\<close>

lemma enc_overwrites:
  assumes "length buf = length buf'"
    and "\<And>i. i < length buf \<Longrightarrow> \<not> (off \<le> i \<and> i < off + width) \<Longrightarrow> buf ! i = buf' ! i"
  shows "enc v buf off = enc v buf' off"
  by (rule nth_equalityI) (use assms in \<open>auto simp: enc_length enc_nth\<close>)

lemma enc_inj:
  "off + width \<le> length buf \<Longrightarrow> enc v buf off = enc v' buf off
    \<Longrightarrow> v AND mask (8 * width) = v' AND mask (8 * width)"
  by (metis dec_enc)

end

subsection \<open>The three codecs keep the contract\<close>

lemma uint_encode_bytes:
  "uint16_encode v buf off = buf[off := byte_of 0 v, off + 1 := byte_of 1 v]"
  "uint24_encode w buf off = buf[off := byte_of 0 w, off + 1 := byte_of 1 w, off + 2 := byte_of 2 w]"
  "uint32_encode w buf off = buf[off := byte_of 0 w, off + 1 := byte_of 1 w, off + 2 := byte_of 2 w,
     off + 3 := byte_of 3 w]"
proof -
  have select: "ucast (drop_bit k (x AND push_bit k (mask 8))) = (ucast (drop_bit k x) :: u8)"
    for k and x :: "'b::len word"
    by (rule bit_word_eqI) (auto simp: bit_simps dest: bit_imp_le_length)
  show "uint16_encode v buf off = buf[off := byte_of 0 v, off + 1 := byte_of 1 v]"
    "uint24_encode w buf off = buf[off := byte_of 0 w, off + 1 := byte_of 1 w, off + 2 := byte_of 2 w]"
    "uint32_encode w buf off = buf[off := byte_of 0 w, off + 1 := byte_of 1 w, off + 2 := byte_of 2 w,
       off + 3 := byte_of 3 w]"
    using select [of 0 v] select [of 8 v] select [of 0 w] select [of 8 w] select [of 16 w] select [of 24 w]
    by (simp_all only: uint16_encode_def uint24_encode_def uint32_encode_def byte_of_def masks
        push_bit_of_0 mult_0_right) simp_all
qed

lemma byte_index_cases:
  assumes "n < (32::nat)"
  obtains (b0) "n < 8" "n div 8 = 0" "n mod 8 = n"
    | (b1) "8 \<le> n" "n < 16" "n div 8 = 1" "n mod 8 = n - 8"
    | (b2) "16 \<le> n" "n < 24" "n div 8 = 2" "n mod 8 = n - 16"
    | (b3) "24 \<le> n" "n < 32" "n div 8 = 3" "n mod 8 = n - 24"
proof -
  have "n div 8 < 4" using assms by simp
  then consider "n div 8 = 0" | "n div 8 = 1" | "n div 8 = 2" | "n div 8 = 3" by linarith
  then show ?thesis
    by cases (use that minus_mod_eq_mult_div [of n 8] in \<open>auto simp: div_eq_0_iff\<close>)
qed

lemma uint16_decode_bit:
  assumes "n < 16"
  shows "bit (uint16_decode buf off) n \<longleftrightarrow> bit (buf ! (off + n div 8)) (n mod 8)"
proof -
  have "n < 32" using assms by simp
  then show ?thesis
    by (cases n rule: byte_index_cases) (use assms in \<open>auto simp: uint16_decode_def bit_simps\<close>)
qed

lemma uint24_decode_bit:
  assumes "n < 32"
  shows "bit (uint24_decode buf off) n \<longleftrightarrow> n < 24 \<and> bit (buf ! (off + n div 8)) (n mod 8)"
  using assms by (cases n rule: byte_index_cases) (auto simp: uint24_decode_def bit_simps)

lemma uint32_decode_bit:
  assumes "n < 32"
  shows "bit (uint32_decode buf off) n \<longleftrightarrow> bit (buf ! (off + n div 8)) (n mod 8)"
  using assms by (cases n rule: byte_index_cases) (auto simp: uint32_decode_def bit_simps)

lemma window_cases:
  assumes "off \<le> i" "i < off + w" "w \<le> (4::nat)"
  obtains "i = off" "0 < w" | "i = off + 1" "1 < w" | "i = off + 2" "2 < w" | "i = off + 3" "3 < w"
proof -
  from assms obtain k where "i = off + k" "k < w" using le_Suc_ex by force
  with assms(3) consider "k = 0" | "k = 1" | "k = 2" | "k = 3" by linarith
  then show ?thesis by cases (use that \<open>i = off + k\<close> \<open>k < w\<close> in simp_all)
qed

lemma uint16_encode_nth:
  assumes "i < length buf"
  shows "uint16_encode v buf off ! i
      = (if off \<le> i \<and> i < off + 2 then byte_of (i - off) v else buf ! i)"
proof (cases "off \<le> i \<and> i < off + 2")
  case True
  then have "off \<le> i" "i < off + 2" "2 \<le> (4::nat)" by simp_all
  then show ?thesis
    by (cases rule: window_cases) (use assms in \<open>simp_all add: uint_encode_bytes\<close>)
qed (use assms in \<open>auto simp: uint_encode_bytes nth_list_update\<close>)

lemma uint24_encode_nth:
  assumes "i < length buf"
  shows "uint24_encode v buf off ! i
      = (if off \<le> i \<and> i < off + 3 then byte_of (i - off) v else buf ! i)"
proof (cases "off \<le> i \<and> i < off + 3")
  case True
  then have "off \<le> i" "i < off + 3" "3 \<le> (4::nat)" by simp_all
  then show ?thesis
    by (cases rule: window_cases) (use assms in \<open>simp_all add: uint_encode_bytes\<close>)
qed (use assms in \<open>auto simp: uint_encode_bytes nth_list_update\<close>)

lemma uint32_encode_nth:
  assumes "i < length buf"
  shows "uint32_encode v buf off ! i
      = (if off \<le> i \<and> i < off + 4 then byte_of (i - off) v else buf ! i)"
proof (cases "off \<le> i \<and> i < off + 4")
  case True
  then have "off \<le> i" "i < off + 4" "4 \<le> (4::nat)" by simp_all
  then show ?thesis
    by (cases rule: window_cases) (use assms in \<open>simp_all add: uint_encode_bytes\<close>)
qed (use assms in \<open>auto simp: uint_encode_bytes nth_list_update\<close>)

lemma uint_encode_length [simp, lengths]:
  "length (uint16_encode v buf off) = length buf"
  "length (uint24_encode w buf off) = length buf"
  "length (uint32_encode w buf off) = length buf"
  by (simp_all add: uint_encode_bytes)

interpretation c16: le_codec uint16_encode uint16_decode uint16_encode_size
  by unfold_locales
    (simp_all add: uint16_encode_size_def uint16_encode_nth uint16_decode_bit)

interpretation c24: le_codec uint24_encode uint24_decode uint24_encode_size
  by unfold_locales
    (simp_all add: uint24_encode_size_def uint24_encode_nth uint24_decode_bit)

interpretation c32: le_codec uint32_encode uint32_decode uint32_encode_size
  by unfold_locales
    (simp_all add: uint32_encode_size_def uint32_encode_nth uint32_decode_bit)

subsection \<open>Properties\<close>

text \<open>
  Each codec reads back what it wrote at any offset (of a 24 bit value the low 24
  bits), keeps the length of the buffer and every byte outside its window, and writing back what
  was read changes nothing.
\<close>

theorem codec_roundtrip:
  assumes "off + 4 \<le> length buf"
  shows "uint16_decode (uint16_encode v buf off) off = v
    \<and> uint24_decode (uint24_encode w buf off) off = w AND mask 24
    \<and> uint32_decode (uint32_encode w buf off) off = w
    \<and> uint16_encode (uint16_decode buf off) buf off = buf
    \<and> uint24_encode (uint24_decode buf off) buf off = buf
    \<and> uint32_encode (uint32_decode buf off) buf off = buf
    \<and> (\<forall>i < length buf. (i < off \<or> off + 2 \<le> i \<longrightarrow> uint16_encode v buf off ! i = buf ! i)
        \<and> (i < off \<or> off + 3 \<le> i \<longrightarrow> uint24_encode w buf off ! i = buf ! i)
        \<and> (i < off \<or> off + 4 \<le> i \<longrightarrow> uint32_encode w buf off ! i = buf ! i))"
proof -
  note sizes = uint16_encode_size_def uint24_encode_size_def uint32_encode_size_def
  have "uint16_decode (uint16_encode v buf off) off = v"
    using assms c16.dec_enc [of off buf v] by (simp add: sizes and_mask_full)
  moreover have "uint24_decode (uint24_encode w buf off) off = w AND mask 24"
    using assms c24.dec_enc [of off buf w] by (simp add: sizes)
  moreover have "uint32_decode (uint32_encode w buf off) off = w"
    using assms c32.dec_enc [of off buf w] by (simp add: sizes and_mask_full)
  moreover have "uint16_encode (uint16_decode buf off) buf off = buf"
    "uint24_encode (uint24_decode buf off) buf off = buf"
    "uint32_encode (uint32_decode buf off) buf off = buf"
    using assms by (simp_all add: c16.enc_dec c24.enc_dec c32.enc_dec sizes)
  ultimately show ?thesis
    by (auto simp: uint16_encode_nth uint24_encode_nth uint32_encode_nth)
qed

theorem codec_roundtrip_witness:
  "uint24_decode (uint24_encode 0x123456 [9, 9, 9, 9, 9] 1) 1 = 0x123456 AND mask 24
    \<and> uint24_encode 0x123456 [9, 9, 9, 9, 9] 1 ! 4 = 9"
  using codec_roundtrip [of 1 "[9, 9, 9, 9, 9]" 0 "0x123456"] by simp

end
