(* ===== verification/Tpms_Pages.thy ===== *)
theory Tpms_Pages
  imports Codec
begin

text \<open>
  The TPMS data pages 1 and 16 (\<open>ant_tpms_page_1.c\<close>, \<open>ant_tpms_page_16.c\<close> and their headers) and
  the contract \<open>page_codec\<close> every data page keeps: the encoder writes all seven payload bytes
  whatever the buffer held, and the decoder recovers the page up to the bits that have no place
  on the air. The roles, alarm flags and configuration commands are bytes, as they arrive from the
  air unchecked; the enumerators of the source are constants (the target's ABI stores these
  enumerations in one byte).
\<close>

subsection \<open>Enumerations\<close>

type_synonym ant_tpms_role = u8
type_synonym ant_tpms_alarm = u8

definition ANT_TPMS_ROLE_NONE :: ant_tpms_role where [simp]: "ANT_TPMS_ROLE_NONE = 0x00"
definition ANT_TPMS_ROLE_FRONT :: ant_tpms_role where [simp]: "ANT_TPMS_ROLE_FRONT = 0x01"
definition ANT_TPMS_ROLE_REAR :: ant_tpms_role where [simp]: "ANT_TPMS_ROLE_REAR = 0x02"

definition ANT_TPMS_ALARM_ALL :: ant_tpms_alarm where "ANT_TPMS_ALARM_ALL = 0x00"
definition ANT_TPMS_ALARM_LOW_OK :: ant_tpms_alarm where "ANT_TPMS_ALARM_LOW_OK = 0x01"
definition ANT_TPMS_ALARM_HIGH_OK :: ant_tpms_alarm where "ANT_TPMS_ALARM_HIGH_OK = 0x02"
definition ANT_TPMS_ALARM_NONE :: ant_tpms_alarm where "ANT_TPMS_ALARM_NONE = 0x03"

definition ANT_TPMS_CONFIG_EMPTY_RESET :: u8 where "ANT_TPMS_CONFIG_EMPTY_RESET = 0x0"
definition ANT_TPMS_CONFIG_SET_ROLE :: u8 where "ANT_TPMS_CONFIG_SET_ROLE = 0x1"
definition ANT_TPMS_CONFIG_SET_AMBIENT :: u8 where "ANT_TPMS_CONFIG_SET_AMBIENT = 0x2"
definition ANT_TPMS_CONFIG_SET_ALARM_LOW :: u8 where "ANT_TPMS_CONFIG_SET_ALARM_LOW = 0x4"
definition ANT_TPMS_CONFIG_SET_ALARM_HIGH :: u8 where "ANT_TPMS_CONFIG_SET_ALARM_HIGH = 0x8"

definition ANT_TPMS_AMBIENT_DEFAULT :: u16 where "ANT_TPMS_AMBIENT_DEFAULT = 1013"

lemmas alarm_defs = ANT_TPMS_ALARM_ALL_def ANT_TPMS_ALARM_LOW_OK_def ANT_TPMS_ALARM_HIGH_OK_def
  ANT_TPMS_ALARM_NONE_def
lemmas config_defs = ANT_TPMS_CONFIG_EMPTY_RESET_def ANT_TPMS_CONFIG_SET_ROLE_def
  ANT_TPMS_CONFIG_SET_AMBIENT_def ANT_TPMS_CONFIG_SET_ALARM_LOW_def
  ANT_TPMS_CONFIG_SET_ALARM_HIGH_def

subsection \<open>The contract of a data page\<close>

text \<open>\<open>PAYLOAD_SIZE\<close> is the length of \<open>page_payload\<close> in \<open>ant_tpms_message_layout_t\<close>.\<close>

abbreviation PAYLOAD_SIZE :: nat where "PAYLOAD_SIZE \<equiv> 7"

locale page_codec =
  fixes encode :: "bytes \<Rightarrow> 'd \<Rightarrow> bytes" and decode :: "bytes \<Rightarrow> 'd \<Rightarrow> 'd" and wire :: "'d \<Rightarrow> 'd"
  assumes encode_length: "length buf = PAYLOAD_SIZE \<Longrightarrow> length (encode buf d) = PAYLOAD_SIZE"
    and encode_total: "length buf = PAYLOAD_SIZE \<Longrightarrow> length buf' = PAYLOAD_SIZE
      \<Longrightarrow> encode buf d = encode buf' d"
    and decode_encode: "length buf = PAYLOAD_SIZE \<Longrightarrow> decode (encode buf d) d0 = wire d"
begin

text \<open>Two pages with the same bytes on the air are equal up to the bits without a place there.\<close>

lemma encode_inj:
  assumes "length buf = PAYLOAD_SIZE" "length buf' = PAYLOAD_SIZE" "encode buf d = encode buf' d'"
  shows "wire d = wire d'"
  using assms decode_encode [of buf d d] decode_encode [of buf' d' d] by simp

text \<open>What is received no longer depends on what the receiver held before.\<close>

lemma decode_fresh: "length buf = PAYLOAD_SIZE \<Longrightarrow> decode (encode buf d) d0 = decode (encode buf d) d1"
  by (simp add: decode_encode)

end

subsection \<open>Page 1: role, alarms, pressure\<close>

record ant_tpms_page1_data =
  p1_role :: ant_tpms_role
  p1_alarms :: ant_tpms_alarm
  p1_pressure :: u16

definition DEFAULT_ANT_TPMS_page1 :: ant_tpms_page1_data where
  "DEFAULT_ANT_TPMS_page1 =
     \<lparr>p1_role = ANT_TPMS_ROLE_NONE, p1_alarms = ANT_TPMS_ALARM_NONE, p1_pressure = 0xffff\<rparr>"

text \<open>
  The layout structure overlays the buffer: role at byte 0, alarms at 1, three reserved bytes from
  2, pressure from 5.
\<close>

definition ant_tpms_page_1_encode :: "bytes \<Rightarrow> ant_tpms_page1_data \<Rightarrow> bytes" where
  "ant_tpms_page_1_encode buf d =
     (let b1 = buf[0 := p1_role d];
          b2 = b1[1 := p1_alarms d];
          b3 = b2[2 := 0xFF, 3 := 0xFF, 4 := 0xFF]
      in uint16_encode (p1_pressure d) b3 5)"

definition ant_tpms_page_1_decode :: "bytes \<Rightarrow> ant_tpms_page1_data \<Rightarrow> ant_tpms_page1_data" where
  "ant_tpms_page_1_decode buf d =
     d\<lparr>p1_role := buf ! 0, p1_alarms := buf ! 1, p1_pressure := uint16_decode buf 5\<rparr>"

lemma page_1_encode_bytes:
  "length buf = PAYLOAD_SIZE \<Longrightarrow> ant_tpms_page_1_encode buf d =
     [p1_role d, p1_alarms d, 0xFF, 0xFF, 0xFF, byte_of 0 (p1_pressure d), byte_of 1 (p1_pressure d)]"
  by (elim list7_cases) (simp add: ant_tpms_page_1_encode_def uint_encode_bytes eval_nat_numeral)

lemma uint16_bytes: "b ! i = byte_of 0 v \<Longrightarrow> b ! (i + 1) = byte_of 1 v \<Longrightarrow> uint16_decode b i = v"
  using c16.dec_enc [of 0 "[0, 0]" v]
  by (simp add: uint16_encode_size_def uint_encode_bytes uint16_decode_def and_mask_full)

interpretation page1: page_codec ant_tpms_page_1_encode ant_tpms_page_1_decode "\<lambda>d. d"
  by unfold_locales
    (simp_all add: page_1_encode_bytes ant_tpms_page_1_decode_def uint16_bytes)

subsection \<open>Page 16: configuration\<close>

record ant_tpms_page16_data =
  p16_command :: u8
  p16_role :: ant_tpms_role
  p16_ambient_pressure :: u16
  p16_alarm_low_pressure :: u16
  p16_alarm_high_pressure :: u16

definition DEFAULT_ANT_TPMS_page16 :: ant_tpms_page16_data where
  "DEFAULT_ANT_TPMS_page16 =
     \<lparr>p16_command = ANT_TPMS_CONFIG_EMPTY_RESET, p16_role = ANT_TPMS_ROLE_NONE,
      p16_ambient_pressure = ANT_TPMS_AMBIENT_DEFAULT,
      p16_alarm_low_pressure = 0xffff, p16_alarm_high_pressure = 0xffff\<rparr>"

text \<open>
  Byte 0 holds two bit fields: \<open>role\<close> in the low nibble, \<open>command\<close> in the high one. An assignment
  to a bit field keeps the low four bits of the value and leaves the other field alone.
\<close>

definition set_command_field :: "u8 \<Rightarrow> u8 \<Rightarrow> u8" where
  "set_command_field b v = (b AND 0x0F) OR push_bit 4 (v AND 0x0F)"

definition set_role_field :: "u8 \<Rightarrow> u8 \<Rightarrow> u8" where
  "set_role_field b v = (b AND 0xF0) OR (v AND 0x0F)"

definition get_command_field :: "u8 \<Rightarrow> u8" where "get_command_field b = drop_bit 4 b"
definition get_role_field :: "u8 \<Rightarrow> u8" where "get_role_field b = b AND 0x0F"

definition ant_tpms_page_16_encode :: "bytes \<Rightarrow> ant_tpms_page16_data \<Rightarrow> bytes" where
  "ant_tpms_page_16_encode buf d =
     (let b1 = buf[0 := set_command_field (buf ! 0) (p16_command d)];
          b2 = b1[0 := set_role_field (b1 ! 0) (p16_role d)];
          b3 = uint16_encode (p16_ambient_pressure d) b2 1;
          b4 = uint16_encode (p16_alarm_low_pressure d) b3 3
      in uint16_encode (p16_alarm_high_pressure d) b4 5)"

definition ant_tpms_page_16_decode :: "bytes \<Rightarrow> ant_tpms_page16_data \<Rightarrow> ant_tpms_page16_data" where
  "ant_tpms_page_16_decode buf d =
     d\<lparr>p16_command := get_command_field (buf ! 0), p16_role := get_role_field (buf ! 0),
       p16_ambient_pressure := uint16_decode buf 1,
       p16_alarm_low_pressure := uint16_decode buf 3,
       p16_alarm_high_pressure := uint16_decode buf 5\<rparr>"

definition command_role_byte :: "u8 \<Rightarrow> u8 \<Rightarrow> u8" where
  "command_role_byte c r = push_bit 4 (c AND 0x0F) OR (r AND 0x0F)"

lemma page_16_fields:
  "set_role_field (set_command_field b c) r = command_role_byte c r"
  "get_command_field (command_role_byte c r) = c AND 0x0F"
  "get_role_field (command_role_byte c r) = r AND 0x0F"
  by (rule bit_word_eqI; auto simp: set_role_field_def set_command_field_def get_command_field_def
      get_role_field_def command_role_byte_def masks bit_simps)+

lemma page_16_encode_bytes:
  "length buf = PAYLOAD_SIZE \<Longrightarrow> ant_tpms_page_16_encode buf d =
     [command_role_byte (p16_command d) (p16_role d),
      byte_of 0 (p16_ambient_pressure d), byte_of 1 (p16_ambient_pressure d),
      byte_of 0 (p16_alarm_low_pressure d), byte_of 1 (p16_alarm_low_pressure d),
      byte_of 0 (p16_alarm_high_pressure d), byte_of 1 (p16_alarm_high_pressure d)]"
  by (elim list7_cases)
    (simp add: ant_tpms_page_16_encode_def uint_encode_bytes page_16_fields eval_nat_numeral)

text \<open>What page 16 can carry: a four bit command and a four bit role.\<close>

definition page16_wire :: "ant_tpms_page16_data \<Rightarrow> ant_tpms_page16_data" where
  "page16_wire d = d\<lparr>p16_command := p16_command d AND 0x0F, p16_role := p16_role d AND 0x0F\<rparr>"

interpretation page16: page_codec ant_tpms_page_16_encode ant_tpms_page_16_decode page16_wire
  by unfold_locales
    (simp_all add: page_16_encode_bytes ant_tpms_page_16_decode_def page16_wire_def
      uint16_bytes page_16_fields)

subsection \<open>Properties\<close>

text \<open>
  Data page 1 is self-contained and lossless: its seven bytes do not depend on what
  the buffer held, the three reserved ones are \<open>0xFF\<close>, and decoding them gives back role, alarms and
  pressure whatever the receiver's structure held.
\<close>

theorem page_1_roundtrip:
  assumes "length buf = PAYLOAD_SIZE" "length buf' = PAYLOAD_SIZE"
  shows "ant_tpms_page_1_encode buf d = ant_tpms_page_1_encode buf' d
    \<and> ant_tpms_page_1_decode (ant_tpms_page_1_encode buf d) d0 = d
    \<and> (\<forall>i \<in> {2, 3, 4}. ant_tpms_page_1_encode buf d ! i = 0xFF)"
proof (intro conjI)
  show "ant_tpms_page_1_encode buf d = ant_tpms_page_1_encode buf' d"
    by (rule page1.encode_total [OF assms])
  show "ant_tpms_page_1_decode (ant_tpms_page_1_encode buf d) d0 = d"
    by (rule page1.decode_encode [OF assms(1)])
qed (use assms(1) in \<open>auto simp: page_1_encode_bytes\<close>)

theorem page_1_roundtrip_witness:
  "ant_tpms_page_1_decode (ant_tpms_page_1_encode [0, 0, 0, 0, 0, 0, 0]
      \<lparr>p1_role = 2, p1_alarms = 3, p1_pressure = 2300\<rparr>) DEFAULT_ANT_TPMS_page1
    = \<lparr>p1_role = 2, p1_alarms = 3, p1_pressure = 2300\<rparr>"
  by (rule page_1_roundtrip [of _ "[1, 0, 0, 0, 0, 0, 0]", THEN conjunct2, THEN conjunct1]) simp_all

text \<open>
  Data page 16 does not depend on the buffer, and command and role share the first
  byte without disturbing each other: decoding gives back the low nibbles of both and the three
  pressures.
\<close>

theorem page_16_roundtrip:
  assumes "length buf = PAYLOAD_SIZE" "length buf' = PAYLOAD_SIZE"
  shows "ant_tpms_page_16_encode buf d = ant_tpms_page_16_encode buf' d
    \<and> ant_tpms_page_16_decode (ant_tpms_page_16_encode buf d) d0
        = d\<lparr>p16_command := p16_command d AND 0x0F, p16_role := p16_role d AND 0x0F\<rparr>"
  using page16.encode_total [OF assms] page16.decode_encode [OF assms(1)] by (simp add: page16_wire_def)

theorem page_16_roundtrip_witness:
  "ant_tpms_page_16_decode (ant_tpms_page_16_encode [7, 0, 0, 0, 0, 0, 0] DEFAULT_ANT_TPMS_page16)
      DEFAULT_ANT_TPMS_page16 = DEFAULT_ANT_TPMS_page16"
  by (rule trans, rule page_16_roundtrip [of _ "[0, 0, 0, 0, 0, 0, 0]", THEN conjunct2])
    (simp_all add: DEFAULT_ANT_TPMS_page16_def ANT_TPMS_CONFIG_EMPTY_RESET_def)

end
