(* ===== verification/Common_Page_82.thy ===== *)
theory Common_Page_82
  imports Tpms_Pages
begin

text \<open>
  ANT+ common page 82, battery status (\<open>ant_common_page_82.c\<close> and its header): the battery state
  enumeration with its codes, the page data, the encoder and the decoder. The encoder is lossy: the
  operating time keeps a resolution of two seconds and 25 bits, the voltage a fraction of 1/256 V
  and four bits of whole volts. \<open>page82_wire\<close> says exactly what survives.
\<close>

subsection \<open>The battery state\<close>

datatype ANT_COMMON_page82_BATTERY_STATE =
  BATTERY_STATE_RESERVED_0 | BATTERY_STATE_NEW | BATTERY_STATE_GOOD | BATTERY_STATE_OK
| BATTERY_STATE_LOW | BATTERY_STATE_CRITICAL | BATTERY_STATE_RESERVED_6 | BATTERY_STATE_INVALID

type_synonym battery_state = ANT_COMMON_page82_BATTERY_STATE

fun battery_state_code :: "battery_state \<Rightarrow> u8" where
  "battery_state_code BATTERY_STATE_RESERVED_0 = 0"
| "battery_state_code BATTERY_STATE_NEW = 1"
| "battery_state_code BATTERY_STATE_GOOD = 2"
| "battery_state_code BATTERY_STATE_OK = 3"
| "battery_state_code BATTERY_STATE_LOW = 4"
| "battery_state_code BATTERY_STATE_CRITICAL = 5"
| "battery_state_code BATTERY_STATE_RESERVED_6 = 6"
| "battery_state_code BATTERY_STATE_INVALID = 7"

text \<open>The enumerator of a code; the source converts only values masked to three bits.\<close>

definition battery_state_of_code :: "u8 \<Rightarrow> battery_state" where
  "battery_state_of_code c =
     (if c = 0 then BATTERY_STATE_RESERVED_0 else if c = 1 then BATTERY_STATE_NEW
      else if c = 2 then BATTERY_STATE_GOOD else if c = 3 then BATTERY_STATE_OK
      else if c = 4 then BATTERY_STATE_LOW else if c = 5 then BATTERY_STATE_CRITICAL
      else if c = 6 then BATTERY_STATE_RESERVED_6 else BATTERY_STATE_INVALID)"

lemma battery_state_of_code [simp]: "battery_state_of_code (battery_state_code s) = s"
  by (cases s) (simp_all add: battery_state_of_code_def)

lemma battery_state_code_inj: "battery_state_code s = battery_state_code t \<longleftrightarrow> s = t"
  by (metis battery_state_of_code)

lemma battery_state_code_lt: "unat (battery_state_code s) < 8"
  by (cases s) simp_all

text \<open>The enumeration is ordered by its codes: among the regular states, worse is greater.\<close>

instantiation ANT_COMMON_page82_BATTERY_STATE :: linorder
begin

definition less_eq_ANT_COMMON_page82_BATTERY_STATE :: "battery_state \<Rightarrow> battery_state \<Rightarrow> bool" where
  "s \<le> t \<longleftrightarrow> battery_state_code s \<le> battery_state_code t"

definition less_ANT_COMMON_page82_BATTERY_STATE :: "battery_state \<Rightarrow> battery_state \<Rightarrow> bool" where
  "s < t \<longleftrightarrow> battery_state_code s < battery_state_code t"

instance
  by standard (auto simp: less_eq_ANT_COMMON_page82_BATTERY_STATE_def
      less_ANT_COMMON_page82_BATTERY_STATE_def word_le_less_eq battery_state_code_inj)

end

lemmas battery_state_order = less_eq_ANT_COMMON_page82_BATTERY_STATE_def
  less_ANT_COMMON_page82_BATTERY_STATE_def

definition ant_common_page_82_battery_status_strings :: "string list" where
  "ant_common_page_82_battery_status_strings =
     [''RESERVED_0'', ''NEW'', ''GOOD'', ''OK'', ''LOW'', ''CRITICAL'', ''RESERVED_6'', ''INVALID'']"

definition get_ant_common_page_82_battery_status_string :: "battery_state \<Rightarrow> string" where
  "get_ant_common_page_82_battery_status_string state =
     ant_common_page_82_battery_status_strings ! unat (battery_state_code state)"

subsection \<open>The page\<close>

record ant_common_page82_data =
  battery_count :: u8
  battery_id :: u8
  operating_time :: u32
  battery_voltage_mv :: u16
  battery_status :: battery_state

definition DEFAULT_ANT_COMMON_page82 :: ant_common_page82_data where
  "DEFAULT_ANT_COMMON_page82 =
     \<lparr>battery_count = 0xF, battery_id = 0xF, operating_time = 0, battery_voltage_mv = 0,
      battery_status = BATTERY_STATE_INVALID\<rparr>"

definition fractional_voltage_of :: "ant_common_page82_data \<Rightarrow> u8" where
  "fractional_voltage_of d =
     (if battery_status d \<noteq> BATTERY_STATE_INVALID
      then ucast ((ucast (battery_voltage_mv d mod 1000) :: u32) * 256 div 1000) else 0xFF)"

definition coarse_voltage_of :: "ant_common_page82_data \<Rightarrow> u8" where
  "coarse_voltage_of d =
     (if battery_status d \<noteq> BATTERY_STATE_INVALID then ucast (battery_voltage_mv d div 1000) else 0xF)"

definition battery_identifier_byte :: "u8 \<Rightarrow> u8 \<Rightarrow> u8" where
  "battery_identifier_byte count ident = (count AND 0xF) OR push_bit 4 (ident AND 0xF)"

definition descriptive_field_byte :: "u8 \<Rightarrow> u8 \<Rightarrow> u8" where
  "descriptive_field_byte coarse status =
     (coarse AND 0xF) OR push_bit 4 (status AND 0x7) OR push_bit 7 0x1"

definition ant_common_page_82_encode :: "bytes \<Rightarrow> ant_common_page82_data \<Rightarrow> bytes" where
  "ant_common_page_82_encode buf d =
     (let b1 = buf[0 := 0xFF];
          b2 = b1[1 := battery_identifier_byte (battery_count d) (battery_id d)];
          b3 = uint24_encode (operating_time d div 2) b2 2;
          b4 = b3[5 := fractional_voltage_of d]
      in b4[6 := descriptive_field_byte (coarse_voltage_of d) (battery_state_code (battery_status d))])"

definition ant_common_page_82_decode :: "bytes \<Rightarrow> ant_common_page82_data \<Rightarrow> ant_common_page82_data" where
  "ant_common_page_82_decode buf d =
     d\<lparr>battery_count := (buf ! 1) AND 0xF,
       battery_id := drop_bit 4 (buf ! 1) AND 0xF,
       operating_time := uint24_decode buf 2
         * (if drop_bit 7 (buf ! 6) AND 0x1 = 0x1 then 2 else 16),
       battery_voltage_mv := ucast ((buf ! 6) AND 0xF) * 1000
         + ucast ((ucast (buf ! 5) :: u32) * 1000 div 256),
       battery_status := battery_state_of_code (drop_bit 4 (buf ! 6) AND 0x7)\<rparr>"

subsection \<open>What survives the air\<close>

definition page82_wire :: "ant_common_page82_data \<Rightarrow> ant_common_page82_data" where
  "page82_wire d = d
     \<lparr>battery_count := battery_count d AND 0xF,
      battery_id := battery_id d AND 0xF,
      operating_time := ((operating_time d div 2) AND mask 24) * 2,
      battery_voltage_mv := ucast (coarse_voltage_of d AND 0xF) * 1000
        + ucast ((ucast (fractional_voltage_of d) :: u32) * 1000 div 256)\<rparr>"

lemma identifier_fields:
  "battery_identifier_byte c i AND 0xF = c AND 0xF"
  "drop_bit 4 (battery_identifier_byte c i) AND 0xF = i AND 0xF"
  by (rule bit_word_eqI; auto simp: battery_identifier_byte_def masks bit_simps)+

lemma bit_descriptive_field_byte:
  "bit (descriptive_field_byte c s) n \<longleftrightarrow>
     n < 4 \<and> bit c n \<or> 4 \<le> n \<and> n < 7 \<and> bit s (n - 4) \<or> n = 7"
  unfolding descriptive_field_byte_def masks by (auto simp only: bit_simps) auto

lemma descriptive_fields:
  "descriptive_field_byte c s AND 0xF = c AND 0xF"
  "drop_bit 4 (descriptive_field_byte c s) AND 0x7 = s AND 0x7"
  "drop_bit 7 (descriptive_field_byte c s) AND 0x1 = 0x1"
  by (rule bit_word_eqI; auto simp: bit_descriptive_field_byte masks bit_simps)+

lemma status_code_mask [simp]: "battery_state_of_code (battery_state_code s AND 0x7) = s"
  by (cases s) (simp_all add: battery_state_of_code_def)

lemma page_82_encode_bytes:
  "length buf = PAYLOAD_SIZE \<Longrightarrow> ant_common_page_82_encode buf d =
     [0xFF, battery_identifier_byte (battery_count d) (battery_id d),
      byte_of 0 (operating_time d div 2), byte_of 1 (operating_time d div 2),
      byte_of 2 (operating_time d div 2), fractional_voltage_of d,
      descriptive_field_byte (coarse_voltage_of d) (battery_state_code (battery_status d))]"
  by (elim list7_cases) (simp add: ant_common_page_82_encode_def uint_encode_bytes eval_nat_numeral)

lemma uint24_bytes:
  "b ! i = byte_of 0 v \<Longrightarrow> b ! (i + 1) = byte_of 1 v \<Longrightarrow> b ! (i + 2) = byte_of 2 v
    \<Longrightarrow> uint24_decode b i = v AND mask 24"
  using c24.dec_enc [of 0 "[0, 0, 0]" v]
  by (simp add: uint24_encode_size_def uint_encode_bytes uint24_decode_def)

interpretation page82: page_codec ant_common_page_82_encode ant_common_page_82_decode page82_wire
  by unfold_locales
    (simp_all add: page_82_encode_bytes ant_common_page_82_decode_def page82_wire_def
      uint24_bytes identifier_fields descriptive_fields)

subsection \<open>Quantisation\<close>

lemma unat_u16_lt: "unat (x :: u16) < 65536"
  using unsigned_less [of x] by simp

lemma fraction_range: "r * 256 div 1000 < 256" if "r < 1000" for r :: nat
proof -
  have "r * 256 < 256 * 1000" using that by simp
  then show ?thesis by (rule less_mult_imp_div_less)
qed

lemma unat_fractional_voltage:
  "battery_status d \<noteq> BATTERY_STATE_INVALID \<Longrightarrow>
     unat (fractional_voltage_of d) = unat (battery_voltage_mv d) mod 1000 * 256 div 1000"
  using fraction_range [of "unat (battery_voltage_mv d) mod 1000"]
  by (simp add: fractional_voltage_of_def unat_arith_simps)

lemma unat_coarse_voltage:
  "battery_status d \<noteq> BATTERY_STATE_INVALID \<Longrightarrow>
     unat (coarse_voltage_of d) = unat (battery_voltage_mv d) div 1000"
  using unat_u16_lt [of "battery_voltage_mv d"]
  by (simp add: coarse_voltage_of_def unat_arith_simps)

text \<open>The voltage the receiver computes, in millivolts.\<close>

lemma unat_wire_voltage:
  "unat (battery_voltage_mv (page82_wire d)) =
     unat (coarse_voltage_of d) mod 16 * 1000 + unat (fractional_voltage_of d) * 1000 div 256"
proof -
  have f: "unat (fractional_voltage_of d) < 256"
    using unsigned_less [of "fractional_voltage_of d"] by simp
  then have "unat (fractional_voltage_of d) * 1000 div 256 < 1000" by simp
  moreover have "unat (coarse_voltage_of d) mod 16 * 1000 \<le> 15 * 1000" by simp
  ultimately show ?thesis
    using f by (simp add: page82_wire_def unat_arith_simps unat_low_nibble)
qed

lemma quantisation_error:
  "r * 256 div 1000 * 1000 div 256 \<le> r \<and> r \<le> r * 256 div 1000 * 1000 div 256 + 4"
  for r :: nat
proof -
  define q where "q = r * 256 div 1000"
  define s where "s = q * 1000 div 256"
  have "q * 1000 \<le> r * 256" "r * 256 < q * 1000 + 1000"
    unfolding q_def by linarith+
  moreover have "s * 256 \<le> q * 1000" "q * 1000 < s * 256 + 256"
    unfolding s_def by linarith+
  ultimately have "s \<le> r \<and> r \<le> s + 4" by linarith
  then show ?thesis by (simp add: s_def q_def)
qed

lemma wire_voltage_error:
  assumes "battery_status d \<noteq> BATTERY_STATE_INVALID" and "unat (battery_voltage_mv d) < 16000"
  shows "unat (battery_voltage_mv (page82_wire d)) \<le> unat (battery_voltage_mv d)"
    and "unat (battery_voltage_mv d) \<le> unat (battery_voltage_mv (page82_wire d)) + 4"
proof -
  define v where "v = unat (battery_voltage_mv d)"
  have "v div 1000 < 16" using assms(2) by (simp add: v_def)
  then have "unat (battery_voltage_mv (page82_wire d))
      = v div 1000 * 1000 + v mod 1000 * 256 div 1000 * 1000 div 256"
    using assms(1) by (simp add: unat_wire_voltage unat_fractional_voltage unat_coarse_voltage v_def)
  moreover have "v = v div 1000 * 1000 + v mod 1000" by simp
  ultimately show "unat (battery_voltage_mv (page82_wire d)) \<le> unat (battery_voltage_mv d)"
    and "unat (battery_voltage_mv d) \<le> unat (battery_voltage_mv (page82_wire d)) + 4"
    using quantisation_error [of "v mod 1000"] unfolding v_def [symmetric] by linarith+
qed

lemma wire_operating_time:
  "unat (operating_time (page82_wire d)) = unat (operating_time d) div 2 mod 2 ^ 24 * 2"
proof -
  have "unat (operating_time d) div 2 mod 2 ^ 24 * 2 < 2 ^ 32"
    using mod_less_divisor [of "2 ^ 24" "unat (operating_time d) div 2"] by simp
  then show ?thesis
    by (simp add: page82_wire_def unat_arith_simps unat_and_mask)
qed

subsection \<open>Properties\<close>

text \<open>
  What a receiver decodes from page 82. The state and both four bit identifiers come
  back; a voltage below 16 V comes back rounded down by at most 4 mV; the operating time comes back
  rounded down to two seconds as long as it is below \<open>2 ^ 25\<close> seconds, about 388 days.
\<close>

theorem page_82_accuracy:
  assumes "length buf = PAYLOAD_SIZE" "battery_status d \<noteq> BATTERY_STATE_INVALID"
    and "unat (battery_voltage_mv d) < 16000" "unat (operating_time d) < 2 ^ 25"
    and "ant_common_page_82_decode (ant_common_page_82_encode buf d) d0 = r"
  shows "battery_status r = battery_status d
    \<and> battery_count r = battery_count d AND 0xF \<and> battery_id r = battery_id d AND 0xF
    \<and> unat (battery_voltage_mv r) \<le> unat (battery_voltage_mv d)
    \<and> unat (battery_voltage_mv d) \<le> unat (battery_voltage_mv r) + 4
    \<and> unat (operating_time r) = unat (operating_time d) - unat (operating_time d) mod 2"
proof -
  have r: "r = page82_wire d" using page82.decode_encode [OF assms(1)] assms(5) by simp
  have "unat (operating_time d) div 2 < 2 ^ 24" using assms(4) by simp
  then have "unat (operating_time r) = unat (operating_time d) - unat (operating_time d) mod 2"
    unfolding r wire_operating_time by (simp add: minus_mod_eq_div_mult)
  then show ?thesis
    using wire_voltage_error [OF assms(2,3)] unfolding r by (simp add: page82_wire_def)
qed

text \<open>
  An unknown battery is transmitted as such: with the state invalid, the voltage
  bytes are the reserved patterns whatever voltage the page holds, and the receiver sees the state
  invalid.
\<close>

theorem page_82_invalid:
  assumes "length buf = PAYLOAD_SIZE" "battery_status d = BATTERY_STATE_INVALID"
  shows "ant_common_page_82_encode buf d ! 5 = 0xFF
    \<and> ant_common_page_82_encode buf d ! 6 AND 0xF = 0xF
    \<and> battery_status (ant_common_page_82_decode (ant_common_page_82_encode buf d) d0)
        = BATTERY_STATE_INVALID"
  using assms page82.decode_encode [OF assms(1), of d d0]
  by (simp add: page_82_encode_bytes fractional_voltage_of_def coarse_voltage_of_def
      descriptive_fields page82_wire_def)

definition some_battery :: ant_common_page82_data where
  "some_battery = \<lparr>battery_count = 0xF, battery_id = 0xF, operating_time = 12345,
     battery_voltage_mv = 2999, battery_status = BATTERY_STATE_NEW\<rparr>"

theorem page_82_accuracy_witness:
  "unat (battery_voltage_mv (ant_common_page_82_decode
       (ant_common_page_82_encode [0, 0, 0, 0, 0, 0, 0] some_battery) DEFAULT_ANT_COMMON_page82)) \<ge> 2995
    \<and> unat (operating_time (ant_common_page_82_decode
       (ant_common_page_82_encode [0, 0, 0, 0, 0, 0, 0] some_battery) DEFAULT_ANT_COMMON_page82)) = 12344"
  using page_82_accuracy [of "[0, 0, 0, 0, 0, 0, 0]" some_battery, OF _ _ _ _ refl]
  by (simp add: some_battery_def)

theorem page_82_invalid_witness:
  "ant_common_page_82_encode [0, 0, 0, 0, 0, 0, 0] DEFAULT_ANT_COMMON_page82 ! 5 = 0xFF"
  using page_82_invalid [of "[0, 0, 0, 0, 0, 0, 0]" DEFAULT_ANT_COMMON_page82]
  by (simp add: DEFAULT_ANT_COMMON_page82_def)

end
