(* ===== verification/Ant_Tpms.thy ===== *)
theory Ant_Tpms
  imports Retained Common_Page_82
begin

text \<open>
  The ANT+ TPMS profile, sensor and display side (\<open>ant_tpms.c\<close>, \<open>ant_tpms.h\<close>,
  \<open>ant_tpms_local.h\<close>). The ANT SDK is a parameter \<open>ant_sdk\<close>: its request controller (state \<open>'rc\<close>)
  and its common pages 80 and 81 (\<open>'p80\<close>, \<open>'p81\<close>). Function pointers are names, and the code they
  point to is a parameter \<open>handlers\<close>. An operation that contains the polling loop of the request
  controller has an option result, \<open>None\<close> when the loop does not end.
\<close>

subsection \<open>The ANT SDK\<close>

datatype ant_event = EVENT_TX | EVENT_RX | EVENT_OTHER u8

datatype mesg_id = MESG_ACKNOWLEDGED_DATA_ID | MESG_BROADCAST_DATA_ID | MESG_BURST_DATA_ID
  | MESG_OTHER_ID u8

record ant_evt =
  ae_channel :: u8
  ae_event :: ant_event
  ae_mesg_id :: mesg_id
  ae_payload :: bytes

record ('rc, 'p80, 'p81) ant_sdk =
  ant_request_controller_init :: "'rc \<Rightarrow> 'rc"
  ant_request_controller_pending_get :: "'rc \<Rightarrow> u8 option \<times> 'rc"
  rc_clear_transmit_count :: "'rc \<Rightarrow> 'rc"
  rc_set_idle :: "'rc \<Rightarrow> 'rc"
  ant_request_controller_ack_needed :: "'rc \<Rightarrow> bool \<times> 'rc"
  ant_request_controller_sens_evt_handler :: "ant_evt \<Rightarrow> 'rc \<Rightarrow> 'rc"
  ant_request_controller_disp_evt_handler :: "ant_evt \<Rightarrow> 'rc \<Rightarrow> 'rc"
  ant_request_controller_request :: "u8 \<Rightarrow> u8 \<Rightarrow> 'rc \<Rightarrow> int \<times> 'rc"
  DEFAULT_ANT_COMMON_page80 :: 'p80
  DEFAULT_ANT_COMMON_page81 :: 'p81
  ant_common_page_80_encode :: "bytes \<Rightarrow> 'p80 \<Rightarrow> bytes"
  ant_common_page_81_encode :: "bytes \<Rightarrow> 'p81 \<Rightarrow> bytes"
  ant_common_page_80_decode :: "bytes \<Rightarrow> 'p80 \<Rightarrow> 'p80"
  ant_common_page_81_decode :: "bytes \<Rightarrow> 'p81 \<Rightarrow> 'p81"
  page81_set_sw_revision_minor :: "int \<Rightarrow> 'p81 \<Rightarrow> 'p81"
  page81_set_sw_revision_major :: "int \<Rightarrow> 'p81 \<Rightarrow> 'p81"
  page81_set_serial_number :: "int \<Rightarrow> 'p81 \<Rightarrow> 'p81"

definition NRF_ANT_SUCCESS :: int where "NRF_ANT_SUCCESS = 0"

subsection \<open>Page numbers and intervals\<close>

definition ANT_TPMS_PAGE_1 :: u8 where [simp]: "ANT_TPMS_PAGE_1 = 1"
definition ANT_TPMS_PAGE_16 :: u8 where [simp]: "ANT_TPMS_PAGE_16 = 16"
definition ANT_TPMS_PAGE_80 :: u8 where [simp]: "ANT_TPMS_PAGE_80 = 80"
definition ANT_TPMS_PAGE_81 :: u8 where [simp]: "ANT_TPMS_PAGE_81 = 81"
definition ANT_TPMS_PAGE_82 :: u8 where [simp]: "ANT_TPMS_PAGE_82 = 82"

definition COMMON_PAGE_80_INTERVAL :: int where [simp]: "COMMON_PAGE_80_INTERVAL = 119"
definition COMMON_PAGE_81_INTERVAL :: int where [simp]: "COMMON_PAGE_81_INTERVAL = 120"
definition COMMON_PAGE_82_INTERVAL :: int where [simp]: "COMMON_PAGE_82_INTERVAL = 121"

definition ANT_STANDARD_DATA_PAYLOAD_SIZE :: nat where [simp]: "ANT_STANDARD_DATA_PAYLOAD_SIZE = 8"

subsection \<open>State\<close>

datatype fun_ptr = NULL | Fun string

datatype cb_ptr = No_cb | P_disp_cb | P_sens_cb

record ant_tpms_sens_cb =
  config_handler :: fun_ptr
  message_counter :: u8

record ant_tpms_sens_config =
  sens_config_handler :: fun_ptr
  sens_evt_handler :: fun_ptr

record ant_tpms_disp_config =
  disp_evt_handler :: fun_ptr

record ('p80, 'p81) ant_tpms_profile =
  channel_number :: u8
  cb :: cb_ptr
  evt_handler :: fun_ptr
  page_1 :: ant_tpms_page1_data
  page_16 :: ant_tpms_page16_data
  page_80 :: 'p80
  page_81 :: 'p81
  page_82 :: ant_common_page82_data

text \<open>The profile instance, the control block it points to and the global request controller.\<close>

record ('rc, 'p80, 'p81) tpms_world = retained_world +
  tpms :: "('p80, 'p81) ant_tpms_profile"
  sens_cb :: ant_tpms_sens_cb
  request_controller :: 'rc

record 'w handlers =
  call_evt_handler :: "fun_ptr \<Rightarrow> u8 \<Rightarrow> 'w \<Rightarrow> 'w"
  call_config_handler :: "fun_ptr \<Rightarrow> ant_tpms_page16_data \<Rightarrow> 'w \<Rightarrow> 'w"

subsection \<open>Initialisation\<close>

definition ant_tpms_init ::
  "('rc, 'p80, 'p81) ant_sdk \<Rightarrow> env \<Rightarrow> ant_channel_config
    \<Rightarrow> ('rc, 'p80, 'p81, 'z) tpms_world_scheme \<Rightarrow> int \<times> ('rc, 'p80, 'p81, 'z) tpms_world_scheme" where
  "ant_tpms_init sdk e cfg w =
     (let p = (tpms w)
            \<lparr>channel_number := cfg_channel_number cfg,
             page_1 := DEFAULT_ANT_TPMS_page1,
             page_16 := DEFAULT_ANT_TPMS_page16,
             page_80 := DEFAULT_ANT_COMMON_page80 sdk,
             page_81 := DEFAULT_ANT_COMMON_page81 sdk,
             page_82 := DEFAULT_ANT_COMMON_page82\<rparr>
      in invoke e (Ant_channel_init cfg)
           (w\<lparr>tpms := p,
              request_controller := ant_request_controller_init sdk (request_controller w)\<rparr>))"

definition ant_tpms_disp_init ::
  "('rc, 'p80, 'p81) ant_sdk \<Rightarrow> env \<Rightarrow> ant_channel_config \<Rightarrow> ant_tpms_disp_config
    \<Rightarrow> ('rc, 'p80, 'p81, 'z) tpms_world_scheme \<Rightarrow> int \<times> ('rc, 'p80, 'p81, 'z) tpms_world_scheme" where
  "ant_tpms_disp_init sdk e cfg disp w =
     ant_tpms_init sdk e cfg
       (w\<lparr>tpms := (tpms w)\<lparr>evt_handler := disp_evt_handler disp, cb := P_disp_cb\<rparr>\<rparr>)"

definition ant_tpms_sens_init ::
  "('rc, 'p80, 'p81) ant_sdk \<Rightarrow> env \<Rightarrow> ant_channel_config \<Rightarrow> ant_tpms_sens_config
    \<Rightarrow> ('rc, 'p80, 'p81, 'z) tpms_world_scheme \<Rightarrow> int \<times> ('rc, 'p80, 'p81, 'z) tpms_world_scheme" where
  "ant_tpms_sens_init sdk e cfg sens w =
     ant_tpms_init sdk e cfg
       (w\<lparr>tpms := (tpms w)\<lparr>evt_handler := sens_evt_handler sens, cb := P_sens_cb\<rparr>,
          sens_cb := (sens_cb w)\<lparr>config_handler := sens_config_handler sens, message_counter := 0\<rparr>\<rparr>)"

subsection \<open>Choosing the next page\<close>

definition known_page :: "u8 \<Rightarrow> bool" where
  "known_page p \<longleftrightarrow> p = ANT_TPMS_PAGE_1 \<or> p = ANT_TPMS_PAGE_16 \<or> p = ANT_TPMS_PAGE_80
     \<or> p = ANT_TPMS_PAGE_81 \<or> p = ANT_TPMS_PAGE_82"

text \<open>The loop over pending requests: requests for unknown pages reset the controller.\<close>

partial_function (option) pending_page ::
  "('rc, 'p80, 'p81) ant_sdk \<Rightarrow> 'rc \<Rightarrow> (u8 option \<times> 'rc) option" where
  "pending_page sdk rc =
     (case ant_request_controller_pending_get sdk rc of
        (None, rc') \<Rightarrow> Some (None, rc')
      | (Some page, rc') \<Rightarrow>
          if known_page page then Some (Some page, rc')
          else pending_page sdk (rc_set_idle sdk (rc_clear_transmit_count sdk rc')))"

text \<open>The page of the regular schedule, by the value of \<open>message_counter - 1\<close> (an \<open>int\<close>).\<close>

definition scheduled_page :: "int \<Rightarrow> u8" where
  "scheduled_page n =
     (if n = COMMON_PAGE_80_INTERVAL then ANT_TPMS_PAGE_80
      else if n = COMMON_PAGE_81_INTERVAL then ANT_TPMS_PAGE_81
      else if n = COMMON_PAGE_82_INTERVAL then ANT_TPMS_PAGE_82
      else ANT_TPMS_PAGE_1)"

definition next_page_number_get ::
  "('rc, 'p80, 'p81) ant_sdk \<Rightarrow> ('rc, 'p80, 'p81, 'z) tpms_world_scheme
    \<Rightarrow> (u8 \<times> ('rc, 'p80, 'p81, 'z) tpms_world_scheme) option" where
  "next_page_number_get sdk w =
     (let counted = (sens_cb w)\<lparr>message_counter := message_counter (sens_cb w) + 1\<rparr>
      in case pending_page sdk (request_controller w) of
           None \<Rightarrow> None
         | Some (Some page, rc) \<Rightarrow> Some (page, w\<lparr>sens_cb := counted, request_controller := rc\<rparr>)
         | Some (None, rc) \<Rightarrow>
             let n = uint (message_counter counted) - 1;
                 cb' = (if n = COMMON_PAGE_82_INTERVAL then counted\<lparr>message_counter := 0\<rparr> else counted)
             in Some (scheduled_page n, w\<lparr>sens_cb := cb', request_controller := rc\<rparr>))"

subsection \<open>Encoding and decoding messages\<close>

text \<open>The switch over the page number; \<open>None\<close> is its default branch.\<close>

definition encode_page ::
  "('rc, 'p80, 'p81) ant_sdk \<Rightarrow> ('p80, 'p81) ant_tpms_profile \<Rightarrow> u8 \<Rightarrow> bytes \<Rightarrow> bytes option" where
  "encode_page sdk p page payload =
     (if page = ANT_TPMS_PAGE_1 then Some (ant_tpms_page_1_encode payload (page_1 p))
      else if page = ANT_TPMS_PAGE_16 then Some (ant_tpms_page_16_encode payload (page_16 p))
      else if page = ANT_TPMS_PAGE_80 then Some (ant_common_page_80_encode sdk payload (page_80 p))
      else if page = ANT_TPMS_PAGE_81 then Some (ant_common_page_81_encode sdk payload (page_81 p))
      else if page = ANT_TPMS_PAGE_82 then Some (ant_common_page_82_encode payload (page_82 p))
      else None)"

text \<open>The message is the page number followed by the payload, both in the caller's buffer.\<close>

definition sens_message_encode ::
  "('rc, 'p80, 'p81) ant_sdk \<Rightarrow> ('rc, 'p80, 'p81, 'z) tpms_world_scheme handlers \<Rightarrow> bytes
    \<Rightarrow> ('rc, 'p80, 'p81, 'z) tpms_world_scheme
    \<Rightarrow> (bytes \<times> ('rc, 'p80, 'p81, 'z) tpms_world_scheme) option" where
  "sens_message_encode sdk h msg w =
     (case next_page_number_get sdk w of
        None \<Rightarrow> None
      | Some (page, w1) \<Rightarrow>
          let msg1 = msg[0 := page]
          in case encode_page sdk (tpms w1) page (drop 1 msg1) of
               None \<Rightarrow> Some (msg1, w1)
             | Some payload \<Rightarrow>
                 Some (take 1 msg1 @ payload, call_evt_handler h (evt_handler (tpms w1)) page w1))"

text \<open>The decoder assigns every field of the local page structure.\<close>

definition sens_message_decode ::
  "('rc, 'p80, 'p81, 'z) tpms_world_scheme handlers \<Rightarrow> bytes
    \<Rightarrow> ('rc, 'p80, 'p81, 'z) tpms_world_scheme \<Rightarrow> ('rc, 'p80, 'p81, 'z) tpms_world_scheme" where
  "sens_message_decode h msg w =
     (if msg ! 0 = ANT_TPMS_PAGE_16
      then call_config_handler h (config_handler (sens_cb w))
             (ant_tpms_page_16_decode (drop 1 msg) DEFAULT_ANT_TPMS_page16) w
      else w)"

definition decode_page ::
  "('rc, 'p80, 'p81) ant_sdk \<Rightarrow> ('p80, 'p81) ant_tpms_profile \<Rightarrow> u8 \<Rightarrow> bytes
    \<Rightarrow> ('p80, 'p81) ant_tpms_profile option" where
  "decode_page sdk p page payload =
     (if page = ANT_TPMS_PAGE_1 then Some (p\<lparr>page_1 := ant_tpms_page_1_decode payload (page_1 p)\<rparr>)
      else if page = ANT_TPMS_PAGE_16
        then Some (p\<lparr>page_16 := ant_tpms_page_16_decode payload (page_16 p)\<rparr>)
      else if page = ANT_TPMS_PAGE_80
        then Some (p\<lparr>page_80 := ant_common_page_80_decode sdk payload (page_80 p)\<rparr>)
      else if page = ANT_TPMS_PAGE_81
        then Some (p\<lparr>page_81 := ant_common_page_81_decode sdk payload (page_81 p)\<rparr>)
      else if page = ANT_TPMS_PAGE_82
        then Some (p\<lparr>page_82 := ant_common_page_82_decode payload (page_82 p)\<rparr>)
      else None)"

definition disp_message_decode ::
  "('rc, 'p80, 'p81) ant_sdk \<Rightarrow> ('rc, 'p80, 'p81, 'z) tpms_world_scheme handlers \<Rightarrow> bytes
    \<Rightarrow> ('rc, 'p80, 'p81, 'z) tpms_world_scheme \<Rightarrow> ('rc, 'p80, 'p81, 'z) tpms_world_scheme" where
  "disp_message_decode sdk h msg w =
     (case decode_page sdk (tpms w) (msg ! 0) (drop 1 msg) of
        None \<Rightarrow> w
      | Some p \<Rightarrow> call_evt_handler h (evt_handler p) (msg ! 0) (w\<lparr>tpms := p\<rparr>))"

subsection \<open>Sending\<close>

text \<open>
  The message buffer is uninitialised stack memory. The final assertion on the result of the
  transmission is compiled out (\<open>CONFIG_ASSERT\<close> is not set), so the result is ignored.
\<close>

definition ant_message_send ::
  "('rc, 'p80, 'p81) ant_sdk \<Rightarrow> env \<Rightarrow> ('rc, 'p80, 'p81, 'z) tpms_world_scheme handlers
    \<Rightarrow> ('rc, 'p80, 'p81, 'z) tpms_world_scheme \<Rightarrow> ('rc, 'p80, 'p81, 'z) tpms_world_scheme option" where
  "ant_message_send sdk e h w =
     (case sens_message_encode sdk h (junk_bytes e ANT_STANDARD_DATA_PAYLOAD_SIZE w) w of
        None \<Rightarrow> None
      | Some (msg, w1) \<Rightarrow>
          let (ack, rc) = ant_request_controller_ack_needed sdk (request_controller w1);
              w2 = w1\<lparr>request_controller := rc\<rparr>
          in Some (issue e
               (if ack then Ant_acknowledge_message_tx (channel_number (tpms w2)) msg
                else Ant_broadcast_message_tx (channel_number (tpms w2)) msg) w2))"

definition ant_tpms_disp_open ::
  "env \<Rightarrow> ('rc, 'p80, 'p81, 'z) tpms_world_scheme \<Rightarrow> int \<times> ('rc, 'p80, 'p81, 'z) tpms_world_scheme" where
  "ant_tpms_disp_open e w = invoke e (Ant_channel_open (channel_number (tpms w))) w"

definition ant_tpms_sens_open ::
  "('rc, 'p80, 'p81) ant_sdk \<Rightarrow> env \<Rightarrow> ('rc, 'p80, 'p81, 'z) tpms_world_scheme handlers
    \<Rightarrow> ('rc, 'p80, 'p81, 'z) tpms_world_scheme
    \<Rightarrow> (int \<times> ('rc, 'p80, 'p81, 'z) tpms_world_scheme) option" where
  "ant_tpms_sens_open sdk e h w =
     (case ant_message_send sdk e h w of
        None \<Rightarrow> None
      | Some w1 \<Rightarrow> Some (invoke e (Ant_channel_open (channel_number (tpms w1))) w1))"

subsection \<open>Event handlers\<close>

definition ant_tpms_sens_evt_handler ::
  "('rc, 'p80, 'p81) ant_sdk \<Rightarrow> env \<Rightarrow> ('rc, 'p80, 'p81, 'z) tpms_world_scheme handlers \<Rightarrow> ant_evt
    \<Rightarrow> ('rc, 'p80, 'p81, 'z) tpms_world_scheme \<Rightarrow> ('rc, 'p80, 'p81, 'z) tpms_world_scheme option" where
  "ant_tpms_sens_evt_handler sdk e h evt w =
     (if ae_channel evt = channel_number (tpms w)
      then case (case ae_event evt of
                   EVENT_TX \<Rightarrow> ant_message_send sdk e h w
                 | EVENT_RX \<Rightarrow>
                     if ae_mesg_id evt = MESG_ACKNOWLEDGED_DATA_ID
                     then Some (sens_message_decode h (ae_payload evt) w) else Some w
                 | EVENT_OTHER _ \<Rightarrow> Some w) of
             None \<Rightarrow> None
           | Some w1 \<Rightarrow> Some (w1\<lparr>request_controller :=
               ant_request_controller_sens_evt_handler sdk evt (request_controller w1)\<rparr>)
      else Some w)"

definition ant_tpms_request_data_page ::
  "('rc, 'p80, 'p81) ant_sdk \<Rightarrow> u8 \<Rightarrow> ('rc, 'p80, 'p81, 'z) tpms_world_scheme
    \<Rightarrow> bool \<times> ('rc, 'p80, 'p81, 'z) tpms_world_scheme" where
  "ant_tpms_request_data_page sdk page w =
     (let (err, rc) = ant_request_controller_request sdk (channel_number (tpms w)) page
            (request_controller w)
      in (err = NRF_ANT_SUCCESS, w\<lparr>request_controller := rc\<rparr>))"

definition ant_tpms_disp_evt_handler ::
  "('rc, 'p80, 'p81) ant_sdk \<Rightarrow> ('rc, 'p80, 'p81, 'z) tpms_world_scheme handlers \<Rightarrow> ant_evt
    \<Rightarrow> ('rc, 'p80, 'p81, 'z) tpms_world_scheme \<Rightarrow> ('rc, 'p80, 'p81, 'z) tpms_world_scheme" where
  "ant_tpms_disp_evt_handler sdk h evt w =
     (if ae_channel evt = channel_number (tpms w)
      then let w1 = (case ae_event evt of
                       EVENT_RX \<Rightarrow>
                         if ae_mesg_id evt = MESG_BROADCAST_DATA_ID
                           \<or> ae_mesg_id evt = MESG_ACKNOWLEDGED_DATA_ID
                           \<or> ae_mesg_id evt = MESG_BURST_DATA_ID
                         then disp_message_decode sdk h (ae_payload evt) w else w
                     | _ \<Rightarrow> w)
           in w1\<lparr>request_controller :=
                ant_request_controller_disp_evt_handler sdk evt (request_controller w1)\<rparr>
      else w)"

subsection \<open>Choosing a page: lemmas\<close>

text \<open>
  What the loop over pending requests relies on: a request controller that was set idle with no
  transmissions left reports no pending request.
\<close>

definition reset_clears_requests :: "('rc, 'p80, 'p81) ant_sdk \<Rightarrow> bool" where
  "reset_clears_requests sdk \<longleftrightarrow>
     (\<forall>rc. fst (ant_request_controller_pending_get sdk (rc_set_idle sdk (rc_clear_transmit_count sdk rc))) = None)"

text \<open>A set of controller states in which no request is pending and none appears by asking.\<close>

definition quiet :: "('rc, 'p80, 'p81) ant_sdk \<Rightarrow> 'rc set \<Rightarrow> bool" where
  "quiet sdk Q \<longleftrightarrow> (\<forall>rc \<in> Q. fst (ant_request_controller_pending_get sdk rc) = None
     \<and> snd (ant_request_controller_pending_get sdk rc) \<in> Q)"

lemma pending_page_returns:
  assumes "reset_clears_requests sdk"
  obtains rc' where "pending_page sdk rc = Some (None, rc')"
  | page rc' where "pending_page sdk rc = Some (Some page, rc')" "known_page page"
proof -
  obtain req rc1 where g: "ant_request_controller_pending_get sdk rc = (req, rc1)" by fastforce
  let ?rc2 = "rc_set_idle sdk (rc_clear_transmit_count sdk rc1)"
  have "fst (ant_request_controller_pending_get sdk ?rc2) = None"
    using assms by (simp add: reset_clears_requests_def)
  then obtain rc3 where "ant_request_controller_pending_get sdk ?rc2 = (None, rc3)"
    by (cases "ant_request_controller_pending_get sdk ?rc2") simp
  then have "pending_page sdk ?rc2 = Some (None, rc3)" by (subst pending_page.simps) simp
  then have reset: "\<not> known_page page \<Longrightarrow> req = Some page \<Longrightarrow> pending_page sdk rc = Some (None, rc3)" for page
    by (subst pending_page.simps) (simp add: g)
  show ?thesis
  proof (cases req)
    case None
    then show ?thesis using that(1) [of rc1] by (simp add: pending_page.simps [of sdk rc] g)
  next
    case (Some page)
    then show ?thesis
      using that(1) [of rc3] that(2) [of page rc1] reset
      by (cases "known_page page") (auto simp: pending_page.simps [of sdk rc] g)
  qed
qed

lemma pending_page_none:
  assumes "quiet sdk Q" "rc \<in> Q"
  shows "\<exists>rc' \<in> Q. pending_page sdk rc = Some (None, rc')"
  using assms by (subst pending_page.simps) (auto simp: quiet_def split: prod.splits option.splits; force)

lemma known_scheduled_page: "known_page (scheduled_page n)"
  by (simp add: known_page_def scheduled_page_def)

text \<open>One step of the schedule, as a function of the message counter alone.\<close>

definition schedule_step :: "u8 \<Rightarrow> u8 \<times> u8" where
  "schedule_step c = (let n = uint (c + 1) - 1
     in (scheduled_page n, if n = COMMON_PAGE_82_INTERVAL then 0 else c + 1))"

lemma next_page_schedule:
  assumes "quiet sdk Q" "request_controller w \<in> Q"
  shows "\<exists>rc \<in> Q. next_page_number_get sdk w = Some (fst (schedule_step (message_counter (sens_cb w))),
    w\<lparr>sens_cb := (sens_cb w)\<lparr>message_counter := snd (schedule_step (message_counter (sens_cb w)))\<rparr>,
      request_controller := rc\<rparr>)"
  using pending_page_none [OF assms]
  by (auto simp: next_page_number_get_def schedule_step_def Let_def)

lemma schedule_step_nat:
  assumes "m < 256"
  shows "schedule_step (of_nat m) =
    (if m = 119 then 80 else if m = 120 then 81 else if m = 121 then 82 else 1,
     if m = 121 \<or> m = 255 then 0 else of_nat (Suc m))"
proof (cases "m = 255")
  case False
  have m: "uint (of_nat (Suc m) :: u8) - 1 = int m"
    using assms False by (simp add: uint_nat unat_of_nat del: of_nat_Suc)
  have c: "of_nat m + 1 = (of_nat (Suc m) :: u8)" by simp
  show ?thesis
    unfolding schedule_step_def c m Let_def scheduled_page_def using False by auto
qed (simp add: schedule_step_def scheduled_page_def)

text \<open>The pages of a run of messages.\<close>

fun page_run :: "('rc, 'p80, 'p81) ant_sdk \<Rightarrow> nat \<Rightarrow> ('rc, 'p80, 'p81, 'z) tpms_world_scheme
    \<Rightarrow> (u8 list \<times> ('rc, 'p80, 'p81, 'z) tpms_world_scheme) option" where
  "page_run sdk 0 w = Some ([], w)"
| "page_run sdk (Suc n) w =
     (case next_page_number_get sdk w of
        None \<Rightarrow> None
      | Some (page, w1) \<Rightarrow> map_option (\<lambda>(ps, w2). (page # ps, w2)) (page_run sdk n w1))"

fun schedule_run :: "nat \<Rightarrow> u8 \<Rightarrow> u8 list" where
  "schedule_run 0 c = []"
| "schedule_run (Suc n) c = fst (schedule_step c) # schedule_run n (snd (schedule_step c))"

lemma page_run_schedule:
  assumes "quiet sdk Q" "request_controller w \<in> Q"
  shows "\<exists>w'. page_run sdk n w = Some (schedule_run n (message_counter (sens_cb w)), w')"
  using assms(2)
proof (induction n arbitrary: w)
  case (Suc n)
  let ?s = "schedule_step (message_counter (sens_cb w))"
  obtain rc where "rc \<in> Q" "next_page_number_get sdk w = Some (fst ?s,
      w\<lparr>sens_cb := (sens_cb w)\<lparr>message_counter := snd ?s\<rparr>, request_controller := rc\<rparr>)"
    using next_page_schedule [OF assms(1) Suc.prems] by blast
  then show ?case
    using Suc.IH [of "w\<lparr>sens_cb := (sens_cb w)\<lparr>message_counter := snd ?s\<rparr>, request_controller := rc\<rparr>"]
    by auto
qed simp

text \<open>From a counter within the period the schedule is periodic; above it, it runs to the wrap.\<close>

definition page_at :: "nat \<Rightarrow> u8" where
  "page_at k = (if k = 119 then 80 else if k = 120 then 81 else if k = 121 then 82 else 1)"

lemma schedule_run_periodic:
  "m < 122 \<Longrightarrow> schedule_run n (of_nat m) = map (\<lambda>i. page_at ((m + i) mod 122)) [0..<n]"
proof (induction n arbitrary: m)
  case (Suc n)
  have next_c: "snd (schedule_step (of_nat m)) = of_nat (Suc m mod 122)"
  proof (cases "m = 121")
    case False
    then have "Suc m mod 122 = Suc m" using Suc.prems by simp
    with Suc.prems False show ?thesis by (simp add: schedule_step_nat del: of_nat_Suc)
  qed (use schedule_step_nat [of 121] in simp)
  have "map (\<lambda>i. page_at ((m + i) mod 122)) [0..<Suc n]
      = page_at m # map (\<lambda>i. page_at ((Suc m + i) mod 122)) [0..<n]"
    using Suc.prems by (simp add: upt_conv_Cons del: upt_Suc flip: map_Suc_upt)
  moreover have "fst (schedule_step (of_nat m)) = page_at m"
    using Suc.prems by (simp add: schedule_step_nat page_at_def)
  moreover have "schedule_run n (of_nat (Suc m mod 122)) = map (\<lambda>i. page_at ((Suc m + i) mod 122)) [0..<n]"
    using Suc.IH [of "Suc m mod 122"] by (simp add: mod_simps)
  ultimately show ?case by (simp add: next_c)
qed simp

lemma schedule_run_overrun:
  "m + d = 256 \<Longrightarrow> 122 \<le> m \<Longrightarrow> schedule_run (d + n) (of_nat m) = replicate d 1 @ schedule_run n 0"
proof (induction d arbitrary: m)
  case (Suc d)
  have "schedule_step (of_nat m) = (1, if m = 255 then 0 else of_nat (Suc m))"
    using Suc.prems by (simp add: schedule_step_nat)
  moreover have "m = 255 \<Longrightarrow> d = 0" using Suc.prems by simp
  moreover have "m \<noteq> 255 \<Longrightarrow> schedule_run (d + n) (of_nat (Suc m)) = replicate d 1 @ schedule_run n 0"
    using Suc.prems by (intro Suc.IH) simp_all
  ultimately show ?case by (cases "m = 255") (simp_all del: of_nat_Suc)
next
  case 0
  have z: "(256 :: u8) = 0" by (simp add: word_unat_eq_iff)
  from 0 show ?case by (simp add: z)
qed

lemma page_at_values:
  "n \<le> 119 \<Longrightarrow> map (\<lambda>i. page_at (i mod 122)) [0..<n] = replicate n 1"
  by (rule replicate_eqI) (auto simp: page_at_def)

lemma schedule_run_complete:
  assumes "122 \<le> n" "m < 122"
  shows "{80, 81, 82} \<subseteq> set (schedule_run n (of_nat m))"
proof -
  have "page_at k \<in> set (schedule_run n (of_nat m))" if k: "k < 122" for k
  proof -
    define i where "i = (k + 122 - m) mod 122"
    have "i < n" "(m + i) mod 122 = k"
      using assms k by (simp_all add: i_def mod_simps)
    then show ?thesis
      using assms(2) by (auto simp: schedule_run_periodic image_iff intro!: bexI [of _ i])
  qed
  from this [of 119] this [of 120] this [of 121] show ?thesis by (simp add: page_at_def)
qed

lemma schedule_run_mono: "n \<le> k \<Longrightarrow> set (schedule_run n c) \<subseteq> set (schedule_run k c)"
proof (induction n arbitrary: k c)
  case (Suc n)
  then show ?case by (cases k) auto
qed simp

lemma counter_nat:
  fixes c :: u8
  obtains m where "c = of_nat m" "m < 256"
proof -
  have "c = of_nat (unat c)" by simp
  moreover have "unat c < 256" using unsigned_less [of c, where 'a = nat] by simp
  ultimately show thesis by (rule that)
qed

lemma schedule_run_recurs:
  assumes "256 \<le> n"
  shows "{80, 81, 82} \<subseteq> set (schedule_run n c)"
proof -
  obtain m where m: "c = of_nat m" "m < 256" by (rule counter_nat)
  have "{80, 81, 82} \<subseteq> set (schedule_run 256 (of_nat m))"
  proof (cases "m < 122")
    case False
    then have "schedule_run ((256 - m) + m) (of_nat m) = replicate (256 - m) 1 @ schedule_run m 0"
      using m(2) by (intro schedule_run_overrun) simp_all
    moreover have "{80, 81, 82} \<subseteq> set (schedule_run m (of_nat 0))"
      using False by (intro schedule_run_complete) simp_all
    ultimately show ?thesis using m(2) by auto
  qed (use schedule_run_complete [of 256 m] in simp)
  then show ?thesis using schedule_run_mono [OF assms, of c] m(1) by blast
qed

subsection \<open>Messages: lemmas\<close>

text \<open>
  What the profile relies on of the SDK's common pages 80 and 81: they are data pages like the
  others, with some set of fields that survive the air.
\<close>

definition sdk_pages ::
  "('rc, 'p80, 'p81) ant_sdk \<Rightarrow> ('p80 \<Rightarrow> 'p80) \<Rightarrow> ('p81 \<Rightarrow> 'p81) \<Rightarrow> bool" where
  "sdk_pages sdk wire80 wire81 \<longleftrightarrow>
     page_codec (ant_common_page_80_encode sdk) (ant_common_page_80_decode sdk) wire80
     \<and> page_codec (ant_common_page_81_encode sdk) (ant_common_page_81_decode sdk) wire81"

text \<open>The abstract channel: the receiver's copy of the page sent, up to what the air can carry.\<close>

definition copy_page :: "('p80 \<Rightarrow> 'p80) \<Rightarrow> ('p81 \<Rightarrow> 'p81) \<Rightarrow> u8 \<Rightarrow> ('p80, 'p81) ant_tpms_profile
    \<Rightarrow> ('p80, 'p81) ant_tpms_profile \<Rightarrow> ('p80, 'p81) ant_tpms_profile" where
  "copy_page wire80 wire81 page p q =
     (if page = 1 then q\<lparr>page_1 := page_1 p\<rparr>
      else if page = 16 then q\<lparr>page_16 := page16_wire (page_16 p)\<rparr>
      else if page = 80 then q\<lparr>page_80 := wire80 (page_80 p)\<rparr>
      else if page = 81 then q\<lparr>page_81 := wire81 (page_81 p)\<rparr>
      else q\<lparr>page_82 := page82_wire (page_82 p)\<rparr>)"

lemma encode_page_total:
  assumes "sdk_pages sdk wire80 wire81" "known_page page"
    and "length buf = PAYLOAD_SIZE" "length buf' = PAYLOAD_SIZE"
  shows "\<exists>payload. encode_page sdk p page buf = Some payload \<and> encode_page sdk p page buf' = Some payload
    \<and> length payload = PAYLOAD_SIZE
    \<and> decode_page sdk q page payload = Some (copy_page wire80 wire81 page p q)"
proof -
  have c80: "page_codec (ant_common_page_80_encode sdk) (ant_common_page_80_decode sdk) wire80"
    and c81: "page_codec (ant_common_page_81_encode sdk) (ant_common_page_81_decode sdk) wire81"
    using assms(1) by (simp_all add: sdk_pages_def)
  note len = assms(3) and lens = assms(3,4)
  from assms(2) consider "page = 1" | "page = 16" | "page = 80" | "page = 81" | "page = 82"
    by (auto simp: known_page_def)
  then show ?thesis
  proof cases
    case 1 then show ?thesis
      using page1.encode_total [OF lens, of "page_1 p"] page1.encode_length [OF len, of "page_1 p"]
        page1.decode_encode [OF len, of "page_1 p" "page_1 q"]
      by (simp add: encode_page_def decode_page_def copy_page_def)
  next
    case 2 then show ?thesis
      using page16.encode_total [OF lens, of "page_16 p"] page16.encode_length [OF len, of "page_16 p"]
        page16.decode_encode [OF len, of "page_16 p" "page_16 q"]
      by (simp add: encode_page_def decode_page_def copy_page_def)
  next
    case 3 then show ?thesis
      using page_codec.encode_total [OF c80 lens, of "page_80 p"] page_codec.encode_length [OF c80 len, of "page_80 p"]
        page_codec.decode_encode [OF c80 len, of "page_80 p" "page_80 q"]
      by (simp add: encode_page_def decode_page_def copy_page_def)
  next
    case 4 then show ?thesis
      using page_codec.encode_total [OF c81 lens, of "page_81 p"] page_codec.encode_length [OF c81 len, of "page_81 p"]
        page_codec.decode_encode [OF c81 len, of "page_81 p" "page_81 q"]
      by (simp add: encode_page_def decode_page_def copy_page_def)
  next
    case 5 then show ?thesis
      using page82.encode_total [OF lens, of "page_82 p"] page82.encode_length [OF len, of "page_82 p"]
        page82.decode_encode [OF len, of "page_82 p" "page_82 q"]
      by (simp add: encode_page_def decode_page_def copy_page_def)
  qed
qed

lemma next_page_returns:
  assumes "reset_clears_requests sdk"
  obtains page c rc where "next_page_number_get sdk w
      = Some (page, w\<lparr>sens_cb := (sens_cb w)\<lparr>message_counter := c\<rparr>, request_controller := rc\<rparr>)"
    "known_page page"
proof (rule pending_page_returns [OF assms, of "request_controller w"])
  fix rc assume "pending_page sdk (request_controller w) = Some (None, rc)"
  then show thesis
    using that known_scheduled_page
    by (cases "uint (message_counter (sens_cb w) + 1) - 1 = COMMON_PAGE_82_INTERVAL")
      (auto simp: next_page_number_get_def Let_def)
next
  fix page rc assume "pending_page sdk (request_controller w) = Some (Some page, rc)" "known_page page"
  then show thesis using that by (auto simp: next_page_number_get_def Let_def)
qed

text \<open>
  The message of a transmit slot: eight bytes, the page number first, whatever the uninitialised
  buffer held; the profile and the calls are those of the handler.
\<close>

lemma sens_message_encode_result:
  assumes "reset_clears_requests sdk" "sdk_pages sdk wire80 wire81"
  obtains page payload c rc where "known_page page" "length payload = PAYLOAD_SIZE"
    "\<And>msg. length msg = 8 \<Longrightarrow> sens_message_encode sdk h msg w =
       Some (page # payload, call_evt_handler h (evt_handler (tpms w)) page
         (w\<lparr>sens_cb := (sens_cb w)\<lparr>message_counter := c\<rparr>, request_controller := rc\<rparr>))"
    "\<And>q. decode_page sdk q page payload = Some (copy_page wire80 wire81 page (tpms w) q)"
proof -
  from assms(1) obtain page c rc where n: "next_page_number_get sdk w
      = Some (page, w\<lparr>sens_cb := (sens_cb w)\<lparr>message_counter := c\<rparr>, request_controller := rc\<rparr>)"
    and k: "known_page page" by (rule next_page_returns)
  note total = encode_page_total [OF assms(2) k, where p = "tpms w"]
  obtain payload where e: "encode_page sdk (tpms w) page (replicate 7 0) = Some payload"
    "length payload = PAYLOAD_SIZE"
    using total [of "replicate 7 0" "replicate 7 0"] by auto
  have d: "decode_page sdk q page payload = Some (copy_page wire80 wire81 page (tpms w) q)" for q
    using total [of "replicate 7 0" "replicate 7 0" q] e(1) by simp
  have enc: "encode_page sdk (tpms w) page buf = Some payload" if "length buf = PAYLOAD_SIZE" for buf
    using total [of "replicate 7 0" buf] that e(1) by auto
  have "sens_message_encode sdk h msg w = Some (page # payload, call_evt_handler h (evt_handler (tpms w)) page
      (w\<lparr>sens_cb := (sens_cb w)\<lparr>message_counter := c\<rparr>, request_controller := rc\<rparr>))"
    if l: "length msg = 8" for msg
  proof -
    have "take 1 (msg[0 := page]) = [page]" using l by (cases msg) auto
    then show ?thesis using l by (simp add: sens_message_encode_def n enc Let_def)
  qed
  then show thesis by (rule that [OF k e(2) _ d])
qed

text \<open>A handler that leaves the call history alone; the application's handlers are of this kind.\<close>

definition silent_handler :: "('rc, 'p80, 'p81, 'z) tpms_world_scheme handlers \<Rightarrow> bool" where
  "silent_handler h \<longleftrightarrow> (\<forall>f p w. calls (call_evt_handler h f p w) = calls w
     \<and> channel_number (tpms (call_evt_handler h f p w)) = channel_number (tpms w))"

definition is_tx_of :: "u8 \<Rightarrow> bytes \<Rightarrow> call \<Rightarrow> bool" where
  "is_tx_of ch msg c \<longleftrightarrow> c = Ant_acknowledge_message_tx ch msg \<or> c = Ant_broadcast_message_tx ch msg"

lemma ant_message_send_result:
  assumes "reset_clears_requests sdk" "sdk_pages sdk wire80 wire81" "silent_handler h"
  obtains page payload tx w' where "ant_message_send sdk e h w = Some w'"
    "known_page page" "length payload = PAYLOAD_SIZE"
    "calls w' = tx # calls w" "is_tx_of (channel_number (tpms w)) (page # payload) tx"
    "channel_number (tpms w') = channel_number (tpms w)"
    "\<And>q. decode_page sdk q page payload = Some (copy_page wire80 wire81 page (tpms w) q)"
proof -
  obtain page payload c rc where k: "known_page page" "length payload = PAYLOAD_SIZE"
    and enc: "\<And>msg. length msg = 8 \<Longrightarrow> sens_message_encode sdk h msg w =
       Some (page # payload, call_evt_handler h (evt_handler (tpms w)) page
         (w\<lparr>sens_cb := (sens_cb w)\<lparr>message_counter := c\<rparr>, request_controller := rc\<rparr>))"
    and d: "\<And>q. decode_page sdk q page payload = Some (copy_page wire80 wire81 page (tpms w) q)"
    by (rule sens_message_encode_result [OF assms(1,2), where w = w and h = h]) (rule that; assumption)
  let ?w1 = "call_evt_handler h (evt_handler (tpms w)) page
         (w\<lparr>sens_cb := (sens_cb w)\<lparr>message_counter := c\<rparr>, request_controller := rc\<rparr>)"
  let ?ack = "ant_request_controller_ack_needed sdk (request_controller ?w1)"
  let ?tx = "if fst ?ack then Ant_acknowledge_message_tx (channel_number (tpms w)) (page # payload)
      else Ant_broadcast_message_tx (channel_number (tpms w)) (page # payload)"
  have s: "calls ?w1 = calls w" "channel_number (tpms ?w1) = channel_number (tpms w)"
    using assms(3) by (simp_all add: silent_handler_def)
  then have "ant_message_send sdk e h w
      = Some (?w1\<lparr>request_controller := snd ?ack, calls := ?tx # calls w\<rparr>)"
    by (simp add: ant_message_send_def enc split_def Let_def)
  then show thesis
    by (rule that [OF _ k _ _ _ d]) (auto simp: s is_tx_of_def split: if_splits)
qed

subsection \<open>Properties of the page schedule\<close>

text \<open>
  Choosing the next page ends and yields one of the five pages the encoder knows,
  whatever page a display has requested: a request for an unknown page resets the request
  controller and the regular schedule goes on. Nothing but the counter and the request controller
  changes.
\<close>

theorem next_page_known:
  assumes "reset_clears_requests sdk"
  shows "\<exists>page c rc. next_page_number_get sdk w
      = Some (page, w\<lparr>sens_cb := (sens_cb w)\<lparr>message_counter := c\<rparr>, request_controller := rc\<rparr>)
    \<and> page \<in> {1, 16, 80, 81, 82}"
  by (rule next_page_returns [OF assms, of w]) (auto simp: known_page_def)

text \<open>
  Property C27: after the initialisation of a sensor, and as long as no page is requested, the
  messages repeat with a period of 122: page 1 in the slots 0 to 118, then pages 80, 81 and 82.
\<close>

theorem schedule_period:
  assumes "quiet sdk Q" "\<And>rc. ant_request_controller_init sdk rc \<in> Q"
  shows "\<exists>w'. page_run sdk n (snd (ant_tpms_sens_init sdk e cfg sens w)) = Some
    (map (\<lambda>i. if i mod 122 = 119 then 80 else if i mod 122 = 120 then 81
              else if i mod 122 = 121 then 82 else 1) [0..<n], w')"
proof -
  let ?w = "snd (ant_tpms_sens_init sdk e cfg sens w)"
  have "request_controller ?w \<in> Q" "message_counter (sens_cb ?w) = of_nat 0"
    using assms(2) by (simp_all add: ant_tpms_sens_init_def ant_tpms_init_def Let_def)
  then show ?thesis
    using page_run_schedule [OF assms(1), of ?w n] schedule_run_periodic [of 0 n]
    by (simp add: page_at_def)
qed

text \<open>
  From whatever value the message counter has, 256 messages without requests contain
  each of the common pages 80, 81 and 82.
\<close>

theorem common_pages_recur:
  assumes "quiet sdk Q" "request_controller w \<in> Q"
  shows "\<exists>ps w'. page_run sdk 256 w = Some (ps, w') \<and> {80, 81, 82} \<subseteq> set ps"
  using page_run_schedule [OF assms, of 256] schedule_run_recurs [of 256] by blast

text \<open>
  Property C30: a request that is served in slot 121, where page 82 and the reset of the counter
  were due, makes the counter run past its last interval: the reset is skipped, the counter has to
  wrap at 256, and the next 253 messages are all page 1 before page 80 comes again. The intended
  interval is 121.
\<close>

theorem request_in_last_slot_overruns:
  assumes "quiet sdk Q" "message_counter (sens_cb w) = 121" "known_page page" "rc' \<in> Q"
    and "ant_request_controller_pending_get sdk (request_controller w) = (Some page, rc')"
  shows "\<exists>w1 w2. next_page_number_get sdk w = Some (page, w1)
    \<and> page_run sdk 254 w1 = Some (replicate 253 1 @ [80], w2)"
proof -
  let ?w1 = "w\<lparr>sens_cb := (sens_cb w)\<lparr>message_counter := of_nat 122\<rparr>, request_controller := rc'\<rparr>"
  have "next_page_number_get sdk w = Some (page, ?w1)"
    using assms(2,3,5) by (simp add: next_page_number_get_def pending_page.simps [of sdk "request_controller w"] Let_def)
  moreover have "schedule_run (134 + 120) (of_nat 122) = replicate 134 1 @ schedule_run 120 0"
    by (rule schedule_run_overrun) simp_all
  moreover have "schedule_run 120 (of_nat 0) = replicate 119 1 @ [80]"
  proof -
    have "[0..<120] = [0..<119] @ [119 :: nat]" using upt_Suc_append [of 0 119] by simp
    then show ?thesis
      using schedule_run_periodic [of 0 120] page_at_values [of 119] by (simp add: page_at_def)
  qed
  moreover have "replicate 134 x @ replicate 119 x = replicate 253 x" for x :: u8
    by (simp flip: replicate_add)
  ultimately show ?thesis
    using page_run_schedule [OF assms(1), of ?w1 254] assms(4) by auto
qed

subsection \<open>Properties of the messages\<close>

text \<open>
  What a sensor encodes a display decodes. In every transmit slot the message is
  determined by the profile alone, not by the uninitialised stack buffer it is built in, and a
  display that receives it copies exactly the sent page of the sensor's profile into its own, up
  to the bits that have no place on the air, leaves all other pages alone and tells its handler
  the page number.
\<close>

theorem sensor_to_display:
  assumes "reset_clears_requests sdk" "sdk_pages sdk wire80 wire81"
  shows "\<exists>page payload w1. page \<in> {1, 16, 80, 81, 82} \<and> length payload = PAYLOAD_SIZE
    \<and> (\<forall>msg. length msg = 8 \<longrightarrow> sens_message_encode sdk h msg w = Some (page # payload, w1))
    \<and> (\<forall>wd. disp_message_decode sdk hdl (page # payload) wd =
        call_evt_handler hdl (evt_handler (tpms wd)) page
          (wd\<lparr>tpms := copy_page wire80 wire81 page (tpms w) (tpms wd)\<rparr>))"
proof (rule sens_message_encode_result [OF assms, where w = w and h = h])
  fix page payload c rc
  assume k: "known_page page" "length payload = PAYLOAD_SIZE"
    and enc: "\<And>msg. length msg = 8 \<Longrightarrow> sens_message_encode sdk h msg w =
       Some (page # payload, call_evt_handler h (evt_handler (tpms w)) page
         (w\<lparr>sens_cb := (sens_cb w)\<lparr>message_counter := c\<rparr>, request_controller := rc\<rparr>))"
    and d: "\<And>q. decode_page sdk q page payload = Some (copy_page wire80 wire81 page (tpms w) q)"
  have "evt_handler (copy_page wire80 wire81 page p q) = evt_handler q" for p q
    by (simp add: copy_page_def)
  then have "disp_message_decode sdk hdl (page # payload) wd =
        call_evt_handler hdl (evt_handler (tpms wd)) page
          (wd\<lparr>tpms := copy_page wire80 wire81 page (tpms w) (tpms wd)\<rparr>)" for wd
    by (simp add: disp_message_decode_def d)
  with k enc show ?thesis unfolding known_page_def by (intro exI [of _ page] exI [of _ payload]) auto
qed

text \<open>
  Property C39: a transmit event on the sensor's channel sends exactly one message on that channel,
  eight bytes with a known page number first. The handlers called on the way must not send by
  themselves; those of the application do not.
\<close>

theorem tx_event_sends_one_message:
  assumes "reset_clears_requests sdk" "sdk_pages sdk wire80 wire81" "silent_handler h"
    and "ae_event evt = EVENT_TX" "ae_channel evt = channel_number (tpms w)"
  shows "\<exists>w' msg tx. ant_tpms_sens_evt_handler sdk e h evt w = Some w'
    \<and> calls w' = tx # calls w \<and> is_tx_of (channel_number (tpms w)) msg tx
    \<and> length msg = 8 \<and> msg ! 0 \<in> {1, 16, 80, 81, 82}"
  by (rule ant_message_send_result [OF assms(1,2,3), where e = e and w = w])
    (use assms(4,5) in \<open>auto simp: ant_tpms_sens_evt_handler_def known_page_def\<close>)

text \<open>
  Opening the sensor fills the transmit buffer before the channel is opened, so the
  first slot already carries a message; the result is that of opening the channel.
\<close>

theorem sens_open_order:
  assumes "reset_clears_requests sdk" "sdk_pages sdk wire80 wire81" "silent_handler h"
  shows "\<exists>w' msg tx. ant_tpms_sens_open sdk e h w =
      Some (env_rc e (tx # calls w) (Ant_channel_open (channel_number (tpms w))), w')
    \<and> calls w' = Ant_channel_open (channel_number (tpms w)) # tx # calls w
    \<and> is_tx_of (channel_number (tpms w)) msg tx \<and> length msg = 8"
  by (rule ant_message_send_result [OF assms, where e = e and w = w])
    (auto simp: ant_tpms_sens_open_def invoke_def)

text \<open>
  Apart from transmit slots, the only thing a sensor reacts to is an acknowledged page
  16 on its own channel. Any other event leaves profile, settings, counters and calls alone: it
  reaches the request controller at most, and not even that on a foreign channel.
\<close>

theorem sensor_ignores_other_events:
  assumes "\<not> (ae_channel evt = channel_number (tpms w) \<and>
      (ae_event evt = EVENT_TX \<or> ae_event evt = EVENT_RX
         \<and> ae_mesg_id evt = MESG_ACKNOWLEDGED_DATA_ID \<and> ae_payload evt ! 0 = 16))"
  shows "ant_tpms_sens_evt_handler sdk e h evt w = Some
    (if ae_channel evt = channel_number (tpms w)
     then w\<lparr>request_controller := ant_request_controller_sens_evt_handler sdk evt (request_controller w)\<rparr>
     else w)"
  using assms by (auto simp: ant_tpms_sens_evt_handler_def sens_message_decode_def split: ant_event.splits)

subsection \<open>Witnesses\<close>

text \<open>
  A small SDK: the request controller is the pending page, handed out once; pages 80 and 81 carry
  nothing.
\<close>

definition demo_sdk :: "(u8 option, unit, unit) ant_sdk" where
  "demo_sdk = \<lparr>ant_request_controller_init = \<lambda>_. None,
     ant_request_controller_pending_get = \<lambda>rc. (rc, None),
     rc_clear_transmit_count = \<lambda>rc. rc, rc_set_idle = \<lambda>_. None,
     ant_request_controller_ack_needed = \<lambda>rc. (False, rc),
     ant_request_controller_sens_evt_handler = \<lambda>evt rc.
       if ae_event evt = EVENT_RX \<and> ae_payload evt ! 0 = 70 then Some (ae_payload evt ! 7) else rc,
     ant_request_controller_disp_evt_handler = \<lambda>_ rc. rc,
     ant_request_controller_request = \<lambda>_ page _. (0, Some page),
     DEFAULT_ANT_COMMON_page80 = (), DEFAULT_ANT_COMMON_page81 = (),
     ant_common_page_80_encode = \<lambda>_ _. replicate 7 0xFF, ant_common_page_81_encode = \<lambda>_ _. replicate 7 0xFF,
     ant_common_page_80_decode = \<lambda>_ d. d, ant_common_page_81_decode = \<lambda>_ d. d,
     page81_set_sw_revision_minor = \<lambda>_ d. d, page81_set_sw_revision_major = \<lambda>_ d. d,
     page81_set_serial_number = \<lambda>_ d. d\<rparr>"

definition demo_profile :: "(unit, unit) ant_tpms_profile" where
  "demo_profile = \<lparr>channel_number = 0, cb = No_cb, evt_handler = NULL, page_1 = DEFAULT_ANT_TPMS_page1,
     page_16 = DEFAULT_ANT_TPMS_page16, page_80 = (), page_81 = (), page_82 = DEFAULT_ANT_COMMON_page82\<rparr>"

definition demo_world :: "u8 \<Rightarrow> u8 option \<Rightarrow> (u8 option, unit, unit) tpms_world" where
  "demo_world c rc = \<lparr>calls = [], retained_obj = retained_zero, tpms = demo_profile,
     sens_cb = \<lparr>config_handler = NULL, message_counter = c\<rparr>, request_controller = rc\<rparr>"

definition demo_handlers :: "(u8 option, unit, unit) tpms_world handlers" where
  "demo_handlers = \<lparr>call_evt_handler = \<lambda>_ _ w. w, call_config_handler = \<lambda>_ _ w. w\<rparr>"

definition demo_event :: "u8 \<Rightarrow> ant_event \<Rightarrow> ant_evt" where
  "demo_event ch ev = \<lparr>ae_channel = ch, ae_event = ev, ae_mesg_id = MESG_BROADCAST_DATA_ID,
     ae_payload = [16, 0, 0, 0, 0, 0, 0, 0]\<rparr>"

lemma demo_sdk_laws:
  "reset_clears_requests demo_sdk" "quiet demo_sdk {None}" "sdk_pages demo_sdk id id"
  "silent_handler demo_handlers"
  by (simp_all add: reset_clears_requests_def quiet_def sdk_pages_def page_codec_def silent_handler_def
      demo_sdk_def demo_handlers_def)

theorem next_page_known_witness:
  "\<exists>c rc. next_page_number_get demo_sdk (demo_world 0 (Some 99))
      = Some (1, (demo_world 0 (Some 99))\<lparr>sens_cb := (sens_cb (demo_world 0 (Some 99)))\<lparr>message_counter := c\<rparr>,
          request_controller := rc\<rparr>)"
proof -
  have "pending_page demo_sdk None = Some (None, None)"
    by (subst pending_page.simps) (simp add: demo_sdk_def)
  then have "pending_page demo_sdk (Some 99) = Some (None, None)"
    by (subst pending_page.simps) (simp add: demo_sdk_def known_page_def)
  then have "map_option fst (next_page_number_get demo_sdk (demo_world 0 (Some 99))) = Some 1"
    by (simp add: next_page_number_get_def demo_world_def scheduled_page_def)
  with next_page_known [OF demo_sdk_laws(1), of "demo_world 0 (Some 99)"] show ?thesis by auto
qed

theorem schedule_period_witness:
  "\<exists>ps w'. page_run demo_sdk 244 (snd (ant_tpms_sens_init demo_sdk (uptime_env 0)
       undefined undefined (demo_world 7 (Some 1)))) = Some (ps, w') \<and> ps ! 0 = 1 \<and> ps ! 241 = 80"
  using schedule_period [OF demo_sdk_laws(2), of 244 "uptime_env 0" undefined undefined "demo_world 7 (Some 1)"]
  by (auto simp: demo_sdk_def)

theorem common_pages_recur_witness:
  "\<exists>ps w'. page_run demo_sdk 256 (demo_world 200 None) = Some (ps, w') \<and> {80, 81, 82} \<subseteq> set ps"
  by (rule common_pages_recur [OF demo_sdk_laws(2)]) (simp add: demo_world_def)

theorem request_in_last_slot_overruns_witness:
  "\<exists>w1 w2. next_page_number_get demo_sdk (demo_world 121 (Some 16)) = Some (16, w1)
    \<and> page_run demo_sdk 254 w1 = Some (replicate 253 1 @ [80], w2)"
  by (rule request_in_last_slot_overruns [OF demo_sdk_laws(2), of _ _ None])
    (simp_all add: demo_world_def demo_sdk_def known_page_def)

theorem sensor_to_display_witness:
  "\<exists>page payload w1.
     sens_message_encode demo_sdk demo_handlers (replicate 8 0xAB) (demo_world 0 None) = Some (page # payload, w1)
     \<and> disp_message_decode demo_sdk demo_handlers (page # payload) (demo_world 9 (Some 1))
       = (demo_world 9 (Some 1))\<lparr>tpms := copy_page id id page demo_profile demo_profile\<rparr>"
proof -
  obtain page payload w1 where
    "\<forall>msg. length msg = 8 \<longrightarrow> sens_message_encode demo_sdk demo_handlers msg (demo_world 0 None) = Some (page # payload, w1)"
    "\<forall>wd. disp_message_decode demo_sdk demo_handlers (page # payload) wd =
        call_evt_handler demo_handlers (evt_handler (tpms wd)) page
          (wd\<lparr>tpms := copy_page id id page (tpms (demo_world 0 None)) (tpms wd)\<rparr>)"
    using sensor_to_display [OF demo_sdk_laws(1,3), of demo_handlers "demo_world 0 None" demo_handlers] by blast
  then show ?thesis by (intro exI [of _ page] exI [of _ payload] exI [of _ w1])
      (simp add: demo_handlers_def demo_world_def)
qed

theorem tx_event_sends_one_message_witness:
  "\<exists>w' tx. ant_tpms_sens_evt_handler demo_sdk (uptime_env 0) demo_handlers (demo_event 0 EVENT_TX) (demo_world 0 None)
      = Some w' \<and> calls w' = [tx]"
  using tx_event_sends_one_message [OF demo_sdk_laws(1,3,4), of "demo_event 0 EVENT_TX" "demo_world 0 None" "uptime_env 0"]
  by (auto simp: demo_event_def demo_world_def demo_profile_def)

theorem sens_open_order_witness:
  "\<exists>w' tx. ant_tpms_sens_open demo_sdk (uptime_env 0) demo_handlers (demo_world 0 None) = Some (0, w')
    \<and> calls w' = [Ant_channel_open 0, tx]"
  using sens_open_order [OF demo_sdk_laws(1,3,4), of "uptime_env 0" "demo_world 0 None"]
  by (auto simp: demo_world_def demo_profile_def uptime_env_def)

theorem sensor_ignores_other_events_witness:
  "ant_tpms_sens_evt_handler demo_sdk (uptime_env 0) demo_handlers (demo_event 0 EVENT_RX) (demo_world 5 None)
    = Some (demo_world 5 None)"
  using sensor_ignores_other_events [of "demo_event 0 EVENT_RX" "demo_world 5 None" demo_sdk "uptime_env 0" demo_handlers]
  by (simp add: demo_event_def demo_world_def demo_profile_def demo_sdk_def)

end
