(* ===== verification/Hw_Id.thy ===== *)
theory Hw_Id
  imports Platform "HOL-Library.Char_ord"
begin

text \<open>
  The 16 bit hardware id (\<open>common.c\<close>): the last four hexadecimal digits of the identifier string
  that the hardware id library writes. The library is the call \<open>Hw_id_get\<close>, which leaves
  \<open>env_hw_id\<close> in the caller's buffer; the length \<open>HW_ID_LEN\<close> of the buffer is a parameter. The C
  library's \<open>strtoul\<close> in base 16 is modelled as the standard describes it.
\<close>

subsection \<open>strtoul in base 16\<close>

definition hex_value :: "char \<Rightarrow> nat option" where
  "hex_value c = (let k = of_char c :: nat in
     if 48 \<le> k \<and> k \<le> 57 then Some (k - 48)
     else if 65 \<le> k \<and> k \<le> 70 then Some (k - 55)
     else if 97 \<le> k \<and> k \<le> 102 then Some (k - 87) else None)"

definition is_space :: "char \<Rightarrow> bool" where
  "is_space c = (let k = of_char c :: nat in k = 32 \<or> 9 \<le> k \<and> k \<le> 13)"

fun hex_digits :: "string \<Rightarrow> nat list" where
  "hex_digits [] = []"
| "hex_digits (c # cs) = (case hex_value c of None \<Rightarrow> [] | Some d \<Rightarrow> d # hex_digits cs)"

text \<open>An optional prefix \<open>0x\<close> counts only if a digit follows.\<close>

fun skip_0x :: "string \<Rightarrow> string" where
  "skip_0x (a # b # c # cs) =
     (if a = CHR ''0'' \<and> (b = CHR ''x'' \<or> b = CHR ''X'') \<and> hex_value c \<noteq> None then c # cs
      else a # b # c # cs)"
| "skip_0x cs = cs"

definition unsigned_of_digits :: "bool \<Rightarrow> nat list \<Rightarrow> u32" where
  "unsigned_of_digits neg ds =
     (let v = foldl (\<lambda>a d. a * 16 + d) 0 ds
      in if v \<ge> 2 ^ 32 then 0xFFFFFFFF else if neg then - of_nat v else of_nat v)"

definition strtoul_16 :: "string \<Rightarrow> u32" where
  "strtoul_16 str = (case dropWhile is_space str of
       [] \<Rightarrow> 0
     | c # cs \<Rightarrow>
         if c = CHR ''-'' then unsigned_of_digits True (hex_digits (skip_0x cs))
         else if c = CHR ''+'' then unsigned_of_digits False (hex_digits (skip_0x cs))
         else unsigned_of_digits False (hex_digits (skip_0x (c # cs))))"

subsection \<open>get_hwid_16bit\<close>

text \<open>A C string ends at its first zero byte.\<close>

definition c_string :: "string \<Rightarrow> string" where
  "c_string = takeWhile (\<lambda>c. of_char c \<noteq> (0 :: nat))"

definition get_hwid_16bit :: "nat \<Rightarrow> env \<Rightarrow> 'a world_scheme \<Rightarrow> u16 \<times> 'a world_scheme" where
  "get_hwid_16bit HW_ID_LEN e w =
     (let (ret, w1) = invoke e Hw_id_get w
      in (if ret \<noteq> 0 then 0
          else ucast (strtoul_16 (c_string (drop (HW_ID_LEN - 1 - 2 * 2) (env_hw_id e (calls w))))), w1))"

subsection \<open>Properties\<close>

definition hex_char :: "nat \<Rightarrow> char" where
  "hex_char d = char_of (if d < 10 then d + 48 else d + 55)"

lemma hex_char_facts:
  assumes "d < 16"
  shows "hex_value (hex_char d) = Some d" "of_char (hex_char d) \<noteq> (0 :: nat)"
    "\<not> is_space (hex_char d)" "hex_char d \<noteq> CHR ''-''" "hex_char d \<noteq> CHR ''+''"
    "hex_char d \<noteq> CHR ''x''" "hex_char d \<noteq> CHR ''X''"
proof -
  have c: "of_char (hex_char d) = (if d < 10 then d + 48 else d + 55 :: nat)"
    using assms by (simp add: hex_char_def)
  then show "hex_value (hex_char d) = Some d" "of_char (hex_char d) \<noteq> (0 :: nat)"
    "\<not> is_space (hex_char d)"
    using assms by (simp_all add: hex_value_def is_space_def Let_def)
  have "hex_char d \<noteq> x" if "of_char x \<noteq> (if d < 10 then d + 48 else d + 55 :: nat)" for x
    using c that by metis
  from this [of "CHR ''-''"] this [of "CHR ''+''"] this [of "CHR ''x''"] this [of "CHR ''X''"] assms
  show "hex_char d \<noteq> CHR ''-''" "hex_char d \<noteq> CHR ''+''" "hex_char d \<noteq> CHR ''x''" "hex_char d \<noteq> CHR ''X''"
    by (simp_all split: if_splits)
qed

definition hex4 :: "u16 \<Rightarrow> string" where
  "hex4 v = map hex_char [unat v div 4096, unat v div 256 mod 16, unat v div 16 mod 16, unat v mod 16]"

lemma strtoul_hex4: "strtoul_16 (hex4 v) = ucast v"
proof -
  define a b c d where "a = unat v div 4096" and "b = unat v div 256 mod 16"
    and "c = unat v div 16 mod 16" and "d = unat v mod 16"
  have v: "unat v < 65536" using unsigned_less [of v, where 'a = nat] by simp
  then have lt: "a < 16" "b < 16" "c < 16" "d < 16"
    by (simp_all add: a_def b_def c_def d_def)
  have sum: "((a * 16 + b) * 16 + c) * 16 + d = unat v"
  proof -
    have "unat v div 16 div 16 div 16 * 16 + unat v div 16 div 16 mod 16 = unat v div 16 div 16"
      "unat v div 16 div 16 * 16 + unat v div 16 mod 16 = unat v div 16"
      "unat v div 16 * 16 + unat v mod 16 = unat v" by simp_all
    then show ?thesis by (simp add: a_def b_def c_def d_def flip: div_mult2_eq)
  qed
  have h: "hex4 v = [hex_char a, hex_char b, hex_char c, hex_char d]"
    by (simp add: hex4_def a_def b_def c_def d_def)
  have "strtoul_16 (hex4 v) = unsigned_of_digits False [a, b, c, d]"
    by (simp add: strtoul_16_def h hex_char_facts lt)
  also have "\<dots> = of_nat (unat v)"
    using v sum by (simp add: unsigned_of_digits_def Let_def algebra_simps)
  also have "(of_nat (unat v) :: u32) = ucast v"
    using v by (simp add: word_unat_eq_iff unat_ucast unat_of_nat)
  finally show ?thesis .
qed

lemma c_string_hex4: "c_string (hex4 v @ CHR 0x00 # rest) = hex4 v"
proof -
  have d: "unat v div 4096 < 16" using unsigned_less [of v, where 'a = nat] by simp
  show ?thesis
    unfolding c_string_def using hex_char_facts(2) d
    by (subst takeWhile_append2) (auto simp: hex4_def)
qed

text \<open>
  Of an identifier string that ends in the four hexadecimal digits of a number, the
  16 bit id is that number, whatever comes before; when the library fails the id is 0.
\<close>

theorem hwid_last_digits:
  assumes "length prefix = HW_ID_LEN - 5" "env_hw_id e (calls w) = prefix @ hex4 v @ [CHR 0x00] @ rest"
  shows "fst (get_hwid_16bit HW_ID_LEN e w) = (if env_rc e (calls w) Hw_id_get = 0 then v else 0)"
proof -
  have "c_string (hex4 v @ [CHR 0x00] @ rest) = hex4 v" by (simp add: c_string_hex4)
  then have "strtoul_16 (c_string (drop (HW_ID_LEN - 5) (env_hw_id e (calls w)))) = ucast v"
    using assms by (simp add: strtoul_hex4)
  moreover have "ucast (ucast v :: u32) = v" by (rule bit_word_eqI) (auto simp: bit_simps)
  ultimately show ?thesis
    by (simp add: get_hwid_16bit_def invoke_def)
qed

definition hw_id_env :: "int \<Rightarrow> string \<Rightarrow> env" where
  "hw_id_env rc s = \<lparr>env_rc = \<lambda>_ _. rc, env_load = \<lambda>_ _ _ d. (0, d), env_spi_data = \<lambda>_ _. 0,
     env_hw_id = \<lambda>_. s, env_junk = \<lambda>_ _. 0\<rparr>"

theorem hwid_last_digits_witness:
  "fst (get_hwid_16bit 17 (hw_id_env 0 (''0123456789AB'' @ hex4 0xBEEF @ [CHR 0x00])) \<lparr>calls = []\<rparr>) = 0xBEEF"
  using hwid_last_digits [of "''0123456789AB''" 17 "hw_id_env 0 (''0123456789AB'' @ hex4 0xBEEF @ [CHR 0x00])"
      "\<lparr>calls = []\<rparr>" "0xBEEF" "[]"]
  by (simp add: hw_id_env_def)

end
