(* ===== verification/Settings.thy ===== *)
theory Settings
  imports Hw_Id Retained
begin

text \<open>
  Persistent settings (\<open>settings.c\<close>): loading one value through the callback of the settings
  subsystem, loading with initialisation to a default, and the start of the subsystem. The
  subsystem itself is the environment's \<open>env_load\<close>, which may call the loader callback for any
  entries it has; \<open>settings_backend\<close> is what the code relies on: an exact entry is presented once,
  and what was saved last is what is stored.

  The initialisation loop need not end, so its result is an option.
\<close>

subsection \<open>Loading one value\<close>

definition direct_loader_immediate_value :: loader_cb where
  "direct_loader_immediate_value en one_value =
     (if entry_name_len en = 0
      then if entry_len en = div_len one_value
           then let rc = entry_read_rc en; read = one_value\<lparr>div_dest := entry_data en\<rparr>
                in if rc \<ge> 0 then (0, read\<lparr>div_fetched := 1\<rparr>) else (rc, read)
           else (- EINVAL, one_value)
      else (0, one_value))"

text \<open>The result code, the destination and the new state.\<close>

definition load_immediate_value ::
  "env \<Rightarrow> string \<Rightarrow> bytes \<Rightarrow> nat \<Rightarrow> 'a world_scheme \<Rightarrow> (int \<times> bytes) \<times> 'a world_scheme" where
  "load_immediate_value e name dest len w =
     (let div0 = \<lparr>div_len = len, div_dest = dest, div_fetched = 0\<rparr>;
          (rc, div1) = env_load e (calls w) name direct_loader_immediate_value div0;
          w1 = w\<lparr>calls := Settings_load_subtree_direct name # calls w\<rparr>;
          rc' = (if rc = 0 then if div_fetched div1 = 0 then - ENOENT else rc else rc)
      in ((rc', div_dest div1), w1))"

subsection \<open>Loading with a default\<close>

partial_function (option) init_default_loop ::
  "env \<Rightarrow> string \<Rightarrow> bytes \<Rightarrow> nat \<Rightarrow> bytes \<Rightarrow> 'a world_scheme \<Rightarrow> (bytes \<times> 'a world_scheme) option" where
  "init_default_loop e name dest len init w =
     (let ((rc, dest1), w1) = load_immediate_value e name dest len w
      in if rc = - ENOENT
         then init_default_loop e name dest1 len init (issue e (Settings_save_one name init) w1)
         else Some (dest1, w1))"

definition load_immediate_value_init_default ::
  "env \<Rightarrow> string \<Rightarrow> bytes \<Rightarrow> nat \<Rightarrow> bytes \<Rightarrow> 'a world_scheme
    \<Rightarrow> ((int \<times> bytes) \<times> 'a world_scheme) option" where
  "load_immediate_value_init_default e name dest len init w =
     (case init_default_loop e name dest len init w of
        None \<Rightarrow> None
      | Some (dest1, w1) \<Rightarrow>
          let ((rc, dest2), w2) = load_immediate_value e name dest1 len w1
          in Some ((if rc = 0 then EXIT_SUCCESS else rc, dest2), w2))"

subsection \<open>Start of the subsystem\<close>

definition DEVICE_ID_SETTINGS_KEY :: string where [simp]: "DEVICE_ID_SETTINGS_KEY = ''id''"

text \<open>\<open>device_id\<close> is an uninitialised local variable.\<close>

definition initialize_settings_defaults_DEVICE_ID ::
  "nat \<Rightarrow> env \<Rightarrow> 'a world_scheme \<Rightarrow> (int \<times> 'a world_scheme) option" where
  "initialize_settings_defaults_DEVICE_ID HW_ID_LEN e w =
     (let device_id = junk_bytes e 2 w;
          (device_id_init, w1) = get_hwid_16bit HW_ID_LEN e w
      in map_option (\<lambda>((rc, _), w2). (rc, w2))
           (load_immediate_value_init_default e DEVICE_ID_SETTINGS_KEY device_id 2 (le_bytes 2 device_id_init) w1))"

definition initialize_settings_defaults ::
  "nat \<Rightarrow> env \<Rightarrow> 'a world_scheme \<Rightarrow> (int \<times> 'a world_scheme) option" where
  "initialize_settings_defaults HW_ID_LEN e w =
     (case initialize_settings_defaults_DEVICE_ID HW_ID_LEN e w of
        None \<Rightarrow> None
      | Some (rc, w1) \<Rightarrow> Some (if rc \<noteq> 0 then rc else EXIT_SUCCESS, w1))"

definition start_settings_subsys :: "nat \<Rightarrow> env \<Rightarrow> 'a world_scheme \<Rightarrow> (int \<times> 'a world_scheme) option" where
  "start_settings_subsys HW_ID_LEN e w =
     (let (rc, w1) = invoke e Settings_subsys_init w
      in if rc \<noteq> 0 then Some (rc, w1) else initialize_settings_defaults HW_ID_LEN e w1)"

subsection \<open>What is stored\<close>

text \<open>The value of a key after a history of calls, given what flash memory held before.\<close>

fun stored :: "env \<Rightarrow> (string \<Rightarrow> bytes option) \<Rightarrow> call list \<Rightarrow> string \<Rightarrow> bytes option" where
  "stored e flash [] k = flash k"
| "stored e flash (Settings_save_one k' v # cs) k =
     (if k' = k \<and> env_rc e cs (Settings_save_one k' v) = 0 then Some v else stored e flash cs k)"
| "stored e flash (c # cs) k = stored e flash cs k"

text \<open>
  The subsystem presents the entry stored under exactly the name to the callback, readable in full,
  and nothing if there is none. What it makes of the callback's result is \<open>finish\<close>; success stays
  success.
\<close>

definition settings_backend :: "env \<Rightarrow> (string \<Rightarrow> bytes option) \<Rightarrow> (int \<Rightarrow> int) \<Rightarrow> bool" where
  "settings_backend e flash finish \<longleftrightarrow> finish 0 = 0 \<and>
     (\<forall>cs k loader d. env_load e cs k loader d =
       (case stored e flash cs k of
          None \<Rightarrow> (0, d)
        | Some v \<Rightarrow>
            let (rc, d') = loader \<lparr>entry_name_len = 0, entry_len = length v,
                  entry_read_rc = int (length v), entry_data = v\<rparr> d
            in (finish rc, d')))"

text \<open>A key is missing for the loop if nothing is stored, or something of another size and the
  subsystem does not report the callback's error.\<close>

definition missing :: "(int \<Rightarrow> int) \<Rightarrow> nat \<Rightarrow> bytes option \<Rightarrow> bool" where
  "missing finish len v \<longleftrightarrow> (case v of None \<Rightarrow> True
     | Some v \<Rightarrow> length v \<noteq> len \<and> (finish (- EINVAL) = 0 \<or> finish (- EINVAL) = - ENOENT))"

lemma load_result:
  assumes "settings_backend e flash finish"
  shows "load_immediate_value e name dest len w =
    ((case stored e flash (calls w) name of
        None \<Rightarrow> (- ENOENT, dest)
      | Some v \<Rightarrow> if length v = len then (0, v)
          else (if finish (- EINVAL) = 0 then - ENOENT else finish (- EINVAL), dest)),
     w\<lparr>calls := Settings_load_subtree_direct name # calls w\<rparr>)"
  using assms
  by (auto simp: load_immediate_value_def settings_backend_def direct_loader_immediate_value_def
      Let_def split: option.splits)

lemma load_missing_iff:
  assumes "settings_backend e flash finish"
  shows "fst (fst (load_immediate_value e name dest len w)) = - ENOENT
    \<longleftrightarrow> missing finish len (stored e flash (calls w) name)"
  by (auto simp: load_result [OF assms] missing_def split: option.splits)

subsection \<open>The initialisation loop\<close>

text \<open>The history before the n-th attempt to save the default.\<close>

fun attempts :: "string \<Rightarrow> bytes \<Rightarrow> nat \<Rightarrow> call list \<Rightarrow> call list" where
  "attempts name init 0 cs = cs"
| "attempts name init (Suc n) cs =
     attempts name init n (Settings_save_one name init # Settings_load_subtree_direct name # cs)"

definition save_succeeds :: "env \<Rightarrow> string \<Rightarrow> bytes \<Rightarrow> nat \<Rightarrow> call list \<Rightarrow> bool" where
  "save_succeeds e name init n cs \<longleftrightarrow>
     env_rc e (Settings_load_subtree_direct name # attempts name init n cs) (Settings_save_one name init) = 0"

lemma loop_missing:
  assumes "settings_backend e flash finish" "missing finish len (stored e flash (calls w) name)"
  shows "init_default_loop e name dest len init w = init_default_loop e name dest len init
    (w\<lparr>calls := Settings_save_one name init # Settings_load_subtree_direct name # calls w\<rparr>)"
  using assms(2)
  by (subst init_default_loop.simps)
    (auto simp: load_result [OF assms(1)] missing_def Let_def split: option.splits)

lemma loop_present:
  assumes "settings_backend e flash finish" "\<not> missing finish len (stored e flash (calls w) name)"
  shows "\<exists>d. init_default_loop e name dest len init w
      = Some (d, w\<lparr>calls := Settings_load_subtree_direct name # calls w\<rparr>)
    \<and> (length (the (stored e flash (calls w) name)) \<noteq> len \<longrightarrow> d = dest)"
  using assms(2)
  by (subst init_default_loop.simps)
    (auto simp: load_result [OF assms(1)] missing_def Let_def split: option.splits)

text \<open>What the loop leaves in the store: the old value if it was usable, the default otherwise.\<close>

definition initialised :: "(int \<Rightarrow> int) \<Rightarrow> nat \<Rightarrow> bytes \<Rightarrow> bytes option \<Rightarrow> bytes option" where
  "initialised finish len init old = (if missing finish len old then Some init else old)"

lemma missing_init: "length init = len \<Longrightarrow> \<not> missing finish len (Some init)"
  by (simp add: missing_def)

lemma loop_returns:
  assumes "settings_backend e flash finish" "length init = len"
    and "missing finish len (stored e flash (calls w) name) \<Longrightarrow> save_succeeds e name init n (calls w)"
  shows "\<exists>d w'. init_default_loop e name dest len init w = Some (d, w')
    \<and> stored e flash (calls w') name = initialised finish len init (stored e flash (calls w) name)
    \<and> (\<forall>k. k \<noteq> name \<longrightarrow> stored e flash (calls w') k = stored e flash (calls w) k)
    \<and> (length (the (stored e flash (calls w') name)) \<noteq> len \<longrightarrow> d = dest)
    \<and> w' = w\<lparr>calls := calls w'\<rparr>"
  using assms(3)
proof (induction n arbitrary: w)
  case 0
  show ?case
  proof (cases "missing finish len (stored e flash (calls w) name)")
    case True
    let ?w1 = "w\<lparr>calls := Settings_save_one name init # Settings_load_subtree_direct name # calls w\<rparr>"
    have s: "stored e flash (calls ?w1) name = Some init"
      using 0 True by (simp add: save_succeeds_def)
    then have "\<not> missing finish len (stored e flash (calls ?w1) name)"
      using missing_init [OF assms(2)] by simp
    from loop_present [OF assms(1) this, of dest init] s True assms(2) show ?thesis
      unfolding loop_missing [OF assms(1) True] by (auto simp: initialised_def)
  qed (use loop_present [OF assms(1), of len w name dest init] in \<open>auto simp: initialised_def\<close>)
next
  case (Suc n)
  show ?case
  proof (cases "missing finish len (stored e flash (calls w) name)")
    case True
    let ?w1 = "w\<lparr>calls := Settings_save_one name init # Settings_load_subtree_direct name # calls w\<rparr>"
    have "save_succeeds e name init n (calls ?w1)"
      using Suc.prems True by (simp add: save_succeeds_def)
    then obtain d w' where "init_default_loop e name dest len init ?w1 = Some (d, w')"
      "stored e flash (calls w') name = initialised finish len init (stored e flash (calls ?w1) name)"
      "\<forall>k. k \<noteq> name \<longrightarrow> stored e flash (calls w') k = stored e flash (calls ?w1) k"
      "length (the (stored e flash (calls w') name)) \<noteq> len \<longrightarrow> d = dest"
      "w' = ?w1\<lparr>calls := calls w'\<rparr>"
      using Suc.IH by blast
    moreover have "initialised finish len init (stored e flash (calls ?w1) name) = Some init"
      using True missing_init [OF assms(2)] by (simp add: initialised_def)
    moreover have "?w1\<lparr>calls := cs\<rparr> = w\<lparr>calls := cs\<rparr>" for cs by simp
    ultimately show ?thesis
      unfolding loop_missing [OF assms(1) True] using True
      by (intro exI [of _ d] exI [of _ w']) (simp add: initialised_def)
  qed (use loop_present [OF assms(1), of len w name dest init] in \<open>auto simp: initialised_def\<close>)
qed

lemma loop_needs_save:
  assumes "init_default_loop e name dest len init w = Some r"
  shows "settings_backend e flash finish \<Longrightarrow> missing finish len (stored e flash (calls w) name)
    \<Longrightarrow> \<exists>n. save_succeeds e name init n (calls w)"
  using assms
proof (induction e name dest len init w r rule: init_default_loop.raw_induct [rotated, consumes 1, case_names step])
  case (step loop e name dest len init w r)
  let ?save = "Settings_save_one name init"
  let ?w1 = "w\<lparr>calls := ?save # Settings_load_subtree_direct name # calls w\<rparr>"
  let ?l = "load_immediate_value e name dest len w"
  have "fst (fst ?l) = - ENOENT"
    by (rule load_missing_iff [OF step.prems(1), THEN iffD2]) (rule step.prems(2))
  moreover have "snd ?l = w\<lparr>calls := Settings_load_subtree_direct name # calls w\<rparr>"
    by (simp add: load_result [OF step.prems(1)])
  ultimately obtain d where "?l = ((- ENOENT, d), w\<lparr>calls := Settings_load_subtree_direct name # calls w\<rparr>)"
    by (metis prod.collapse)
  then have l: "loop e name d len init ?w1 = Some r"
    using step.hyps by simp
  show ?case
  proof (cases "save_succeeds e name init 0 (calls w)")
    case False
    then have "stored e flash (calls ?w1) name = stored e flash (calls w) name"
      by (simp add: save_succeeds_def)
    then have m: "missing finish len (stored e flash (calls ?w1) name)"
      using step.prems(2) by simp
    obtain n where "save_succeeds e name init n (calls ?w1)"
      using step.IH [OF l step.prems(1) m] by blast
    then have "save_succeeds e name init (Suc n) (calls w)" by (simp add: save_succeeds_def)
    then show ?thesis by blast
  qed blast
qed

lemma init_default_result:
  assumes "settings_backend e flash finish" "length init = len"
    and "missing finish len (stored e flash (calls w) name) \<Longrightarrow> save_succeeds e name init n (calls w)"
  shows "\<exists>rc v w'. load_immediate_value_init_default e name dest len init w = Some ((rc, v), w')
    \<and> (case stored e flash (calls w) name of
         None \<Rightarrow> rc = 0 \<and> v = init \<and> stored e flash (calls w') name = Some init
       | Some old \<Rightarrow>
           if length old = len then rc = 0 \<and> v = old \<and> stored e flash (calls w') name = Some old
           else if finish (- EINVAL) = 0 \<or> finish (- EINVAL) = - ENOENT
             then rc = 0 \<and> v = init \<and> stored e flash (calls w') name = Some init
           else rc = finish (- EINVAL) \<and> v = dest \<and> stored e flash (calls w') name = Some old)
    \<and> (\<forall>k. k \<noteq> name \<longrightarrow> stored e flash (calls w') k = stored e flash (calls w) k)
    \<and> w' = w\<lparr>calls := calls w'\<rparr>"
proof -
  obtain d w1 where l: "init_default_loop e name dest len init w = Some (d, w1)"
    and s: "stored e flash (calls w1) name = initialised finish len init (stored e flash (calls w) name)"
      "\<forall>k. k \<noteq> name \<longrightarrow> stored e flash (calls w1) k = stored e flash (calls w) k"
      "length (the (stored e flash (calls w1) name)) \<noteq> len \<longrightarrow> d = dest"
    and w1: "w1 = w\<lparr>calls := calls w1\<rparr>"
    using loop_returns [where dest = dest, OF assms] by blast
  define cs where "cs = calls w1"
  have w1': "w1 = w\<lparr>calls := cs\<rparr>" using w1 by (simp add: cs_def)
  have i: "initialised finish len init (stored e flash (calls w) name) = (case stored e flash (calls w) name of
      None \<Rightarrow> Some init
    | Some old \<Rightarrow> if length old \<noteq> len \<and> (finish (- EINVAL) = 0 \<or> finish (- EINVAL) = - ENOENT)
        then Some init else Some old)"
    by (simp add: initialised_def missing_def split: option.splits)
  show ?thesis
    unfolding load_immediate_value_init_default_def l option.case prod.case load_result [OF assms(1)]
    using s i assms(2) unfolding w1' by (cases "stored e flash (calls w) name") (auto simp: EXIT_SUCCESS_def split: if_splits)
qed

subsection \<open>Properties\<close>

text \<open>
  Property C22: loading with a default, given that the default has the size asked for and some
  attempt to save it succeeds when the value is missing: the call returns; a stored value of the
  right size is returned unchanged; a missing one is replaced by the default, which is then both
  returned and stored; a value of another size that the subsystem reports as an error is reported
  and left; no other setting changes.
\<close>

theorem init_default_correct:
  assumes "settings_backend e flash finish" "length init = len"
    and "missing finish len (stored e flash (calls w) name) \<Longrightarrow> save_succeeds e name init n (calls w)"
  shows "\<exists>rc v w'. load_immediate_value_init_default e name dest len init w = Some ((rc, v), w')
    \<and> (case stored e flash (calls w) name of
         None \<Rightarrow> rc = 0 \<and> v = init \<and> stored e flash (calls w') name = Some init
       | Some old \<Rightarrow>
           if length old = len then rc = 0 \<and> v = old \<and> stored e flash (calls w') name = Some old
           else if finish (- EINVAL) = 0 \<or> finish (- EINVAL) = - ENOENT
             then rc = 0 \<and> v = init \<and> stored e flash (calls w') name = Some init
           else rc = finish (- EINVAL) \<and> v = dest \<and> stored e flash (calls w') name = Some old)
    \<and> (\<forall>k. k \<noteq> name \<longrightarrow> stored e flash (calls w') k = stored e flash (calls w) k)
    \<and> w' = w\<lparr>calls := calls w'\<rparr>"
  by (rule init_default_result [OF assms])

text \<open>
  Property C23: when the call returns at all. It returns exactly if the value is not missing or one
  of the attempts to save the default succeeds: if the value is missing and saving keeps failing,
  the loop never ends.
\<close>

theorem init_default_returns_iff:
  assumes "settings_backend e flash finish" "length init = len"
  shows "(\<exists>r. load_immediate_value_init_default e name dest len init w = Some r)
    \<longleftrightarrow> (\<not> missing finish len (stored e flash (calls w) name) \<or> (\<exists>n. save_succeeds e name init n (calls w)))"
    (is "?returns \<longleftrightarrow> ?cond")
proof
  assume ?returns
  then obtain d w1 where "init_default_loop e name dest len init w = Some (d, w1)"
    by (auto simp: load_immediate_value_init_default_def split: option.splits)
  then show ?cond using loop_needs_save [OF _ assms(1)] by blast
next
  assume c: ?cond
  show ?returns
  proof (cases "missing finish len (stored e flash (calls w) name)")
    case True
    with c obtain n where "save_succeeds e name init n (calls w)" by blast
    then show ?thesis using loop_returns [OF assms, of w name n dest]
      by (auto simp: load_immediate_value_init_default_def split_def Let_def)
  next
    case False
    then show ?thesis using loop_returns [OF assms, of w name 0 dest]
      by (auto simp: load_immediate_value_init_default_def split_def Let_def)
  qed
qed

lemma start_settings_result:
  assumes "settings_backend e flash finish" "finish (- EINVAL) = 0"
    and "env_rc e (calls w) Settings_subsys_init = 0"
    and "hwid = fst (get_hwid_16bit HW_ID_LEN e (w\<lparr>calls := Settings_subsys_init # calls w\<rparr>))"
    and "save_succeeds e ''id'' (le_bytes 2 hwid) n (Hw_id_get # Settings_subsys_init # calls w)"
  shows "\<exists>w' v. start_settings_subsys HW_ID_LEN e w = Some (0, w')
    \<and> v = (case stored e flash (calls w) ''id'' of
             Some old \<Rightarrow> if length old = 2 then old else le_bytes 2 hwid | None \<Rightarrow> le_bytes 2 hwid)
    \<and> stored e flash (calls w') ''id'' = Some v
    \<and> fst (load_immediate_value e ''id'' dest 2 w') = (0, v)
    \<and> (\<forall>k. k \<noteq> ''id'' \<longrightarrow> stored e flash (calls w') k = stored e flash (calls w) k)"
proof -
  let ?w1 = "w\<lparr>calls := Settings_subsys_init # calls w\<rparr>" and ?w2 = "w\<lparr>calls := Hw_id_get # Settings_subsys_init # calls w\<rparr>"
  have g: "get_hwid_16bit HW_ID_LEN e ?w1 = (hwid, ?w2)"
    using assms(4) by (simp add: get_hwid_16bit_def Let_def split_def)
  have len: "length (le_bytes 2 hwid) = 2" by simp
  have s: "stored e flash (calls ?w2) ''id'' = stored e flash (calls w) ''id''" by simp
  have "save_succeeds e ''id'' (le_bytes 2 hwid) n (calls ?w2)" using assms(5) by simp
  from init_default_result [where dest = "junk_bytes e 2 ?w1", OF assms(1) len this]
  obtain rc v w' where l: "load_immediate_value_init_default e ''id'' (junk_bytes e 2 ?w1) 2 (le_bytes 2 hwid) ?w2
      = Some ((rc, v), w')" "rc = 0" "stored e flash (calls w') ''id'' = Some v"
    and k: "\<forall>k. k \<noteq> ''id'' \<longrightarrow> stored e flash (calls w') k = stored e flash (calls ?w2) k"
    and v: "v = (case stored e flash (calls w) ''id'' of
             Some old \<Rightarrow> if length old = 2 then old else le_bytes 2 hwid | None \<Rightarrow> le_bytes 2 hwid)"
    unfolding s using assms(2) by (fastforce split: option.splits if_splits)
  then have "start_settings_subsys HW_ID_LEN e w = Some (0, w')"
    using assms(3) g
    by (simp add: start_settings_subsys_def invoke_def initialize_settings_defaults_def
        initialize_settings_defaults_DEVICE_ID_def EXIT_SUCCESS_def)
  moreover have "length v = 2" using v by (simp split: option.splits)
  then have "fst (load_immediate_value e ''id'' dest 2 w') = (0, v)"
    using l(3) by (simp add: load_result [OF assms(1)])
  ultimately show ?thesis using l(3) k v by auto
qed

text \<open>
  After a successful start of the settings subsystem the device id is there: an id
  stored before is kept, otherwise the hardware id has been stored, and loading the id succeeds
  with it. (That a value of the wrong size is not reported by the subsystem is what Zephyr does.)
\<close>

theorem start_settings_provides_id:
  assumes "settings_backend e flash finish" "finish (- EINVAL) = 0"
    and "env_rc e (calls w) Settings_subsys_init = 0"
    and "hwid = fst (get_hwid_16bit HW_ID_LEN e (w\<lparr>calls := Settings_subsys_init # calls w\<rparr>))"
    and "save_succeeds e ''id'' (le_bytes 2 hwid) n (Hw_id_get # Settings_subsys_init # calls w)"
  shows "\<exists>w' v. start_settings_subsys HW_ID_LEN e w = Some (0, w')
    \<and> v = (case stored e flash (calls w) ''id'' of
             Some old \<Rightarrow> if length old = 2 then old else le_bytes 2 hwid | None \<Rightarrow> le_bytes 2 hwid)
    \<and> stored e flash (calls w') ''id'' = Some v
    \<and> fst (load_immediate_value e ''id'' dest 2 w') = (0, v)"
  using start_settings_result [OF assms, of dest] by blast

subsection \<open>Witnesses\<close>

text \<open>An environment whose settings subsystem is a store, with the given results of calls.\<close>

definition quiet_env :: "(call list \<Rightarrow> call \<Rightarrow> int) \<Rightarrow> env" where
  "quiet_env rc = \<lparr>env_rc = rc, env_load = \<lambda>_ _ _ d. (0, d), env_spi_data = \<lambda>_ _. 0,
     env_hw_id = \<lambda>_. ''0123456789AB'' @ hex4 0xBEEF @ [CHR 0x00], env_junk = \<lambda>_ _. 0xAA\<rparr>"

definition store_env :: "(call list \<Rightarrow> call \<Rightarrow> int) \<Rightarrow> (string \<Rightarrow> bytes option) \<Rightarrow> env" where
  "store_env rc flash = (quiet_env rc)\<lparr>env_load := \<lambda>cs k loader d.
     case stored (quiet_env rc) flash cs k of
       None \<Rightarrow> (0, d)
     | Some v \<Rightarrow> (0, snd (loader \<lparr>entry_name_len = 0, entry_len = length v,
         entry_read_rc = int (length v), entry_data = v\<rparr> d))\<rparr>"

lemma store_env_simps [simp]:
  "env_rc (store_env rc flash) = rc" "env_junk (store_env rc flash) cs n = 0xAA"
  "env_hw_id (store_env rc flash) cs = ''0123456789AB'' @ hex4 0xBEEF @ [CHR 0x00]"
  by (simp_all add: store_env_def quiet_env_def)

lemma stored_cong: "env_rc e = env_rc e' \<Longrightarrow> stored e flash cs k = stored e' flash cs k"
  by (induction e flash cs k rule: stored.induct) auto

lemma store_env_backend: "settings_backend (store_env rc flash) flash (\<lambda>_. 0)"
proof -
  have "stored (store_env rc flash) flash cs k = stored (quiet_env rc) flash cs k" for cs k
    by (rule stored_cong) (simp add: store_env_def)
  then show ?thesis
    by (simp add: settings_backend_def) (simp add: store_env_def split_def split: option.splits)
qed

definition good_rc :: "call list \<Rightarrow> call \<Rightarrow> int" where "good_rc cs c = 0"

theorem init_default_correct_witness:
  "\<exists>w'. load_immediate_value_init_default (store_env good_rc Map.empty) ''role'' [7] 1 [0]
      \<lparr>calls = []\<rparr> = Some ((0, [0]), w')"
  using init_default_correct [OF store_env_backend [of good_rc Map.empty], where len = 1 and init = "[0]" and w = "\<lparr>calls = []\<rparr>"
      and name = "''role''" and n = 0 and dest = "[7]" ]
  by (auto simp: save_succeeds_def good_rc_def)

theorem init_default_returns_iff_witness:
  "load_immediate_value_init_default (store_env (\<lambda>_ _. - 5) Map.empty) ''alL'' [0, 0] 2 [0xFF, 0xFF]
     \<lparr>calls = []\<rparr> = None"
proof -
  have "\<not> (\<exists>r. load_immediate_value_init_default (store_env (\<lambda>_ _. - 5) Map.empty) ''alL'' [0, 0] 2
      [0xFF, 0xFF] \<lparr>calls = []\<rparr> = Some r)"
    by (subst init_default_returns_iff [OF store_env_backend])
      (simp_all add: save_succeeds_def missing_def)
  then show ?thesis by (metis option.exhaust)
qed

theorem start_settings_provides_id_witness:
  "\<exists>w'. start_settings_subsys 17 (store_env good_rc Map.empty) \<lparr>calls = []\<rparr> = Some (0, w')
     \<and> fst (load_immediate_value (store_env good_rc Map.empty) ''id'' [0, 0] 2 w') = (0, [0xEF, 0xBE])"
proof -
  have rc: "env_rc (store_env good_rc Map.empty) cs c = 0" for cs c
    by (simp add: good_rc_def)
  have hw: "fst (get_hwid_16bit 17 (store_env good_rc Map.empty) w) = 0xBEEF" for w :: world
  proof -
    have "env_hw_id (store_env good_rc Map.empty) (calls w) = ''0123456789AB'' @ hex4 0xBEEF @ [CHR 0x00]"
      by simp
    moreover have "ucast (ucast (0xBEEF :: u16) :: u32) = (0xBEEF :: u16)" by simp
    ultimately show ?thesis
      by (simp only: get_hwid_16bit_def invoke_def Let_def prod.case rc fst_conv if_False simp_thms)
        (simp add: c_string_hex4 strtoul_hex4)
  qed
  have "le_bytes 2 (0xBEEF :: u16) = [0xEF, 0xBE]" by (simp add: le_bytes_def byte_of_def upt_rec)
  then show ?thesis
    using start_settings_provides_id [OF store_env_backend [of good_rc Map.empty] _ _ refl, where w = "\<lparr>calls = []\<rparr>" and HW_ID_LEN = 17
        and n = 0 and dest = "[0, 0]" ]
    by (auto simp: rc hw save_succeeds_def good_rc_def)
qed

end
