(* ===== verification/Ant_App.thy ===== *)
theory Ant_App
  imports Ant_Tpms Settings Sensor
begin

text \<open>
  The ANT+ application (\<open>ant.c\<close>): the handlers of the profile, the listener that turns sensor
  readings into data pages, the profile set-up from persistent settings and the start of the stack.
  \<open>app_config\<close> holds what the build provides: the application version, the length of the hardware
  id string and the SDK's channel type for a master.
\<close>

record app_config =
  APP_VERSION_MAJOR :: int
  APP_VERSION_MINOR :: int
  HW_ID_LEN :: nat
  CHANNEL_TYPE_MASTER :: u8

record ('rc, 'p80, 'p81) ant_world = "('rc, 'p80, 'p81) tpms_world" +
  tpms_channel_tpms_sens_config :: ant_channel_config

definition ANT_TPMS_CONFIG_ROLE_SETTINGS_KEY :: string where [simp]: "ANT_TPMS_CONFIG_ROLE_SETTINGS_KEY = ''role''"
definition ANT_TPMS_CONFIG_ALARM_LOW_SETTINGS_KEY :: string where [simp]: "ANT_TPMS_CONFIG_ALARM_LOW_SETTINGS_KEY = ''alL''"
definition ANT_TPMS_CONFIG_ALARM_HIGH_SETTINGS_KEY :: string where [simp]: "ANT_TPMS_CONFIG_ALARM_HIGH_SETTINGS_KEY = ''alH''"

definition TPMS_EXT_ASSIGN :: u8 where [simp]: "TPMS_EXT_ASSIGN = 0x00"
definition TPMS_ANTPLUS_RF_FREQ :: u8 where [simp]: "TPMS_ANTPLUS_RF_FREQ = 0x39"
definition TPMS_DEVICE_TYPE :: u8 where [simp]: "TPMS_DEVICE_TYPE = 0x30"
definition TPMS_MSG_PERIOD :: u16 where [simp]: "TPMS_MSG_PERIOD = 8192"

subsection \<open>Handlers of the profile\<close>

text \<open>Every case of the event handler is empty.\<close>

definition ant_tpms_evt_handler :: "u8 \<Rightarrow> 'w \<Rightarrow> 'w" where
  "ant_tpms_evt_handler event w = w"

abbreviation upd_page_16 ::
  "(ant_tpms_page16_data \<Rightarrow> ant_tpms_page16_data)
    \<Rightarrow> ('rc, 'p80, 'p81, 'z) tpms_world_scheme \<Rightarrow> ('rc, 'p80, 'p81, 'z) tpms_world_scheme" where
  "upd_page_16 f w \<equiv> w\<lparr>tpms := (tpms w)\<lparr>page_16 := f (page_16 (tpms w))\<rparr>\<rparr>"

definition config_reset where
  "config_reset p w =
     (if p16_command p = ANT_TPMS_CONFIG_EMPTY_RESET \<and> p16_ambient_pressure p = 0xffff
         \<and> p16_alarm_low_pressure p = 0xffff \<and> p16_alarm_high_pressure p = 0xffff
      then upd_page_16 (\<lambda>_. DEFAULT_ANT_TPMS_page16) w else w)"

definition config_role where
  "config_role e p w =
     (if p16_command p AND ANT_TPMS_CONFIG_SET_ROLE \<noteq> 0
      then let w1 = upd_page_16 (p16_role_update (\<lambda>_. p16_role p)) w
           in issue e (Settings_save_one ANT_TPMS_CONFIG_ROLE_SETTINGS_KEY
                (le_bytes 1 (p16_role (page_16 (tpms w1))))) w1
      else w)"

definition config_ambient where
  "config_ambient p w =
     (if p16_command p AND ANT_TPMS_CONFIG_SET_AMBIENT \<noteq> 0
      then upd_page_16 (p16_ambient_pressure_update (\<lambda>_. p16_ambient_pressure p)) w else w)"

definition config_alarm_low where
  "config_alarm_low e p w =
     (if p16_command p AND ANT_TPMS_CONFIG_SET_ALARM_LOW \<noteq> 0
      then let w1 = upd_page_16 (p16_alarm_low_pressure_update (\<lambda>_. p16_alarm_low_pressure p)) w
           in issue e (Settings_save_one ANT_TPMS_CONFIG_ALARM_LOW_SETTINGS_KEY
                (le_bytes 2 (p16_alarm_low_pressure (page_16 (tpms w1))))) w1
      else w)"

definition config_alarm_high where
  "config_alarm_high e p w =
     (if p16_command p AND ANT_TPMS_CONFIG_SET_ALARM_HIGH \<noteq> 0
      then let w1 = upd_page_16 (p16_alarm_high_pressure_update (\<lambda>_. p16_alarm_high_pressure p)) w
           in issue e (Settings_save_one ANT_TPMS_CONFIG_ALARM_HIGH_SETTINGS_KEY
                (le_bytes 2 (p16_alarm_high_pressure (page_16 (tpms w1))))) w1
      else w)"

definition config_match_role ::
  "('rc, 'p80, 'p81, 'z) tpms_world_scheme \<Rightarrow> ('rc, 'p80, 'p81, 'z) tpms_world_scheme" where
  "config_match_role w =
     w\<lparr>tpms := (tpms w)\<lparr>page_1 := (page_1 (tpms w))\<lparr>p1_role := p16_role (page_16 (tpms w))\<rparr>\<rparr>\<rparr>"

definition ant_tpms_config_handler ::
  "env \<Rightarrow> ant_tpms_page16_data \<Rightarrow> ('rc, 'p80, 'p81, 'z) tpms_world_scheme
    \<Rightarrow> ('rc, 'p80, 'p81, 'z) tpms_world_scheme" where
  "ant_tpms_config_handler e p w =
     config_match_role (config_alarm_high e p (config_alarm_low e p (config_ambient p
       (config_role e p (config_reset p w)))))"

definition app_handlers :: "env \<Rightarrow> ('rc, 'p80, 'p81, 'z) tpms_world_scheme handlers" where
  "app_handlers e =
     \<lparr>call_evt_handler = \<lambda>f event w. if f = Fun ''ant_tpms_evt_handler'' then ant_tpms_evt_handler event w else w,
      call_config_handler = \<lambda>f p w.
        if f = Fun ''ant_tpms_config_handler'' then ant_tpms_config_handler e p w else w\<rparr>"

definition tpms_profile_tpms_sens_config :: ant_tpms_sens_config where
  "tpms_profile_tpms_sens_config =
     \<lparr>sens_config_handler = Fun ''ant_tpms_config_handler'', sens_evt_handler = Fun ''ant_tpms_evt_handler''\<rparr>"

definition ant_evt_handler ::
  "('rc, 'p80, 'p81) ant_sdk \<Rightarrow> env \<Rightarrow> ant_evt \<Rightarrow> ('rc, 'p80, 'p81, 'z) tpms_world_scheme
    \<Rightarrow> ('rc, 'p80, 'p81, 'z) tpms_world_scheme option" where
  "ant_evt_handler sdk e evt w = ant_tpms_sens_evt_handler sdk e (app_handlers e) evt w"

subsection \<open>Sensor data\<close>

text \<open>Computed as \<open>int\<close>, then narrowed to \<open>int16_t\<close>.\<close>

definition pressure_compensated :: "u16 \<Rightarrow> s16 \<Rightarrow> s16" where
  "pressure_compensated ambient hpa =
     word_of_int (uint ANT_TPMS_AMBIENT_DEFAULT
       - (if ambient = 0xffff then uint ANT_TPMS_AMBIENT_DEFAULT else uint ambient) + sint hpa)"

definition clamped_pressure :: "s16 \<Rightarrow> u16" where
  "clamped_pressure p = word_of_int (if sint p \<le> 75 then 0 else sint p)"

definition alarm_flags :: "u16 \<Rightarrow> u16 \<Rightarrow> u16 \<Rightarrow> ant_tpms_alarm" where
  "alarm_flags low high pressure =
     (if low \<noteq> 0xffff \<and> high \<noteq> 0xffff
      then let a0 = ANT_TPMS_ALARM_ALL;
               a1 = (if low \<le> pressure then a0 OR ANT_TPMS_ALARM_LOW_OK else a0)
           in if pressure \<le> high then a1 OR ANT_TPMS_ALARM_HIGH_OK else a1
      else ANT_TPMS_ALARM_NONE)"

definition battery_state_of :: "u8 \<Rightarrow> battery_state" where
  "battery_state_of battery_perc =
     (if battery_perc \<ge> 100 then BATTERY_STATE_NEW
      else if battery_perc \<ge> 50 then BATTERY_STATE_GOOD
      else if battery_perc \<ge> 15 then BATTERY_STATE_OK
      else if battery_perc \<ge> 5 then BATTERY_STATE_LOW
      else BATTERY_STATE_CRITICAL)"

definition ant_sensor_data_handler_cb ::
  "env \<Rightarrow> sensor_readings \<Rightarrow> ('rc, 'p80, 'p81, 'z) tpms_world_scheme
    \<Rightarrow> ('rc, 'p80, 'p81, 'z) tpms_world_scheme" where
  "ant_sensor_data_handler_cb e msg w =
     (let p16 = page_16 (tpms w);
          pressure = clamped_pressure (pressure_compensated (p16_ambient_pressure p16) (pressure_hpa msg));
          alarms = alarm_flags (p16_alarm_low_pressure p16) (p16_alarm_high_pressure p16) pressure;
          state = battery_state_of (battery_level_percent (voltage_mv msg));
          (now, w1) = k_uptime_seconds e w;
          r = retained_obj w1
      in w1\<lparr>tpms := (tpms w1)
          \<lparr>page_1 := (page_1 (tpms w1))\<lparr>p1_pressure := pressure, p1_alarms := alarms\<rparr>,
           page_82 := (page_82 (tpms w1))
             \<lparr>operating_time := ucast (uptime_sum r + (ucast now - uptime_latest r)),
              battery_voltage_mv := ucast (voltage_mv msg),
              battery_status := state\<rparr>\<rparr>\<rparr>)"

subsection \<open>Set-up\<close>

definition sens_channel_config :: "app_config \<Rightarrow> u16 \<Rightarrow> ant_channel_config" where
  "sens_channel_config cfg device_id =
     \<lparr>cfg_channel_number = 0, cfg_channel_type = CHANNEL_TYPE_MASTER cfg, cfg_ext_assign = TPMS_EXT_ASSIGN,
      cfg_rf_freq = TPMS_ANTPLUS_RF_FREQ, cfg_transmission_type = 5, cfg_device_type = TPMS_DEVICE_TYPE,
      cfg_device_number = device_id, cfg_channel_period = TPMS_MSG_PERIOD, cfg_network_number = 0\<rparr>"

text \<open>Loading role and alarm thresholds; \<open>role\<close> and \<open>alarm_thres\<close> start uninitialised and the
  results of the calls are ignored.\<close>

definition profile_load_role ::
  "env \<Rightarrow> ('rc, 'p80, 'p81, 'z) tpms_world_scheme \<Rightarrow> ('rc, 'p80, 'p81, 'z) tpms_world_scheme option" where
  "profile_load_role e w =
     map_option (\<lambda>((_, role), w1).
         w1\<lparr>tpms := (tpms w1)\<lparr>page_1 := (page_1 (tpms w1))\<lparr>p1_role := role ! 0\<rparr>,
              page_16 := (page_16 (tpms w1))\<lparr>p16_role := role ! 0\<rparr>\<rparr>\<rparr>)
       (load_immediate_value_init_default e ANT_TPMS_CONFIG_ROLE_SETTINGS_KEY (junk_bytes e 1 w) 1
          (le_bytes 1 ANT_TPMS_ROLE_NONE) w)"

definition profile_load_alarms ::
  "env \<Rightarrow> ('rc, 'p80, 'p81, 'z) tpms_world_scheme \<Rightarrow> ('rc, 'p80, 'p81, 'z) tpms_world_scheme option" where
  "profile_load_alarms e w =
     (let alarm_thres_init = le_bytes 2 (0xffff :: u16); alarm_thres = junk_bytes e 2 w
      in case load_immediate_value_init_default e ANT_TPMS_CONFIG_ALARM_LOW_SETTINGS_KEY alarm_thres 2
                alarm_thres_init w of
           None \<Rightarrow> None
         | Some ((_, alarm_thres), w1) \<Rightarrow>
             let w2 = upd_page_16 (p16_alarm_low_pressure_update (\<lambda>_. uint16_decode alarm_thres 0)) w1
             in map_option (\<lambda>((_, alarm_thres), w3).
                    upd_page_16 (p16_alarm_high_pressure_update (\<lambda>_. uint16_decode alarm_thres 0)) w3)
                  (load_immediate_value_init_default e ANT_TPMS_CONFIG_ALARM_HIGH_SETTINGS_KEY alarm_thres 2
                     alarm_thres_init w2))"

definition profile_set_versions ::
  "('rc, 'p80, 'p81) ant_sdk \<Rightarrow> app_config \<Rightarrow> env \<Rightarrow> ('rc, 'p80, 'p81, 'z) tpms_world_scheme
    \<Rightarrow> ('rc, 'p80, 'p81, 'z) tpms_world_scheme" where
  "profile_set_versions sdk cfg e w =
     (let p = page_81 (tpms w);
          p1 = page81_set_sw_revision_minor sdk (APP_VERSION_MINOR cfg mod 100) p;
          p2 = page81_set_sw_revision_major sdk
                 ((APP_VERSION_MAJOR cfg mod 65536 * 1000 + APP_VERSION_MINOR cfg) div 100) p1;
          (hwid, w1) = get_hwid_16bit (HW_ID_LEN cfg) e w
      in w1\<lparr>tpms := (tpms w1)\<lparr>page_81 := page81_set_serial_number sdk (uint hwid) p2,
           page_82 := (page_82 (tpms w1))\<lparr>battery_count := 0xf, battery_id := 0xf\<rparr>\<rparr>\<rparr>)"

definition profile_setup ::
  "('rc, 'p80, 'p81) ant_sdk \<Rightarrow> app_config \<Rightarrow> env \<Rightarrow> ('rc, 'p80, 'p81, 'z) ant_world_scheme
    \<Rightarrow> (int \<times> ('rc, 'p80, 'p81, 'z) ant_world_scheme) option" where
  "profile_setup sdk cfg e w =
     (let ((rc, device_id), w1) = load_immediate_value e DEVICE_ID_SETTINGS_KEY (junk_bytes e 2 w) 2 w
      in if rc \<noteq> 0 then Some (rc, w1)
         else let config = sens_channel_config cfg (uint16_decode device_id 0);
                  (err, w2) = ant_tpms_sens_init sdk e config tpms_profile_tpms_sens_config
                    (w1\<lparr>tpms_channel_tpms_sens_config := config\<rparr>)
              in if err \<noteq> 0 then Some (err, w2)
                 else case profile_load_role e w2 of
                        None \<Rightarrow> None
                      | Some w3 \<Rightarrow>
                          (case profile_load_alarms e w3 of
                             None \<Rightarrow> None
                           | Some w4 \<Rightarrow> ant_tpms_sens_open sdk e (app_handlers e)
                               (profile_set_versions sdk cfg e w4)))"

definition ant_stack_setup :: "env \<Rightarrow> 'a world_scheme \<Rightarrow> int \<times> 'a world_scheme" where
  "ant_stack_setup e w =
     (let (err, w1) = invoke e Ant_init w
      in if err \<noteq> 0 then (err, w1)
         else let (err, w2) = invoke e Ant_cb_register w1
              in if err \<noteq> 0 then (err, w2) else invoke e (Ant_plus_key_set 0) w2)"

definition start_ant_device ::
  "('rc, 'p80, 'p81) ant_sdk \<Rightarrow> app_config \<Rightarrow> env \<Rightarrow> ('rc, 'p80, 'p81, 'z) ant_world_scheme
    \<Rightarrow> (int \<times> ('rc, 'p80, 'p81, 'z) ant_world_scheme) option" where
  "start_ant_device sdk cfg e w =
     (let (err, w1) = ant_stack_setup e w
      in if err \<noteq> 0 then Some (err, w1)
         else case profile_setup sdk cfg e w1 of
                None \<Rightarrow> None
              | Some (err, w2) \<Rightarrow> Some (if err \<noteq> 0 then err else 0, w2))"

subsection \<open>Sensor data: properties\<close>

lemma sensor_data_pages:
  "page_1 (tpms (ant_sensor_data_handler_cb e msg w)) =
     (let p16 = page_16 (tpms w);
          pressure = clamped_pressure (pressure_compensated (p16_ambient_pressure p16) (pressure_hpa msg))
      in (page_1 (tpms w))\<lparr>p1_pressure := pressure,
           p1_alarms := alarm_flags (p16_alarm_low_pressure p16) (p16_alarm_high_pressure p16) pressure\<rparr>)"
  "page_82 (tpms (ant_sensor_data_handler_cb e msg w)) = (page_82 (tpms w))
     \<lparr>operating_time := ucast (uptime_sum (retained_obj w)
          + (ucast (fst (k_uptime_seconds e w)) - uptime_latest (retained_obj w))),
      battery_voltage_mv := ucast (voltage_mv msg),
      battery_status := battery_state_of (battery_level_percent (voltage_mv msg))\<rparr>"
  by (simp_all add: ant_sensor_data_handler_cb_def k_uptime_seconds_def Let_def split_def)

lemma bit_alarm_flags:
  assumes "low \<noteq> 0xffff" "high \<noteq> 0xffff"
  shows "bit (alarm_flags low high p) 0 \<longleftrightarrow> low \<le> p" "bit (alarm_flags low high p) 1 \<longleftrightarrow> p \<le> high"
  using assms by (simp_all add: alarm_flags_def alarm_defs Let_def bit_or_iff)

lemma uint_clamped_pressure: "uint (clamped_pressure p) = (if sint p \<le> 75 then 0 else sint p)"
proof -
  have "sint p < 32768" using sint_lt [of p] by simp
  then show ?thesis by (simp add: clamped_pressure_def uint_word_of_int take_bit_int_eq_self)
qed

lemma sensor_data_page_1_result:
  assumes "p = 1013 - (if ambient = 0xffff then 1013 else uint ambient) + sint (pressure_hpa msg)"
    and "- 32768 \<le> p" "p < 32768"
    and "ambient = p16_ambient_pressure (page_16 (tpms w))"
    and "low = p16_alarm_low_pressure (page_16 (tpms w))" "high = p16_alarm_high_pressure (page_16 (tpms w))"
    and "d = page_1 (tpms (ant_sensor_data_handler_cb e msg w))"
  shows "uint (p1_pressure d) = (if p \<le> 75 then 0 else p)
    \<and> (if low \<noteq> 0xffff \<and> high \<noteq> 0xffff
       then (bit (p1_alarms d) 0 \<longleftrightarrow> low \<le> p1_pressure d) \<and> (bit (p1_alarms d) 1 \<longleftrightarrow> p1_pressure d \<le> high)
       else p1_alarms d = ANT_TPMS_ALARM_NONE)
    \<and> p1_role d = p1_role (page_1 (tpms w))"
proof -
  have "sint (pressure_compensated ambient (pressure_hpa msg)) = p"
  proof -
    have "uint (1013 :: u16) = 1013" by simp
    then have "pressure_compensated ambient (pressure_hpa msg) = word_of_int p"
      by (simp only: pressure_compensated_def ANT_TPMS_AMBIENT_DEFAULT_def assms(1))
    then show ?thesis using assms(2,3) sint_word_of_int [of p, where 'a = 16] by (simp only:) simp
  qed
  then have "uint (p1_pressure d) = (if p \<le> 75 then 0 else p)"
    using assms(4,7) by (simp add: sensor_data_pages Let_def uint_clamped_pressure)
  moreover have "p1_alarms d = alarm_flags low high (p1_pressure d)" "p1_role d = p1_role (page_1 (tpms w))"
    using assms(5,6,7) by (simp_all add: sensor_data_pages Let_def)
  ultimately show ?thesis
    using bit_alarm_flags [of low high "p1_pressure d"] by (auto simp: alarm_flags_def)
qed

text \<open>
  Property C13: the pressure the sensor transmits is the measured one corrected by the configured
  ambient pressure, 1013 hPa standing for an unset one, and 0 up to 75 hPa; if both alarm limits
  are set, each alarm bit tells exactly whether the transmitted pressure keeps its limit; if
  either is unset, no alarm is given. The hypothesis keeps the sum within 16 bits.
\<close>

theorem sensor_data_page_1:
  assumes "p = 1013 - (if ambient = 0xffff then 1013 else uint ambient) + sint (pressure_hpa msg)"
    and "- 32768 \<le> p" "p < 32768"
    and "ambient = p16_ambient_pressure (page_16 (tpms w))"
    and "low = p16_alarm_low_pressure (page_16 (tpms w))" "high = p16_alarm_high_pressure (page_16 (tpms w))"
    and "d = page_1 (tpms (ant_sensor_data_handler_cb e msg w))"
  shows "uint (p1_pressure d) = (if p \<le> 75 then 0 else p)
    \<and> (if low \<noteq> 0xffff \<and> high \<noteq> 0xffff
       then (bit (p1_alarms d) 0 \<longleftrightarrow> low \<le> p1_pressure d) \<and> (bit (p1_alarms d) 1 \<longleftrightarrow> p1_pressure d \<le> high)
       else p1_alarms d = ANT_TPMS_ALARM_NONE)
    \<and> p1_role d = p1_role (page_1 (tpms w))"
  by (rule sensor_data_page_1_result [OF assms])

lemma battery_state_thresholds:
  "battery_state_of (battery_level_percent v) =
     (if 2999 \<le> sint v then BATTERY_STATE_NEW else if 2913 \<le> sint v then BATTERY_STATE_GOOD
      else if 2641 \<le> sint v then BATTERY_STATE_OK else if 2327 \<le> sint v then BATTERY_STATE_LOW
      else BATTERY_STATE_CRITICAL)"
proof -
  have le: "k \<le> battery_level_percent v \<longleftrightarrow> uint k \<le> gauge (sint v)" for k
    by (simp add: word_le_def uint_battery_level)
  have g: "100 \<le> gauge u \<longleftrightarrow> 2999 \<le> u" "50 \<le> gauge u \<longleftrightarrow> 2913 \<le> u" "15 \<le> gauge u \<longleftrightarrow> 2641 \<le> u"
    "5 \<le> gauge u \<longleftrightarrow> 2327 \<le> u" for u
  proof -
    consider "3000 \<le> u" | "2900 < u" "u < 3000" | "2740 < u" "u \<le> 2900" | "2440 < u" "u \<le> 2740"
      | "2100 < u" "u \<le> 2440" | "u \<le> 2100" by linarith
    then show "100 \<le> gauge u \<longleftrightarrow> 2999 \<le> u" "50 \<le> gauge u \<longleftrightarrow> 2913 \<le> u" "15 \<le> gauge u \<longleftrightarrow> 2641 \<le> u"
      "5 \<le> gauge u \<longleftrightarrow> 2327 \<le> u"
      by (cases; simp add: gauge_def; linarith)+
  qed
  show ?thesis by (simp add: battery_state_of_def le g)
qed

text \<open>
  Property C32: the battery state sent on page 82 is that of five voltage ranges, it never improves
  when the voltage falls (states are ordered by their codes), and the operating time sent is the
  uptime the retained data would accumulate at the same moment, in 32 bits.
\<close>

theorem sensor_data_page_82:
  assumes "d = page_82 (tpms (ant_sensor_data_handler_cb e msg w))"
    and "d' = page_82 (tpms (ant_sensor_data_handler_cb e' msg' w'))"
  shows "battery_status d =
      (if 2999 \<le> sint (voltage_mv msg) then BATTERY_STATE_NEW
       else if 2913 \<le> sint (voltage_mv msg) then BATTERY_STATE_GOOD
       else if 2641 \<le> sint (voltage_mv msg) then BATTERY_STATE_OK
       else if 2327 \<le> sint (voltage_mv msg) then BATTERY_STATE_LOW else BATTERY_STATE_CRITICAL)
    \<and> (sint (voltage_mv msg') \<le> sint (voltage_mv msg) \<longrightarrow> battery_status d \<le> battery_status d')
    \<and> operating_time d = ucast (uptime_sum (retained_obj (retained_update hw e w)))"
  unfolding assms sensor_data_pages
  by (simp add: battery_state_thresholds battery_state_order retained_update_obj retained_accrue_def)

subsection \<open>Configuration: properties\<close>

lemma command_bit:
  "c AND ANT_TPMS_CONFIG_SET_ROLE \<noteq> 0 \<longleftrightarrow> bit c 0" "c AND ANT_TPMS_CONFIG_SET_AMBIENT \<noteq> 0 \<longleftrightarrow> bit c 1"
  "c AND ANT_TPMS_CONFIG_SET_ALARM_LOW \<noteq> 0 \<longleftrightarrow> bit c 2" "c AND ANT_TPMS_CONFIG_SET_ALARM_HIGH \<noteq> 0 \<longleftrightarrow> bit c 3"
  for c :: u8
  using and_exp_eq_0_iff_not_bit [of c 0] and_exp_eq_0_iff_not_bit [of c 1]
    and_exp_eq_0_iff_not_bit [of c 2] and_exp_eq_0_iff_not_bit [of c 3]
  by (simp_all add: config_defs)

definition saves_succeed :: "env \<Rightarrow> bool" where
  "saves_succeed e \<longleftrightarrow> (\<forall>cs k v. env_rc e cs (Settings_save_one k v) = 0)"

lemma stored_save:
  "saves_succeed e \<Longrightarrow> stored e flash (Settings_save_one k v # cs) = (stored e flash cs)(k := Some v)"
  by (auto simp: saves_succeed_def)

text \<open>What each step of the handler does to page 16 and to the call history.\<close>

lemma config_step_page_16:
  "page_16 (tpms (config_role e p w)) = (page_16 (tpms w))
     \<lparr>p16_role := if bit (p16_command p) 0 then p16_role p else p16_role (page_16 (tpms w))\<rparr>"
  "page_16 (tpms (config_ambient p w)) = (page_16 (tpms w))
     \<lparr>p16_ambient_pressure := if bit (p16_command p) 1 then p16_ambient_pressure p
        else p16_ambient_pressure (page_16 (tpms w))\<rparr>"
  "page_16 (tpms (config_alarm_low e p w)) = (page_16 (tpms w))
     \<lparr>p16_alarm_low_pressure := if bit (p16_command p) 2 then p16_alarm_low_pressure p
        else p16_alarm_low_pressure (page_16 (tpms w))\<rparr>"
  "page_16 (tpms (config_alarm_high e p w)) = (page_16 (tpms w))
     \<lparr>p16_alarm_high_pressure := if bit (p16_command p) 3 then p16_alarm_high_pressure p
        else p16_alarm_high_pressure (page_16 (tpms w))\<rparr>"
  "page_16 (tpms (config_match_role w)) = page_16 (tpms w)"
  by (simp_all add: config_role_def config_ambient_def config_alarm_low_def config_alarm_high_def
      config_match_role_def command_bit Let_def)

lemma config_step_calls:
  "calls (config_reset p w) = calls w"
  "calls (config_role e p w) = (if bit (p16_command p) 0
     then Settings_save_one ''role'' (le_bytes 1 (p16_role p)) # calls w else calls w)"
  "calls (config_ambient p w) = calls w"
  "calls (config_alarm_low e p w) = (if bit (p16_command p) 2
     then Settings_save_one ''alL'' (le_bytes 2 (p16_alarm_low_pressure p)) # calls w else calls w)"
  "calls (config_alarm_high e p w) = (if bit (p16_command p) 3
     then Settings_save_one ''alH'' (le_bytes 2 (p16_alarm_high_pressure p)) # calls w else calls w)"
  "calls (config_match_role w) = calls w"
  by (simp_all add: config_reset_def config_role_def config_ambient_def config_alarm_low_def
      config_alarm_high_def config_match_role_def command_bit Let_def)

lemma config_handler_facts:
  assumes "saves_succeed e" "w' = ant_tpms_config_handler e p w" "c = p16_command p"
    and "base = (if c = 0 \<and> p16_ambient_pressure p = 0xffff \<and> p16_alarm_low_pressure p = 0xffff
           \<and> p16_alarm_high_pressure p = 0xffff then DEFAULT_ANT_TPMS_page16 else page_16 (tpms w))"
  shows "page_16 (tpms w') = base
      \<lparr>p16_role := if bit c 0 then p16_role p else p16_role base,
       p16_ambient_pressure := if bit c 1 then p16_ambient_pressure p else p16_ambient_pressure base,
       p16_alarm_low_pressure := if bit c 2 then p16_alarm_low_pressure p else p16_alarm_low_pressure base,
       p16_alarm_high_pressure := if bit c 3 then p16_alarm_high_pressure p else p16_alarm_high_pressure base\<rparr>
    \<and> p1_role (page_1 (tpms w')) = p16_role (page_16 (tpms w'))
    \<and> stored e flash (calls w') ''role'' =
        (if bit c 0 then Some [p16_role p] else stored e flash (calls w) ''role'')
    \<and> stored e flash (calls w') ''alL'' =
        (if bit c 2 then Some (le_bytes 2 (p16_alarm_low_pressure p)) else stored e flash (calls w) ''alL'')
    \<and> stored e flash (calls w') ''alH'' =
        (if bit c 3 then Some (le_bytes 2 (p16_alarm_high_pressure p)) else stored e flash (calls w) ''alH'')
    \<and> (\<forall>k. k \<notin> {''role'', ''alL'', ''alH''} \<longrightarrow> stored e flash (calls w') k = stored e flash (calls w) k)"
proof -
  have b: "le_bytes 1 (x :: u8) = [x]" for x by (simp add: le_bytes_def byte_of_def)
  have r: "page_16 (tpms (config_reset p w)) = base"
    by (simp add: config_reset_def assms(3,4) ANT_TPMS_CONFIG_EMPTY_RESET_def)
  have m: "p1_role (page_1 (tpms (config_match_role v))) = p16_role (page_16 (tpms v))" for v
    by (simp add: config_match_role_def)
  show ?thesis
    unfolding assms(2,3) ant_tpms_config_handler_def
    by (simp only: config_step_page_16 config_step_calls b r m)
      (simp add: stored_save [OF assms(1)] del: stored.simps)
qed

text \<open>
  Property C14: what a configuration message does. The reset message restores the defaults; every
  command bit sets its own field from the message and no other; the role shown on page 1 follows
  page 16; role and alarm limits that were set are stored under their keys, and no other setting
  changes. The ambient pressure is not stored.
\<close>

theorem config_handler_result:
  assumes "saves_succeed e" "w' = ant_tpms_config_handler e p w" "c = p16_command p"
    and "base = (if c = 0 \<and> p16_ambient_pressure p = 0xffff \<and> p16_alarm_low_pressure p = 0xffff
           \<and> p16_alarm_high_pressure p = 0xffff then DEFAULT_ANT_TPMS_page16 else page_16 (tpms w))"
  shows "page_16 (tpms w') = base
      \<lparr>p16_role := if bit c 0 then p16_role p else p16_role base,
       p16_ambient_pressure := if bit c 1 then p16_ambient_pressure p else p16_ambient_pressure base,
       p16_alarm_low_pressure := if bit c 2 then p16_alarm_low_pressure p else p16_alarm_low_pressure base,
       p16_alarm_high_pressure := if bit c 3 then p16_alarm_high_pressure p else p16_alarm_high_pressure base\<rparr>
    \<and> p1_role (page_1 (tpms w')) = p16_role (page_16 (tpms w'))
    \<and> stored e flash (calls w') ''role'' =
        (if bit c 0 then Some [p16_role p] else stored e flash (calls w) ''role'')
    \<and> stored e flash (calls w') ''alL'' =
        (if bit c 2 then Some (le_bytes 2 (p16_alarm_low_pressure p)) else stored e flash (calls w) ''alL'')
    \<and> stored e flash (calls w') ''alH'' =
        (if bit c 3 then Some (le_bytes 2 (p16_alarm_high_pressure p)) else stored e flash (calls w) ''alH'')
    \<and> (\<forall>k. k \<notin> {''role'', ''alL'', ''alH''} \<longrightarrow> stored e flash (calls w') k = stored e flash (calls w) k)"
  by (rule config_handler_facts [OF assms])

subsection \<open>Set-up: properties\<close>

lemma uint16_of_le_bytes: "uint16_decode (le_bytes 2 v) 0 = v" for v :: u16
  by (rule uint16_bytes) (simp_all add: le_bytes_def upt_rec)

definition stored_or :: "env \<Rightarrow> (string \<Rightarrow> bytes option) \<Rightarrow> call list \<Rightarrow> string \<Rightarrow> bytes \<Rightarrow> bytes" where
  "stored_or e flash cs k d =
     (case stored e flash cs k of Some v \<Rightarrow> if length v = length d then v else d | None \<Rightarrow> d)"

lemma load_default:
  assumes "settings_backend e flash finish" "finish (- EINVAL) = 0" "saves_succeed e" "length init = len"
  shows "\<exists>cs. load_immediate_value_init_default e name dest len init w
      = Some ((0, stored_or e flash (calls w) name init), w\<lparr>calls := cs\<rparr>)
    \<and> stored e flash cs name = Some (stored_or e flash (calls w) name init)
    \<and> (\<forall>k. k \<noteq> name \<longrightarrow> stored e flash cs k = stored e flash (calls w) k)"
proof -
  have "save_succeeds e name init 0 (calls w)" using assms(3) by (simp add: saves_succeed_def save_succeeds_def)
  from init_default_result [where dest = dest, OF assms(1,4) this]
  obtain rc v w' where r: "load_immediate_value_init_default e name dest len init w = Some ((rc, v), w')"
    and c: "rc = 0 \<and> v = stored_or e flash (calls w) name init \<and> stored e flash (calls w') name = Some v"
    and k: "\<forall>k. k \<noteq> name \<longrightarrow> stored e flash (calls w') k = stored e flash (calls w) k"
    and w': "w' = w\<lparr>calls := calls w'\<rparr>"
    unfolding stored_or_def assms(4) using assms(2) by (fastforce split: option.splits if_splits)
  show ?thesis by (rule exI [of _ "calls w'"]) (use r c k w' in auto)
qed

lemma app_evt_handler [simp]: "call_evt_handler (app_handlers e) f ev w = w"
  by (simp add: app_handlers_def ant_tpms_evt_handler_def)

lemma app_handlers_silent: "silent_handler (app_handlers e)"
  by (simp add: silent_handler_def)

lemma app_message_send:
  assumes "reset_clears_requests sdk" "sdk_pages sdk wire80 wire81"
  obtains c rc tx where "ant_message_send sdk e (app_handlers e) w
    = Some (w\<lparr>sens_cb := (sens_cb w)\<lparr>message_counter := c\<rparr>, request_controller := rc, calls := tx # calls w\<rparr>)"
proof (rule sens_message_encode_result [OF assms, where w = w and h = "app_handlers e"])
  fix page payload c rc
  assume enc: "\<And>msg. length msg = 8 \<Longrightarrow> sens_message_encode sdk (app_handlers e) msg w =
       Some (page # payload, call_evt_handler (app_handlers e) (evt_handler (tpms w)) page
         (w\<lparr>sens_cb := (sens_cb w)\<lparr>message_counter := c\<rparr>, request_controller := rc\<rparr>))"
  show thesis
    by (rule that [where c = c and rc = "snd (ant_request_controller_ack_needed sdk rc)"])
      (simp add: ant_message_send_def enc split_def Let_def)
qed

lemma profile_load_role_result:
  assumes "settings_backend e flash finish" "finish (- EINVAL) = 0" "saves_succeed e"
    and "role = stored_or e flash (calls w) ''role'' [0] ! 0"
  obtains cs where "profile_load_role e w = Some (w\<lparr>calls := cs,
      tpms := (tpms w)\<lparr>page_1 := (page_1 (tpms w))\<lparr>p1_role := role\<rparr>,
        page_16 := (page_16 (tpms w))\<lparr>p16_role := role\<rparr>\<rparr>\<rparr>)"
    "\<And>k. k \<noteq> ''role'' \<Longrightarrow> stored e flash cs k = stored e flash (calls w) k"
proof -
  have i: "le_bytes 1 ANT_TPMS_ROLE_NONE = [0]" by (simp add: le_bytes_def byte_of_def)
  obtain cs where l: "load_immediate_value_init_default e ''role'' (junk_bytes e 1 w) 1 [0] w
      = Some ((0, stored_or e flash (calls w) ''role'' [0]), w\<lparr>calls := cs\<rparr>)"
    and k: "\<And>k. k \<noteq> ''role'' \<Longrightarrow> stored e flash cs k = stored e flash (calls w) k"
    using load_default [OF assms(1-3), of "[0]" 1 "''role''" "junk_bytes e 1 w" w] by auto
  have "profile_load_role e w = Some (w\<lparr>calls := cs,
      tpms := (tpms w)\<lparr>page_1 := (page_1 (tpms w))\<lparr>p1_role := role\<rparr>,
        page_16 := (page_16 (tpms w))\<lparr>p16_role := role\<rparr>\<rparr>\<rparr>)"
    unfolding profile_load_role_def i ANT_TPMS_CONFIG_ROLE_SETTINGS_KEY_def l by (simp add: assms(4))
  then show thesis by (rule that) (rule k)
qed

lemma profile_load_alarms_result:
  assumes "settings_backend e flash finish" "finish (- EINVAL) = 0" "saves_succeed e"
  obtains cs where "profile_load_alarms e w = Some (upd_page_16 (\<lambda>d. d
      \<lparr>p16_alarm_low_pressure := uint16_decode (stored_or e flash (calls w) ''alL'' [0xFF, 0xFF]) 0,
       p16_alarm_high_pressure := uint16_decode (stored_or e flash (calls w) ''alH'' [0xFF, 0xFF]) 0\<rparr>)
      (w\<lparr>calls := cs\<rparr>))"
proof -
  have i: "le_bytes 2 (0xffff :: u16) = [0xFF, 0xFF]" by (simp add: le_bytes_def byte_of_def upt_rec)
  let ?low = "stored_or e flash (calls w) ''alL'' [0xFF, 0xFF]"
  obtain cs1 where l1: "load_immediate_value_init_default e ''alL'' (junk_bytes e 2 w) 2 [0xFF, 0xFF] w
      = Some ((0, ?low), w\<lparr>calls := cs1\<rparr>)"
    and k1: "\<And>k. k \<noteq> ''alL'' \<Longrightarrow> stored e flash cs1 k = stored e flash (calls w) k"
    using load_default [OF assms, of "[0xFF, 0xFF]" 2 "''alL''" "junk_bytes e 2 w" w] by auto
  define w2 where "w2 = upd_page_16 (p16_alarm_low_pressure_update (\<lambda>_. uint16_decode ?low 0)) (w\<lparr>calls := cs1\<rparr>)"
  obtain cs2 where l2: "load_immediate_value_init_default e ''alH'' ?low 2 [0xFF, 0xFF] w2
      = Some ((0, stored_or e flash (calls w2) ''alH'' [0xFF, 0xFF]), w2\<lparr>calls := cs2\<rparr>)"
    using load_default [OF assms, of "[0xFF, 0xFF]" 2 "''alH''" ?low w2] by auto
  have "stored_or e flash (calls w2) ''alH'' d = stored_or e flash (calls w) ''alH'' d" for d
    using k1 [of "''alH''"] by (simp add: stored_or_def w2_def)
  with l1 l2 show thesis
    by (intro that [of cs2]) (simp add: profile_load_alarms_def i Let_def w2_def)
qed

text \<open>The stack calls of the set-up succeed.\<close>

definition channel_calls_succeed :: "env \<Rightarrow> bool" where
  "channel_calls_succeed e \<longleftrightarrow> (\<forall>cs config. env_rc e cs (Ant_channel_init config) = 0)
     \<and> (\<forall>cs ch. env_rc e cs (Ant_channel_open ch) = 0)"

text \<open>Page 16 as the settings say.\<close>

definition configured_page_16 :: "env \<Rightarrow> (string \<Rightarrow> bytes option) \<Rightarrow> call list \<Rightarrow> ant_tpms_page16_data" where
  "configured_page_16 e flash cs = DEFAULT_ANT_TPMS_page16
     \<lparr>p16_role := stored_or e flash cs ''role'' [0] ! 0,
      p16_alarm_low_pressure := uint16_decode (stored_or e flash cs ''alL'' [0xFF, 0xFF]) 0,
      p16_alarm_high_pressure := uint16_decode (stored_or e flash cs ''alH'' [0xFF, 0xFF]) 0\<rparr>"

lemma sens_init_result:
  "ant_tpms_sens_init sdk e config sens w = (env_rc e (calls w) (Ant_channel_init config),
     w\<lparr>tpms := \<lparr>channel_number = cfg_channel_number config, cb = P_sens_cb,
          evt_handler = sens_evt_handler sens, page_1 = DEFAULT_ANT_TPMS_page1,
          page_16 = DEFAULT_ANT_TPMS_page16, page_80 = DEFAULT_ANT_COMMON_page80 sdk,
          page_81 = DEFAULT_ANT_COMMON_page81 sdk, page_82 = DEFAULT_ANT_COMMON_page82\<rparr>,
       sens_cb := \<lparr>config_handler = sens_config_handler sens, message_counter = 0\<rparr>,
       request_controller := ant_request_controller_init sdk (request_controller w),
       calls := Ant_channel_init config # calls w\<rparr>)"
  by (simp add: ant_tpms_sens_init_def ant_tpms_init_def invoke_def)

lemma profile_set_versions_frame:
  "\<exists>p. profile_set_versions sdk cfg e w = w\<lparr>calls := Hw_id_get # calls w,
     tpms := (tpms w)\<lparr>page_81 := p, page_82 := (page_82 (tpms w))\<lparr>battery_count := 0xf, battery_id := 0xf\<rparr>\<rparr>\<rparr>"
  by (rule exI) (simp add: profile_set_versions_def get_hwid_16bit_def Let_def split_def)

lemma profile_setup_result:
  assumes "settings_backend e flash finish" "finish (- EINVAL) = 0" "saves_succeed e"
    and "reset_clears_requests sdk" "sdk_pages sdk wire80 wire81" "channel_calls_succeed e"
    and "stored e flash (calls w) ''id'' = Some idb" "length idb = 2"
  shows "\<exists>w'. profile_setup sdk cfg e w = Some (0, w')
    \<and> page_16 (tpms w') = configured_page_16 e flash (calls w)
    \<and> p1_role (page_1 (tpms w')) = p16_role (page_16 (tpms w'))
    \<and> cfg_device_number (tpms_channel_tpms_sens_config w') = uint16_decode idb 0
    \<and> channel_number (tpms w') = 0 \<and> config_handler (sens_cb w') = Fun ''ant_tpms_config_handler''
    \<and> (\<exists>tx rest. calls w' = Ant_channel_open 0 # tx # rest)"
proof -
  define config where "config = sens_channel_config cfg (uint16_decode idb 0)"
  define w1 where "w1 = w\<lparr>calls := Settings_load_subtree_direct ''id'' # calls w, tpms_channel_tpms_sens_config := config\<rparr>"
  define w2 where "w2 = snd (ant_tpms_sens_init sdk e config tpms_profile_tpms_sens_config w1)"
  have l: "load_immediate_value e ''id'' (junk_bytes e 2 w) 2 w
      = ((0, idb), w\<lparr>calls := Settings_load_subtree_direct ''id'' # calls w\<rparr>)"
    using assms(7,8) by (simp add: load_result [OF assms(1)])
  have i: "ant_tpms_sens_init sdk e config tpms_profile_tpms_sens_config w1 = (0, w2)"
    using assms(6) by (simp add: w2_def sens_init_result channel_calls_succeed_def)
  have s2: "stored e flash (calls w2) k = stored e flash (calls w) k" for k
    by (simp add: w2_def w1_def sens_init_result)
  obtain cs3 where l3: "profile_load_role e w2 = Some (w2\<lparr>calls := cs3,
      tpms := (tpms w2)\<lparr>page_1 := (page_1 (tpms w2))\<lparr>p1_role := stored_or e flash (calls w) ''role'' [0] ! 0\<rparr>,
        page_16 := (page_16 (tpms w2))\<lparr>p16_role := stored_or e flash (calls w) ''role'' [0] ! 0\<rparr>\<rparr>\<rparr>)"
    and s3: "\<And>k. k \<noteq> ''role'' \<Longrightarrow> stored e flash cs3 k = stored e flash (calls w) k"
    by (rule profile_load_role_result [OF assms(1-3) refl, of w2]) (simp add: stored_or_def s2)
  define w3 where "w3 = w2\<lparr>calls := cs3,
      tpms := (tpms w2)\<lparr>page_1 := (page_1 (tpms w2))\<lparr>p1_role := stored_or e flash (calls w) ''role'' [0] ! 0\<rparr>,
        page_16 := (page_16 (tpms w2))\<lparr>p16_role := stored_or e flash (calls w) ''role'' [0] ! 0\<rparr>\<rparr>\<rparr>"
  have "stored_or e flash (calls w3) k d = stored_or e flash (calls w) k d" if "k \<noteq> ''role''" for k d
    using s3 [OF that] by (simp add: stored_or_def w3_def)
  then obtain cs4 where l4: "profile_load_alarms e w3 = Some (upd_page_16 (\<lambda>d. d
      \<lparr>p16_alarm_low_pressure := uint16_decode (stored_or e flash (calls w) ''alL'' [0xFF, 0xFF]) 0,
       p16_alarm_high_pressure := uint16_decode (stored_or e flash (calls w) ''alH'' [0xFF, 0xFF]) 0\<rparr>)
      (w3\<lparr>calls := cs4\<rparr>))" (is "_ = Some ?w4")
    using profile_load_alarms_result [OF assms(1-3), of w3] by auto
  define w4 where "w4 = ?w4"
  have f2: "page_16 (tpms w2) = DEFAULT_ANT_TPMS_page16" "channel_number (tpms w2) = 0"
    "tpms_channel_tpms_sens_config w2 = config" "config_handler (sens_cb w2) = Fun ''ant_tpms_config_handler''"
    by (simp_all add: w2_def w1_def sens_init_result config_def sens_channel_config_def tpms_profile_tpms_sens_config_def)
  have f4: "page_16 (tpms w4) = configured_page_16 e flash (calls w)"
    "p1_role (page_1 (tpms w4)) = p16_role (page_16 (tpms w4))" "channel_number (tpms w4) = 0"
    "tpms_channel_tpms_sens_config w4 = config" "config_handler (sens_cb w4) = Fun ''ant_tpms_config_handler''"
    by (simp_all add: w4_def w3_def f2 configured_page_16_def)
  obtain p where v: "profile_set_versions sdk cfg e w4 = w4\<lparr>calls := Hw_id_get # calls w4,
     tpms := (tpms w4)\<lparr>page_81 := p, page_82 := (page_82 (tpms w4))\<lparr>battery_count := 0xf, battery_id := 0xf\<rparr>\<rparr>\<rparr>"
    using profile_set_versions_frame [of sdk cfg e w4] by (elim exE)
  define w5 where "w5 = profile_set_versions sdk cfg e w4"
  obtain c rc tx where m: "ant_message_send sdk e (app_handlers e) w5
    = Some (w5\<lparr>sens_cb := (sens_cb w5)\<lparr>message_counter := c\<rparr>, request_controller := rc, calls := tx # calls w5\<rparr>)"
    by (rule app_message_send [OF assms(4,5)])
  define w6 where "w6 = w5\<lparr>sens_cb := (sens_cb w5)\<lparr>message_counter := c\<rparr>, request_controller := rc,
      calls := Ant_channel_open 0 # tx # calls w5\<rparr>"
  have f5: "channel_number (tpms w5) = 0" by (simp add: w5_def v f4)
  have "ant_tpms_sens_open sdk e (app_handlers e) w5 = Some (0, w6)"
    unfolding ant_tpms_sens_open_def m using assms(6) f5
    by (simp add: invoke_def channel_calls_succeed_def w6_def)
  then have "profile_setup sdk cfg e w = Some (0, w6)"
    unfolding profile_setup_def DEVICE_ID_SETTINGS_KEY_def l w5_def
    using i l3 [folded w3_def] l4 [folded w4_def] by (simp add: Let_def w1_def config_def)
  moreover have "cfg_device_number config = uint16_decode idb 0"
    by (simp add: config_def sens_channel_config_def)
  ultimately show ?thesis
    by (intro exI [of _ w6]) (simp add: w6_def w5_def v f4)
qed

definition stack_calls_succeed :: "env \<Rightarrow> bool" where
  "stack_calls_succeed e \<longleftrightarrow> channel_calls_succeed e
     \<and> (\<forall>cs. env_rc e cs Ant_init = 0 \<and> env_rc e cs Ant_cb_register = 0 \<and> env_rc e cs (Ant_plus_key_set 0) = 0)"

lemma start_ant_device_result:
  assumes "settings_backend e flash finish" "finish (- EINVAL) = 0" "saves_succeed e"
    and "reset_clears_requests sdk" "sdk_pages sdk wire80 wire81" "stack_calls_succeed e"
    and "stored e flash (calls w) ''id'' = Some idb" "length idb = 2"
  shows "\<exists>w'. start_ant_device sdk cfg e w = Some (0, w')
    \<and> page_16 (tpms w') = configured_page_16 e flash (calls w)
    \<and> p1_role (page_1 (tpms w')) = p16_role (page_16 (tpms w'))
    \<and> cfg_device_number (tpms_channel_tpms_sens_config w') = uint16_decode idb 0
    \<and> channel_number (tpms w') = 0 \<and> config_handler (sens_cb w') = Fun ''ant_tpms_config_handler''
    \<and> (\<exists>tx rest. calls w' = Ant_channel_open 0 # tx # rest)"
proof -
  let ?w1 = "w\<lparr>calls := Ant_plus_key_set 0 # Ant_cb_register # Ant_init # calls w\<rparr>"
  have s: "ant_stack_setup e w = (0, ?w1)"
    using assms(6) by (simp add: ant_stack_setup_def invoke_def stack_calls_succeed_def)
  have "stored e flash (calls ?w1) k = stored e flash (calls w) k" for k by simp
  then have "configured_page_16 e flash (calls ?w1) = configured_page_16 e flash (calls w)"
    "stored e flash (calls ?w1) ''id'' = Some idb"
    using assms(7) by (simp_all add: configured_page_16_def stored_or_def)
  then show ?thesis
    using profile_setup_result [OF assms(1-5), of ?w1 idb cfg] assms(6,8)
    by (auto simp: start_ant_device_def s stack_calls_succeed_def)
qed

text \<open>
  When the stack answers and a device id is stored, starting the ANT device returns
  0 with the channel opened under the stored id, page 16 as the persistent settings say (unset
  values at their defaults), page 1 carrying the same role, and the configuration handler
  installed. The loops over settings and requests all end.
\<close>

theorem start_ant_device_configured:
  assumes "settings_backend e flash finish" "finish (- EINVAL) = 0" "saves_succeed e"
    and "reset_clears_requests sdk" "sdk_pages sdk wire80 wire81" "stack_calls_succeed e"
    and "stored e flash (calls w) ''id'' = Some idb" "length idb = 2"
  shows "\<exists>w'. start_ant_device sdk cfg e w = Some (0, w')
    \<and> page_16 (tpms w') = configured_page_16 e flash (calls w)
    \<and> p1_role (page_1 (tpms w')) = p16_role (page_16 (tpms w'))
    \<and> cfg_device_number (tpms_channel_tpms_sens_config w') = uint16_decode idb 0
    \<and> config_handler (sens_cb w') = Fun ''ant_tpms_config_handler''
    \<and> (\<exists>tx rest. calls w' = Ant_channel_open 0 # tx # rest)"
  using start_ant_device_result [OF assms, of cfg] by blast

text \<open>
  When one of the first calls to the ANT stack fails, or no device id can be loaded,
  the device is not started: the error is returned, no channel is initialised or opened, and the
  profile keeps its state.
\<close>

theorem start_ant_device_fails_early:
  assumes "w3 = w\<lparr>calls := Ant_plus_key_set 0 # Ant_cb_register # Ant_init # calls w\<rparr>"
    and "rc0 = env_rc e (calls w) Ant_init" "rc1 = env_rc e (Ant_init # calls w) Ant_cb_register"
    and "rc2 = env_rc e (Ant_cb_register # Ant_init # calls w) (Ant_plus_key_set 0)"
    and "err = (if rc0 \<noteq> 0 then rc0 else if rc1 \<noteq> 0 then rc1 else if rc2 \<noteq> 0 then rc2
      else fst (fst (load_immediate_value e ''id'' (junk_bytes e 2 w3) 2 w3)))"
    and "err \<noteq> 0"
  shows "\<exists>cs. start_ant_device sdk cfg e w = Some (err, w\<lparr>calls := cs @ calls w\<rparr>)
    \<and> set cs \<subseteq> {Ant_init, Ant_cb_register, Ant_plus_key_set 0, Settings_load_subtree_direct ''id''}"
proof -
  let ?l = "load_immediate_value e ''id'' (junk_bytes e 2 w3) 2 w3"
  have l: "snd ?l = w3\<lparr>calls := Settings_load_subtree_direct ''id'' # calls w3\<rparr>"
    by (simp add: load_immediate_value_def Let_def split_def)
  then obtain rc d where ld: "?l = ((rc, d), w3\<lparr>calls := Settings_load_subtree_direct ''id'' # calls w3\<rparr>)"
    by (metis prod.collapse)
  consider "rc0 \<noteq> 0" | "rc0 = 0" "rc1 \<noteq> 0"
    | "rc0 = 0" "rc1 = 0" "rc2 \<noteq> 0"
    | "rc0 = 0" "rc1 = 0" "rc2 = 0" "fst (fst ?l) \<noteq> 0"
    using assms(5,6) by (auto split: if_splits)
  then show ?thesis
  proof cases
    case 1 then show ?thesis
      using assms(5) by (intro exI [of _ "[Ant_init]"]) (simp add: assms(2-4) start_ant_device_def ant_stack_setup_def invoke_def)
  next
    case 2 then show ?thesis
      using assms(5) by (intro exI [of _ "[Ant_cb_register, Ant_init]"])
        (simp add: assms(2-4) start_ant_device_def ant_stack_setup_def invoke_def)
  next
    case 3 then show ?thesis
      using assms(5) by (intro exI [of _ "[Ant_plus_key_set 0, Ant_cb_register, Ant_init]"])
        (simp add: assms(2-4) start_ant_device_def ant_stack_setup_def invoke_def)
  next
    case 4
    then have s: "ant_stack_setup e w = (0, w3)"
      by (simp add: assms(2-4) ant_stack_setup_def invoke_def assms(1))
    have "profile_setup sdk cfg e w3 = Some (rc, w3\<lparr>calls := Settings_load_subtree_direct ''id'' # calls w3\<rparr>)"
      using 4(4) by (simp add: profile_setup_def ld)
    with s have st: "start_ant_device sdk cfg e w
        = Some (rc, w3\<lparr>calls := Settings_load_subtree_direct ''id'' # calls w3\<rparr>)"
      by (simp add: start_ant_device_def)
    have "err = rc" using 4 assms(5) ld by simp
    then show ?thesis
      by (intro exI [of _ "[Settings_load_subtree_direct ''id'', Ant_plus_key_set 0, Ant_cb_register, Ant_init]"])
        (simp add: st assms(1))
  qed
qed

subsection \<open>Witnesses\<close>

definition demo_readings :: sensor_readings where
  "demo_readings = \<lparr>pressure_hpa = 2300, temperature_c = 20, voltage_mv = 2950, flags = 0, checksum = 0\<rparr>"

definition demo_limits :: "ant_tpms_page16_data" where
  "demo_limits = DEFAULT_ANT_TPMS_page16
     \<lparr>p16_command := 12, p16_alarm_low_pressure := 2000, p16_alarm_high_pressure := 2200\<rparr>"

definition limits_world :: "(u8 option, unit, unit) tpms_world" where
  "limits_world = (demo_world 0 None)\<lparr>tpms := demo_profile\<lparr>page_16 := demo_limits\<rparr>\<rparr>"

definition demo_flash :: "string \<Rightarrow> bytes option" where
  "demo_flash = [''id'' \<mapsto> [0x34, 0x12], ''role'' \<mapsto> [2]]"

definition demo_ant_world :: "(u8 option, unit, unit) ant_world" where
  "demo_ant_world = tpms_world.extend (demo_world 0 None) \<lparr>tpms_channel_tpms_sens_config = sens_channel_config
     \<lparr>APP_VERSION_MAJOR = 0, APP_VERSION_MINOR = 0, HW_ID_LEN = 17, CHANNEL_TYPE_MASTER = 0x10\<rparr> 0\<rparr>"

definition demo_app :: app_config where
  "demo_app = \<lparr>APP_VERSION_MAJOR = 1, APP_VERSION_MINOR = 2, HW_ID_LEN = 17, CHANNEL_TYPE_MASTER = 0x10\<rparr>"

lemma good_rc_laws: "saves_succeed (store_env good_rc flash)" "stack_calls_succeed (store_env good_rc flash)"
  by (simp_all add: saves_succeed_def stack_calls_succeed_def channel_calls_succeed_def good_rc_def)

theorem sensor_data_page_1_witness:
  "uint (p1_pressure (page_1 (tpms (ant_sensor_data_handler_cb (uptime_env 5) demo_readings limits_world)))) = 2300
    \<and> bit (p1_alarms (page_1 (tpms (ant_sensor_data_handler_cb (uptime_env 5) demo_readings limits_world)))) 0
    \<and> \<not> bit (p1_alarms (page_1 (tpms (ant_sensor_data_handler_cb (uptime_env 5) demo_readings limits_world)))) 1"
proof -
  let ?d = "page_1 (tpms (ant_sensor_data_handler_cb (uptime_env 5) demo_readings limits_world))"
  have "uint (p1_pressure ?d) = (if (2300 :: int) \<le> 75 then 0 else 2300)
    \<and> (if 2000 \<noteq> (0xffff :: u16) \<and> 2200 \<noteq> (0xffff :: u16)
       then (bit (p1_alarms ?d) 0 \<longleftrightarrow> 2000 \<le> p1_pressure ?d) \<and> (bit (p1_alarms ?d) 1 \<longleftrightarrow> p1_pressure ?d \<le> 2200)
       else p1_alarms ?d = ANT_TPMS_ALARM_NONE)
    \<and> p1_role ?d = p1_role (page_1 (tpms limits_world))"
    by (rule sensor_data_page_1 [where ambient = 1013, OF _ _ _ _ _ _ refl])
      (simp_all add: demo_readings_def limits_world_def demo_limits_def DEFAULT_ANT_TPMS_page16_def
        ANT_TPMS_AMBIENT_DEFAULT_def)
  then show ?thesis by (simp add: word_le_def)
qed

theorem sensor_data_page_82_witness:
  "battery_status (page_82 (tpms (ant_sensor_data_handler_cb (uptime_env 5) demo_readings limits_world))) = BATTERY_STATE_GOOD
    \<and> BATTERY_STATE_GOOD \<le> battery_status (page_82 (tpms (ant_sensor_data_handler_cb (uptime_env 5)
        (demo_readings\<lparr>voltage_mv := 2400\<rparr>) limits_world)))"
  using sensor_data_page_82 [OF refl refl, where e = "uptime_env 5" and msg = demo_readings and w = limits_world
      and e' = "uptime_env 5" and msg' = "demo_readings\<lparr>voltage_mv := 2400\<rparr>" and w' = limits_world
      and hw = nrf52_hw]
  by (auto simp: demo_readings_def)

theorem config_handler_result_witness:
  "stored (store_env good_rc Map.empty) Map.empty
      (calls (ant_tpms_config_handler (store_env good_rc Map.empty) demo_limits (demo_world 0 None))) ''alL''
    = Some (le_bytes 2 (2000 :: u16))"
  using config_handler_result [OF good_rc_laws(1) refl refl refl, of Map.empty demo_limits "demo_world 0 None" Map.empty]
  by (simp add: demo_limits_def)

theorem start_ant_device_configured_witness:
  "\<exists>w'. start_ant_device demo_sdk demo_app (store_env good_rc demo_flash) demo_ant_world = Some (0, w')
    \<and> p1_role (page_1 (tpms w')) = 2 \<and> cfg_device_number (tpms_channel_tpms_sens_config w') = 0x1234"
proof -
  have s: "stored (store_env good_rc demo_flash) demo_flash (calls demo_ant_world) k = demo_flash k" for k
    by (simp add: demo_ant_world_def demo_world_def tpms_world.defs)
  then have id: "stored (store_env good_rc demo_flash) demo_flash (calls demo_ant_world) ''id'' = Some [0x34, 0x12]"
    by (simp add: demo_flash_def)
  have role: "p16_role (configured_page_16 (store_env good_rc demo_flash) demo_flash (calls demo_ant_world)) = 2"
    by (simp add: configured_page_16_def stored_or_def s) (simp add: demo_flash_def)
  have "uint16_decode [0x34, 0x12] 0 = 0x1234" by (simp add: uint16_decode_def)
  with start_ant_device_configured [OF store_env_backend refl good_rc_laws(1) demo_sdk_laws(1,3) good_rc_laws(2) id, of demo_app] role
  show ?thesis by fastforce
qed

theorem start_ant_device_fails_early_witness:
  "\<exists>cs. start_ant_device demo_sdk demo_app (store_env (\<lambda>_ _. - 5) Map.empty) demo_ant_world
      = Some (- 5, demo_ant_world\<lparr>calls := cs @ calls demo_ant_world\<rparr>)"
  using start_ant_device_fails_early [OF refl refl refl refl refl, of "store_env (\<lambda>_ _. - 5) Map.empty" demo_ant_world
      demo_sdk demo_app]
  by auto

end
