(* ===== verification/Spi.thy ===== *)
theory Spi
  imports Ant_App
begin

text \<open>
  Reception of sensor messages (\<open>spi.c\<close>) and the channel that carries them to the ANT application
  (\<open>zbus_com.c\<close>). A read of the bus fills the static buffer with the environment's \<open>env_spi_data\<close>.
  Publishing on the channel runs its only observer, the listener of \<open>ant.c\<close>, if zbus accepts the
  message. \<open>None\<close> is undefined behaviour: the conversion in the decoder, and the log message that
  dereferences a missing device.
\<close>

record ('rc, 'p80, 'p81) spi_world = "('rc, 'p80, 'p81) ant_world" +
  rx_buffer :: bytes

definition SPIM_INT_TRANSFER_DELAY_MS :: nat where [simp]: "SPIM_INT_TRANSFER_DELAY_MS = 0"

definition int_cb_handler :: "env \<Rightarrow> 'a world_scheme \<Rightarrow> 'a world_scheme" where
  "int_cb_handler e w = issue e (K_work_schedule Spim_receive_work SPIM_INT_TRANSFER_DELAY_MS) w"

text \<open>\<open>spim_dev_null\<close>: whether the devicetree macro yields no device.\<close>

definition spim_init :: "bool \<Rightarrow> env \<Rightarrow> 'a world_scheme \<Rightarrow> (int \<times> 'a world_scheme) option" where
  "spim_init spim_dev_null e w =
     (if spim_dev_null then None
      else let (ready, w1) = invoke e Device_is_ready w
        in if ready = 0 then Some (EXIT_FAILURE, w1)
        else let (ready, w2) = invoke e (Gpio_is_ready_dt Int_gpio) w1
        in if ready = 0 then Some (EXIT_FAILURE, w2)
        else let (ret, w3) = invoke e (Gpio_pin_configure_dt Int_gpio) w2
        in if ret \<noteq> 0 then Some (EXIT_FAILURE, w3)
        else let (ret, w4) = invoke e (Gpio_pin_interrupt_configure_dt Int_gpio GPIO_INT_EDGE_TO_ACTIVE) w3
        in if ret \<noteq> 0 then Some (EXIT_FAILURE, w4)
        else let w5 = issue e (Gpio_init_callback Int_gpio) w4;
                 (ret, w6) = invoke e (Gpio_add_callback Int_gpio) w5
        in if ret \<noteq> 0 then Some (EXIT_FAILURE, w6) else Some (EXIT_SUCCESS, w6))"

text \<open>Publication on \<open>sensor_data_chan\<close>, whose observer is \<open>ant_sensor_data_handler\<close>.\<close>

definition sensor_data_chan_pub ::
  "env \<Rightarrow> sensor_readings \<Rightarrow> ('rc, 'p80, 'p81, 'z) tpms_world_scheme
    \<Rightarrow> ('rc, 'p80, 'p81, 'z) tpms_world_scheme" where
  "sensor_data_chan_pub e msg w =
     (let (rc, w1) = invoke e (Zbus_chan_pub msg) w
      in if rc = 0 then ant_sensor_data_handler_cb e msg w1 else w1)"

definition spim_receive ::
  "env \<Rightarrow> ('rc, 'p80, 'p81, 'z) spi_world_scheme \<Rightarrow> ('rc, 'p80, 'p81, 'z) spi_world_scheme option" where
  "spim_receive e w =
     (let data = map (env_spi_data e (calls w)) [0..<SENSOR_BUFFER_SIZE];
          (err, w0) = invoke e Spi_read w;
          w1 = w0\<lparr>rx_buffer := data\<rparr>
      in if err < 0 then Some w1
         else case decode_sensor_buffer (rx_buffer w1) of
                None \<Rightarrow> None
              | Some (err, buf, sensor_data) \<Rightarrow>
                  let w2 = w1\<lparr>rx_buffer := buf\<rparr>
                  in Some (if err = SENSOR_ERROR_CHK then w2 else sensor_data_chan_pub e sensor_data w2))"

subsection \<open>Properties\<close>

lemma sensor_data_handler_frame:
  "ant_sensor_data_handler_cb e msg w = w\<lparr>calls := K_uptime_seconds # calls w,
     tpms := (tpms w)\<lparr>page_1 := page_1 (tpms (ant_sensor_data_handler_cb e msg w)),
       page_82 := page_82 (tpms (ant_sensor_data_handler_cb e msg w))\<rparr>\<rparr>"
  by (simp add: ant_sensor_data_handler_cb_def k_uptime_seconds_def Let_def split_def)

text \<open>
  Property C28: a failed read or a message with a wrong checksum changes nothing but the receive
  buffer: nothing is published, and profile, counters and retained data keep their state.
\<close>

theorem rejected_message_has_no_effect:
  assumes "data = map (env_spi_data e (calls w)) [0..<SENSOR_BUFFER_SIZE]"
    and "env_rc e (calls w) Spi_read < 0 \<or> xor_bytes data AND 0x7F \<noteq> 0"
    and "spim_receive e w = Some w'"
  shows "\<exists>buf. w' = w\<lparr>calls := Spi_read # calls w, rx_buffer := buf\<rparr>"
proof (cases "env_rc e (calls w) Spi_read < 0")
  case False
  then obtain rc b r where d: "decode_sensor_buffer data = Some (rc, b, r)"
    and w': "w' = (let w2 = w\<lparr>calls := Spi_read # calls w, rx_buffer := b\<rparr>
      in if rc = SENSOR_ERROR_CHK then w2 else sensor_data_chan_pub e r w2)"
    using assms(3) unfolding spim_receive_def assms(1) [symmetric]
    by (auto simp: invoke_def Let_def split: option.splits)
  have "length data = SENSOR_BUFFER_SIZE" by (simp add: assms(1))
  from decode_sensor_buffer_accepts(1,2) [OF this d] False assms(2) have "rc = SENSOR_ERROR_CHK"
    by blast
  with w' show ?thesis by (auto simp: Let_def)
qed (use assms(3) in \<open>auto simp: spim_receive_def invoke_def Let_def\<close>)

lemma accepted_receive:
  assumes "data = map (env_spi_data e (calls w)) [0..<SENSOR_BUFFER_SIZE]"
    and "env_rc e (calls w) Spi_read \<ge> 0" "decode_sensor_buffer data = Some (EXIT_SUCCESS, b, r)"
    and "env_rc e (Spi_read # calls w) (Zbus_chan_pub r) = 0"
  shows "spim_receive e w = Some (ant_sensor_data_handler_cb e r
    (w\<lparr>rx_buffer := b, calls := Zbus_chan_pub r # Spi_read # calls w\<rparr>))"
  using assms(2-4) unfolding spim_receive_def assms(1) [symmetric]
  by (simp add: invoke_def sensor_data_chan_pub_def sensor_consts)

text \<open>
  An accepted message is published once and updates only the pressure and alarms of
  page 1 and the battery data of page 82; all settings, identifiers and counters stay.
\<close>

theorem accepted_message_frame:
  assumes "data = map (env_spi_data e (calls w)) [0..<SENSOR_BUFFER_SIZE]"
    and "env_rc e (calls w) Spi_read \<ge> 0" "decode_sensor_buffer data = Some (EXIT_SUCCESS, b, r)"
    and "env_rc e (Spi_read # calls w) (Zbus_chan_pub r) = 0"
  shows "\<exists>w' d1 d82. spim_receive e w = Some w'
    \<and> calls w' = K_uptime_seconds # Zbus_chan_pub r # Spi_read # calls w
    \<and> w' = w\<lparr>rx_buffer := b, calls := calls w', tpms := (tpms w)\<lparr>page_1 := d1, page_82 := d82\<rparr>\<rparr>
    \<and> p1_role d1 = p1_role (page_1 (tpms w))
    \<and> battery_count d82 = battery_count (page_82 (tpms w)) \<and> battery_id d82 = battery_id (page_82 (tpms w))"
proof -
  let ?w1 = "w\<lparr>rx_buffer := b, calls := Zbus_chan_pub r # Spi_read # calls w\<rparr>"
  have s: "spim_receive e w = Some (ant_sensor_data_handler_cb e r ?w1)"
    by (rule accepted_receive [OF assms])
  define w' where "w' = ant_sensor_data_handler_cb e r ?w1"
  have f: "w' = ?w1\<lparr>calls := K_uptime_seconds # calls ?w1,
     tpms := (tpms ?w1)\<lparr>page_1 := page_1 (tpms w'), page_82 := page_82 (tpms w')\<rparr>\<rparr>"
    unfolding w'_def by (rule sensor_data_handler_frame)
  have c: "calls w' = K_uptime_seconds # Zbus_chan_pub r # Spi_read # calls w"
    by (subst f) simp
  have "w' = w\<lparr>rx_buffer := b, calls := calls w',
      tpms := (tpms w)\<lparr>page_1 := page_1 (tpms w'), page_82 := page_82 (tpms w')\<rparr>\<rparr>"
    unfolding c by (rule trans [OF f]) simp
  moreover have "p1_role (page_1 (tpms w')) = p1_role (page_1 (tpms w))"
    "battery_count (page_82 (tpms w')) = battery_count (page_82 (tpms w))"
    "battery_id (page_82 (tpms w')) = battery_id (page_82 (tpms w))"
    by (simp_all add: w'_def sensor_data_pages Let_def)
  ultimately show ?thesis
    using s c unfolding w'_def [symmetric]
    by (intro exI [of _ w'] exI [of _ "page_1 (tpms w')"] exI [of _ "page_82 (tpms w')"]) simp
qed

text \<open>
  Property C29: reception is undefined behaviour exactly when the read succeeds and the raw pressure
  code, read as a signed number, is negative or above 3912: the float is converted to an unsigned
  integer before the checksum is looked at, so line noise can trigger it.
\<close>

theorem receive_undefined_iff:
  "spim_receive e w = None \<longleftrightarrow>
     env_rc e (calls w) Spi_read \<ge> 0
     \<and> \<not> (0 \<le> sint (pressure_code (shift_buffer (map (env_spi_data e (calls w)) [0..<SENSOR_BUFFER_SIZE])))
        \<and> sint (pressure_code (shift_buffer (map (env_spi_data e (calls w)) [0..<SENSOR_BUFFER_SIZE]))) \<le> 3912)"
  unfolding spim_receive_def decode_sensor_buffer_def Let_def float_conversion
  by (auto simp: invoke_def Let_def simp del: upt_Suc SENSOR_BUFFER_SIZE_def)

text \<open>Whether a step of the initialisation failed, by the history before it.\<close>

definition step_failed :: "env \<Rightarrow> call list \<Rightarrow> call \<Rightarrow> bool" where
  "step_failed e h c \<longleftrightarrow> (if c = Device_is_ready \<or> c = Gpio_is_ready_dt Int_gpio then env_rc e h c = 0
     else env_rc e h c \<noteq> 0)"

text \<open>
  The initialisation of the receiver either succeeds, having configured the pin and its
  interrupt before the callback is added, or reports a failure, and then the last call issued is
  the one that failed and none before it did: nothing is done after a failure.
\<close>

theorem spim_init_result:
  "\<exists>rc w' c cs. spim_init False e w = Some (rc, w') \<and> calls w' = c # cs @ calls w
    \<and> (if rc = EXIT_SUCCESS
       then c # cs = [Gpio_add_callback Int_gpio, Gpio_init_callback Int_gpio,
              Gpio_pin_interrupt_configure_dt Int_gpio GPIO_INT_EDGE_TO_ACTIVE,
              Gpio_pin_configure_dt Int_gpio, Gpio_is_ready_dt Int_gpio, Device_is_ready]
            \<and> \<not> step_failed e (cs @ calls w) c
       else rc = EXIT_FAILURE \<and> step_failed e (cs @ calls w) c \<and> Gpio_add_callback Int_gpio \<notin> set cs)"
  by (auto simp: spim_init_def step_failed_def invoke_def Let_def EXIT_SUCCESS_def)

subsection \<open>Witnesses\<close>

definition demo_spi_world :: "(u8 option, unit, unit) spi_world" where
  "demo_spi_world = ant_world.extend demo_ant_world \<lparr>rx_buffer = []\<rparr>"

text \<open>An environment in which the bus delivers a given message.\<close>

definition spi_env :: "bytes \<Rightarrow> env" where
  "spi_env bs = (uptime_env 0)\<lparr>env_spi_data := \<lambda>_ i. bs ! i\<rparr>"

lemma spi_env_data: "length bs = 6 \<Longrightarrow> map (env_spi_data (spi_env bs) cs) [0..<SENSOR_BUFFER_SIZE] = bs"
  by (elim list6_cases) (simp add: spi_env_def upt_rec)

lemma spi_env_rc [simp]: "env_rc (spi_env bs) cs c = 0"
  by (simp add: spi_env_def uptime_env_def)

abbreviation good_frame :: bytes where "good_frame \<equiv> late_by_one True (sensor_frame 100 83 173 0)"

lemma good_frame: "length good_frame = 6" "map_option fst (decode_sensor_buffer good_frame) = Some EXIT_SUCCESS"
  by code_simp+

abbreviation bad_frame :: bytes where "bad_frame \<equiv> [0, 0, 1, 0, 0, 0]"

lemma bad_frame: "length bad_frame = 6" "xor_bytes bad_frame AND 0x7F \<noteq> 0"
  "map_option fst (decode_sensor_buffer bad_frame) = Some SENSOR_ERROR_CHK"
  by code_simp+

theorem rejected_message_has_no_effect_witness:
  "\<exists>buf. spim_receive (spi_env bad_frame) demo_spi_world
     = Some (demo_spi_world\<lparr>calls := Spi_read # calls demo_spi_world, rx_buffer := buf\<rparr>)"
proof -
  obtain b r where "decode_sensor_buffer bad_frame = Some (SENSOR_ERROR_CHK, b, r)"
    using decoded [OF bad_frame(3)] by blast
  then obtain w' where w': "spim_receive (spi_env bad_frame) demo_spi_world = Some w'"
    unfolding spim_receive_def spi_env_data [OF bad_frame(1)] by (simp add: invoke_def)
  have "xor_bytes (map (env_spi_data (spi_env bad_frame) (calls demo_spi_world)) [0..<SENSOR_BUFFER_SIZE]) AND 0x7F \<noteq> 0"
    unfolding spi_env_data [OF bad_frame(1)] by (rule bad_frame(2))
  from rejected_message_has_no_effect [OF refl disjI2 [OF this] w'] w' show ?thesis by auto
qed

theorem accepted_message_frame_witness:
  "\<exists>w' r. spim_receive (spi_env good_frame) demo_spi_world = Some w'
     \<and> calls w' = [K_uptime_seconds, Zbus_chan_pub r, Spi_read]"
proof -
  obtain b r where d: "decode_sensor_buffer good_frame = Some (EXIT_SUCCESS, b, r)"
    using decoded [OF good_frame(2)] by blast
  have "calls demo_spi_world = []"
    by (simp add: demo_spi_world_def demo_ant_world_def demo_world_def ant_world.defs tpms_world.defs)
  with accepted_message_frame [OF spi_env_data [OF good_frame(1), symmetric] _ d, of demo_spi_world]
  show ?thesis by auto
qed

end
