(* ===== verification/Scheduler.thy ===== *)
theory Scheduler
  imports Platform
begin

text \<open>
  Which calls an operation issues, and what they mean for the work items of the kernel. A work item
  is pending from the call that schedules or submits it until it runs or is cancelled; scheduling a
  pending item again leaves it pending. Delays are not modelled: pending items may run in any order.

  The locale \<open>call_contract\<close> is the interface between the components and the scheduler: an operation
  that issues only the calls it is allowed to leaves the work items of the others alone.
\<close>

subsection \<open>Issued calls\<close>

definition issues :: "call set \<Rightarrow> 'a world_scheme \<Rightarrow> 'b world_scheme \<Rightarrow> bool" where
  "issues A w w' \<longleftrightarrow> (\<exists>cs. calls w' = cs @ calls w \<and> set cs \<subseteq> A)"

definition new_calls :: "'a world_scheme \<Rightarrow> 'b world_scheme \<Rightarrow> call list" where
  "new_calls w w' = take (length (calls w') - length (calls w)) (calls w')"

lemma issues_refl [intro, simp]: "calls w' = calls w \<Longrightarrow> issues A w w'"
  by (simp add: issues_def)

lemma issues_trans [trans]: "issues A w w1 \<Longrightarrow> issues A w1 w2 \<Longrightarrow> issues A w w2"
  by (fastforce simp: issues_def)

lemma issues_mono: "issues A w w' \<Longrightarrow> A \<subseteq> B \<Longrightarrow> issues B w w'"
  by (auto simp: issues_def)

lemma issues_Cons: "issues A w w1 \<Longrightarrow> c \<in> A \<Longrightarrow> calls w2 = c # calls w1 \<Longrightarrow> issues A w w2"
  by (fastforce simp: issues_def)

lemma issues_same: "issues A w w1 \<Longrightarrow> calls w2 = calls w1 \<Longrightarrow> issues A w w2"
  by (simp add: issues_def)

lemma issues_invoke: "c \<in> A \<Longrightarrow> issues A w (snd (invoke e c w))"
  by (rule issues_Cons [OF issues_refl [OF refl]]) simp_all

lemma issues_issue: "c \<in> A \<Longrightarrow> issues A w (issue e c w)"
  unfolding issue_def by (rule issues_invoke)

lemma new_calls_eq: "calls w' = cs @ calls w \<Longrightarrow> new_calls w w' = cs"
  by (simp add: new_calls_def)

lemma issues_new_calls: "issues A w w' \<Longrightarrow> set (new_calls w w') \<subseteq> A"
  by (auto simp: issues_def new_calls_def)

subsection \<open>Work items\<close>

definition work_effect :: "call \<Rightarrow> work set \<Rightarrow> work set" where
  "work_effect c P = (case c of
       K_work_schedule wk _ \<Rightarrow> insert wk P
     | K_work_submit wk \<Rightarrow> insert wk P
     | K_work_cancel_delayable wk \<Rightarrow> P - {wk}
     | _ \<Rightarrow> P)"

text \<open>The effect of a history, latest call first.\<close>

definition effects :: "call list \<Rightarrow> work set \<Rightarrow> work set" where
  "effects cs P = foldr work_effect cs P"

lemma effects_simps [simp]:
  "effects [] P = P" "effects (c # cs) P = work_effect c (effects cs P)"
  "effects (cs @ ds) P = effects cs (effects ds P)"
  by (simp_all add: effects_def)

definition work_calls :: "work \<Rightarrow> call set" where
  "work_calls wk = {K_work_submit wk, K_work_cancel_delayable wk} \<union> range (K_work_schedule wk)"

lemma work_effect_other: "c \<notin> work_calls wk \<Longrightarrow> wk \<in> work_effect c P \<longleftrightarrow> wk \<in> P"
  by (auto simp: work_effect_def work_calls_def split: call.splits)

lemma effects_other: "set cs \<inter> work_calls wk = {} \<Longrightarrow> wk \<in> effects cs P \<longleftrightarrow> wk \<in> P"
  by (induction cs) (auto simp: work_effect_other)

subsection \<open>The contract\<close>

locale call_contract =
  fixes op :: "'a world_scheme \<Rightarrow> 'a world_scheme option" and allowed :: "call set"
  assumes op_issues: "op w = Some w' \<Longrightarrow> issues allowed w w'"
begin

lemma op_keeps_history: "op w = Some w' \<Longrightarrow> \<exists>cs. calls w' = cs @ calls w \<and> new_calls w w' = cs"
  using op_issues [of w w'] new_calls_eq [of w' _ w] by (fastforce simp: issues_def)

lemma op_keeps_work:
  assumes "op w = Some w'" "allowed \<inter> work_calls wk = {}"
  shows "wk \<in> effects (new_calls w w') P \<longleftrightarrow> wk \<in> P"
  using issues_new_calls [OF op_issues [OF assms(1)]] assms(2) by (intro effects_other) blast

lemma op_never_calls:
  assumes "op w = Some w'" "c \<notin> allowed"
  shows "c \<notin> set (new_calls w w')"
  using issues_new_calls [OF op_issues [OF assms(1)]] assms(2) by blast

end

text \<open>An operation that also keeps a property of the state.\<close>

locale keeping_contract = call_contract op allowed
  for op :: "'a world_scheme \<Rightarrow> 'a world_scheme option" and allowed +
  fixes kept :: "'a world_scheme \<Rightarrow> bool"
  assumes op_keeps: "op w = Some w' \<Longrightarrow> kept w \<Longrightarrow> kept w'"
begin

lemma op_run:
  assumes "op w = Some w'" "kept w"
  shows "kept w'" "allowed \<inter> work_calls wk = {} \<Longrightarrow> wk \<in> effects (new_calls w w') P \<longleftrightarrow> wk \<in> P"
  using op_keeps [OF assms] op_keeps_work [OF assms(1)] by blast+

end

end
