(* ===== verification/Bluetooth.thy ===== *)
theory Bluetooth
  imports Spi Scheduler
begin

text \<open>
  The Bluetooth service (\<open>bluetooth.c\<close>): the device name built from the device id, the
  characteristic that sets the id, advertising, the connection callbacks and the delayed shutdown.
  The Bluetooth stack is a set of calls; the constants of \<open>prj.conf\<close> the code uses are definitions
  here. The attribute table and the callbacks that only log are in \<open>Gatt\<close>.
\<close>

subsection \<open>Configuration\<close>

definition CONFIG_BT_DEVICE_NAME :: string where "CONFIG_BT_DEVICE_NAME = ''AIRSPY Community''"
definition CONFIG_BT_DEVICE_NAME_MAX :: nat where "CONFIG_BT_DEVICE_NAME_MAX = 23"
definition CONFIG_BT_DEVICE_APPEARANCE :: nat where "CONFIG_BT_DEVICE_APPEARANCE = 1152"
definition CONFIG_BT_MAX_CONN :: nat where "CONFIG_BT_MAX_CONN = 1"

definition BT_DISABLE_DELAY :: nat where [simp]: "BT_DISABLE_DELAY = 30000"
definition BT_DISABLE_RESCHEDULE :: nat where [simp]: "BT_DISABLE_RESCHEDULE = 500"
definition REBOOT_DELAY_MS :: nat where [simp]: "REBOOT_DELAY_MS = 250"
definition DEVICE_ID_SIZE :: u16 where [simp]: "DEVICE_ID_SIZE = 2"

subsection \<open>Advertising data\<close>

datatype bt_data_type = BT_DATA_FLAGS | BT_DATA_UUID128_ALL | BT_DATA_NAME_COMPLETE | BT_DATA_GAP_APPEARANCE

type_synonym bt_data = "bt_data_type \<times> bytes"

text \<open>The flags are the Bluetooth stack's \<open>BT_LE_AD_GENERAL | BT_LE_AD_NO_BREDR\<close>.\<close>

definition advertising_data :: "bt_data list" where
  "advertising_data =
     [(BT_DATA_FLAGS, [0x02 OR 0x04]),
      (BT_DATA_UUID128_ALL, [0x84, 0xaa, 0x60, 0x74, 0x52, 0x8a, 0x8b, 0x86,
         0xd3, 0x4c, 0xb7, 0x1d, 0x1d, 0xdc, 0x53, 0x8d])]"

definition initial_scan_data :: "bt_data list" where
  "initial_scan_data =
     [(BT_DATA_NAME_COMPLETE, []),
      (BT_DATA_GAP_APPEARANCE,
        [of_nat (drop_bit 0 CONFIG_BT_DEVICE_APPEARANCE mod 256),
         of_nat (drop_bit 8 CONFIG_BT_DEVICE_APPEARANCE mod 256)])]"

record ('rc, 'p80, 'p81) bt_world = "('rc, 'p80, 'p81) spi_world" +
  bt_name :: string
  scan_data :: "bt_data list"

subsection \<open>The device name\<close>

fun decimal :: "nat \<Rightarrow> string" where
  "decimal n = (if n < 10 then [char_of (48 + n)] else decimal (n div 10) @ [char_of (48 + n mod 10)])"

declare decimal.simps [simp del]

text \<open>\<open>%0<k>u\<close>: at least \<open>k\<close> digits, filled up with zeros.\<close>

definition zero_padded :: "nat \<Rightarrow> nat \<Rightarrow> string" where
  "zero_padded k n = (let ds = decimal n in replicate (k - length ds) CHR ''0'' @ ds)"

text \<open>\<open>snprintf\<close> into a buffer of \<open>n\<close> bytes keeps at most \<open>n - 1\<close> characters.\<close>

definition snprintf :: "nat \<Rightarrow> string \<Rightarrow> string" where
  "snprintf n str = take (n - 1) str"

definition formatted_name :: "u16 \<Rightarrow> string" where
  "formatted_name device_id = CONFIG_BT_DEVICE_NAME @ '' '' @ zero_padded 5 (unat device_id)"

definition device_name :: "u16 \<Rightarrow> string" where
  "device_name device_id = snprintf CONFIG_BT_DEVICE_NAME_MAX (formatted_name device_id)"

subsection \<open>The configuration service\<close>

definition reboot_work_wrapper :: "env \<Rightarrow> 'a world_scheme \<Rightarrow> 'a world_scheme" where
  "reboot_work_wrapper e w = issue e Sys_reboot w"

text \<open>\<open>memcpy\<close> of the first \<open>len\<close> bytes over a zero.\<close>

definition written_device_id :: "bytes \<Rightarrow> u16 \<Rightarrow> u16" where
  "written_device_id buf len = uint16_decode (take (unat len) buf @ replicate (2 - unat len) 0) 0"

definition cfg_srv_devid_chrx_on_write_cb ::
  "env \<Rightarrow> bytes \<Rightarrow> u16 \<Rightarrow> 'a world_scheme \<Rightarrow> int \<times> 'a world_scheme" where
  "cfg_srv_devid_chrx_on_write_cb e buf len w =
     (uint len,
      if len \<noteq> 0 \<and> len \<le> DEVICE_ID_SIZE
      then let device_id = written_device_id buf len;
               (rc, w1) = invoke e (Settings_save_one DEVICE_ID_SETTINGS_KEY (le_bytes 2 device_id)) w
           in if rc \<noteq> 0 then w1 else issue e (K_work_schedule Reboot_work REBOOT_DELAY_MS) w1
      else w)"

subsection \<open>Advertising, connections and shutdown\<close>

definition advertise :: "env \<Rightarrow> 'a world_scheme \<Rightarrow> 'a world_scheme" where
  "advertise e w = issue e Bt_le_adv_start w"

definition connected :: "env \<Rightarrow> u8 \<Rightarrow> 'a world_scheme \<Rightarrow> 'a world_scheme" where
  "connected e err w = (if err \<noteq> 0 then w else issue e (K_work_cancel_delayable Disable_bt_work) w)"

definition disconnected :: "env \<Rightarrow> 'a world_scheme \<Rightarrow> 'a world_scheme" where
  "disconnected e w =
     issue e (K_work_schedule Disable_bt_work BT_DISABLE_DELAY) (issue e (K_work_submit Advertise_work) w)"

definition shutdown_bluetooth :: "env \<Rightarrow> 'a world_scheme \<Rightarrow> int \<times> 'a world_scheme" where
  "shutdown_bluetooth e w =
     (let (rc, w1) = invoke e Bt_le_adv_stop w
      in if rc \<noteq> 0 then (rc, w1)
         else let (rc, w2) = invoke e Smp_bt_unregister w1
              in if rc \<noteq> 0 then (rc, w2) else invoke e Bt_disable w2)"

definition disable_bt :: "env \<Rightarrow> 'a world_scheme \<Rightarrow> 'a world_scheme" where
  "disable_bt e w =
     (let (rc, w1) = shutdown_bluetooth e w
      in if rc \<noteq> 0 then issue e (K_work_schedule Disable_bt_work BT_DISABLE_RESCHEDULE) w1 else w1)"

subsection \<open>Start\<close>

definition bt_ready ::
  "env \<Rightarrow> int \<Rightarrow> ('rc, 'p80, 'p81, 'z) bt_world_scheme \<Rightarrow> ('rc, 'p80, 'p81, 'z) bt_world_scheme" where
  "bt_ready e err w =
     (if err \<noteq> 0 then w
      else let w1 = issue e Bt_conn_auth_cb_register w;
               ((rc, device_id), w2) = load_immediate_value e DEVICE_ID_SETTINGS_KEY (junk_bytes e 2 w) 2 w1
           in if rc = EXIT_SUCCESS
              then let name = device_name (uint16_decode device_id 0);
                       w3 = w2\<lparr>bt_name := name,
                               scan_data := (scan_data w2)[0 := (BT_DATA_NAME_COMPLETE, map of_char name)]\<rparr>;
                       w4 = issue e (Bt_set_name name) w3;
                       w5 = issue e (K_work_submit Advertise_work) w4
                   in issue e (K_work_schedule Disable_bt_work BT_DISABLE_DELAY) w5
              else w2)"

definition start_bluetooth_services :: "env \<Rightarrow> 'a world_scheme \<Rightarrow> 'a world_scheme" where
  "start_bluetooth_services e w = issue e Bt_enable (issue e Logger_backend_ble_set_hook w)"

subsection \<open>The name: properties\<close>

definition digit_value :: "char \<Rightarrow> nat" where "digit_value c = of_char c - 48"

definition number_of :: "string \<Rightarrow> nat" where
  "number_of s = foldl (\<lambda>a c. a * 10 + digit_value c) 0 s"

lemma number_of_append: "number_of (s @ [c]) = number_of s * 10 + digit_value c"
  by (simp add: number_of_def)

lemma digit_value_digit: "d < 10 \<Longrightarrow> digit_value (char_of (48 + d)) = d"
  by (simp add: digit_value_def)

lemma number_of_decimal: "number_of (decimal n) = n"
proof (induction n rule: decimal.induct)
  case (1 n)
  show ?case
  proof (cases "n < 10")
    case False
    then have "decimal n = decimal (n div 10) @ [char_of (48 + n mod 10)]"
      by (subst decimal.simps) simp
    then show ?thesis
      using 1 False digit_value_digit [of "n mod 10"] by (simp add: number_of_append)
  qed (subst decimal.simps, simp add: number_of_def digit_value_digit)
qed

lemma number_of_zeros: "number_of (replicate k CHR ''0'' @ s) = number_of s"
proof -
  have "foldl (\<lambda>a c. a * 10 + digit_value c) 0 (replicate k CHR ''0'') = 0"
    by (induction k) (simp_all add: digit_value_def)
  then show ?thesis by (simp add: number_of_def)
qed

lemma length_decimal: "n < 10 ^ Suc k \<Longrightarrow> length (decimal n) \<le> Suc k"
proof (induction k arbitrary: n)
  case 0 then show ?case by (subst decimal.simps) simp
next
  case (Suc k)
  show ?case
  proof (cases "n < 10")
    case False
    have "n div 10 < 10 ^ Suc k" using Suc.prems by (simp add: less_mult_imp_div_less)
    from Suc.IH [OF this] False show ?thesis by (subst decimal.simps) simp
  qed (subst decimal.simps, simp)
qed

lemma zero_padded_facts:
  "number_of (zero_padded k n) = n" "n < 100000 \<Longrightarrow> length (zero_padded 5 n) = 5"
  using length_decimal [of n 4] by (simp_all add: zero_padded_def Let_def number_of_zeros number_of_decimal)

lemma device_name_full: "device_name i = formatted_name i" "length (device_name i) = 22"
proof -
  have "unat i < 100000" using unsigned_less [of i, where 'a = nat] by simp
  then have "length (formatted_name i) = 22"
    by (simp add: formatted_name_def zero_padded_facts CONFIG_BT_DEVICE_NAME_def)
  then show "device_name i = formatted_name i" "length (device_name i) = 22"
    by (simp_all add: device_name_def snprintf_def CONFIG_BT_DEVICE_NAME_MAX_def)
qed

text \<open>Size of advertising data on the air: two bytes and the data for each element.\<close>

definition adv_size :: "bt_data list \<Rightarrow> nat" where
  "adv_size ads = sum_list (map (\<lambda>(_, d). length d + 2) ads)"

text \<open>
  The name Bluetooth shows is never cut short by its buffer, differs for different
  device ids, and fits the scan response with the appearance (31 bytes at most), as does the
  advertising data.
\<close>

theorem device_name_unique:
  "device_name i = formatted_name i \<and> (device_name i = device_name j \<longleftrightarrow> i = j)
    \<and> length (device_name i) < CONFIG_BT_DEVICE_NAME_MAX
    \<and> adv_size (initial_scan_data[0 := (BT_DATA_NAME_COMPLETE, map of_char (device_name i))]) \<le> 31
    \<and> adv_size advertising_data \<le> 31"
proof -
  have "i = j" if "device_name i = device_name j"
  proof -
    have "zero_padded 5 (unat i) = zero_padded 5 (unat j)"
      using that by (simp add: device_name_full(1) formatted_name_def)
    then have "unat i = unat j" by (metis zero_padded_facts(1))
    then show ?thesis by (simp add: word_unat_eq_iff)
  qed
  moreover have "adv_size (initial_scan_data[0 := (BT_DATA_NAME_COMPLETE, map of_char (device_name i))]) \<le> 31"
    by (simp add: adv_size_def initial_scan_data_def device_name_full(2))
  ultimately show ?thesis
    using device_name_full(2) [of i]
    by (auto simp: device_name_full(1) CONFIG_BT_DEVICE_NAME_MAX_def adv_size_def advertising_data_def)
qed

lemma device_id_length: "len \<noteq> 0 \<and> len \<le> DEVICE_ID_SIZE \<longleftrightarrow> len = 1 \<or> len = 2" for len :: u16
proof -
  have "len = 0 \<longleftrightarrow> unat len = 0" "len = 1 \<longleftrightarrow> unat len = 1" "len = 2 \<longleftrightarrow> unat len = 2"
    "len \<le> DEVICE_ID_SIZE \<longleftrightarrow> unat len \<le> 2"
    by (simp_all add: word_unat_eq_iff word_le_nat_alt)
  then show ?thesis by linarith
qed

lemma write_id_accepted:
  assumes "len = 1 \<or> len = 2"
    and "env_rc e (calls w) (Settings_save_one ''id'' (le_bytes 2 (written_device_id buf len))) = 0"
  shows "cfg_srv_devid_chrx_on_write_cb e buf len w = (uint len, w\<lparr>calls :=
    [K_work_schedule Reboot_work 250, Settings_save_one ''id'' (le_bytes 2 (written_device_id buf len))] @ calls w\<rparr>)"
proof -
  have "len \<noteq> 0 \<and> len \<le> DEVICE_ID_SIZE" using assms(1) unfolding device_id_length .
  then show ?thesis using assms(2) by (simp add: cfg_srv_devid_chrx_on_write_cb_def invoke_def Let_def)
qed

lemma write_id_calls:
  assumes "len = 1 \<or> len = 2"
    and "env_rc e (calls w) (Settings_save_one ''id'' (le_bytes 2 (written_device_id buf len))) = 0"
  shows "new_calls w (snd (cfg_srv_devid_chrx_on_write_cb e buf len w))
    = [K_work_schedule Reboot_work 250, Settings_save_one ''id'' (le_bytes 2 (written_device_id buf len))]"
  by (rule new_calls_eq) (simp add: write_id_accepted [OF assms])

lemma le_bytes_decode: "le_bytes 2 (uint16_decode [b0, b1] 0) = [b0, b1]"
proof -
  have "byte_of 0 (uint16_decode [b0, b1] 0) = b0" "byte_of 1 (uint16_decode [b0, b1] 0) = b1"
    by (rule bit_word_eqI; simp add: bit_byte_of uint16_decode_bit)+
  then show ?thesis by (simp add: le_bytes_def upt_rec)
qed

lemma written_device_id_bytes:
  "length buf = unat len \<Longrightarrow> len = 1 \<or> len = 2 \<Longrightarrow>
     le_bytes 2 (written_device_id buf len) = (if len = 1 then [buf ! 0, 0] else buf)"
proof (elim disjE)
  assume l: "length buf = unat len" and 1: "len = 1"
  then obtain b0 where "buf = [b0]" by (auto simp: length_Suc_conv)
  with 1 show ?thesis by (simp add: written_device_id_def le_bytes_decode)
next
  assume l: "length buf = unat len" and 2: "len = 2"
  then have "length buf = 2" by simp
  then obtain b0 b1 where "buf = [b0, b1]" by (auto simp: length_Suc_conv numeral_2_eq_2)
  with 2 show ?thesis by (simp add: written_device_id_def le_bytes_decode)
qed

text \<open>
  A written device id of one or two bytes is stored little-endian, filled up with
  zero, and if saving it succeeds the device reboots into it; a write of any other length changes
  nothing. Every write is acknowledged in full. (A written id of 0 is stored as well, although
  the profile reserves it.)
\<close>

lemma device_id_stored:
  assumes "saves_succeed e" "length buf = unat len"
    and "(ret, w') = cfg_srv_devid_chrx_on_write_cb e buf len w"
  shows "ret = uint len
    \<and> (if len = 1 \<or> len = 2
       then stored e flash (calls w') ''id'' = Some (if len = 1 then [buf ! 0, 0] else buf)
          \<and> Reboot_work \<in> effects (new_calls w w') P
          \<and> (\<forall>k. k \<noteq> ''id'' \<longrightarrow> stored e flash (calls w') k = stored e flash (calls w) k)
       else w' = w)"
proof (cases "len = 1 \<or> len = 2")
  case True
  let ?b = "if len = 1 then [buf ! 0, 0] else buf"
  have w': "ret = uint len" "calls w' = K_work_schedule Reboot_work 250 # Settings_save_one ''id'' ?b # calls w"
    using assms(1,3) True written_device_id_bytes [OF assms(2) True]
    unfolding cfg_srv_devid_chrx_on_write_cb_def device_id_length
    by (simp_all add: Let_def split_def saves_succeed_def)
  have "new_calls w w' = [K_work_schedule Reboot_work 250, Settings_save_one ''id'' ?b]"
    using w'(2) by (simp add: new_calls_def)
  moreover have "stored e flash (calls w') = (stored e flash (calls w))(''id'' := Some ?b)"
    unfolding w'(2) by (rule ext) (simp add: stored_save [OF assms(1)] del: stored.simps(2))
  ultimately show ?thesis
    using w'(1) True by (simp add: work_effect_def)
next
  case False
  then show ?thesis using assms(3) unfolding cfg_srv_devid_chrx_on_write_cb_def device_id_length by simp
qed

subsection \<open>The life of the Bluetooth service\<close>

text \<open>
  The service between \<open>bt_ready\<close> and its shutdown as a step relation: the state of the program, the
  pending work items, whether the set-up is complete and not yet shut down, and the number of
  connections. Connections are limited by \<open>CONFIG_BT_MAX_CONN\<close>; shutting down drops them.
\<close>

record 'w bt_sys =
  bs_world :: 'w
  bs_pending :: "work set"
  bs_running :: bool
  bs_conns :: nat

definition bs_call :: "('a world_scheme \<Rightarrow> 'a world_scheme) \<Rightarrow> work set \<Rightarrow> 'a world_scheme bt_sys \<Rightarrow> 'a world_scheme bt_sys" where
  "bs_call f taken s = (let w = bs_world s; w' = f w
     in s\<lparr>bs_world := w', bs_pending := effects (new_calls w w') (bs_pending s - taken)\<rparr>)"

definition bt_ready_ok :: "env \<Rightarrow> int \<Rightarrow> 'a world_scheme \<Rightarrow> bool" where
  "bt_ready_ok e err w \<longleftrightarrow> err = 0 \<and> fst (fst (load_immediate_value e DEVICE_ID_SETTINGS_KEY (junk_bytes e 2 w) 2
     (issue e Bt_conn_auth_cb_register w))) = EXIT_SUCCESS"

inductive bt_step ::
  "env \<Rightarrow> ('rc, 'p80, 'p81, 'z) bt_world_scheme bt_sys \<Rightarrow> ('rc, 'p80, 'p81, 'z) bt_world_scheme bt_sys \<Rightarrow> bool"
  for e where
  step_ready: "\<not> bs_running s \<Longrightarrow>
    bt_step e s ((bs_call (bt_ready e err) {} s)\<lparr>bs_running := bt_ready_ok e err (bs_world s)\<rparr>)"
| step_connect: "bs_running s \<Longrightarrow> bs_conns s < CONFIG_BT_MAX_CONN \<Longrightarrow>
    bt_step e s ((bs_call (connected e 0) {} s)\<lparr>bs_conns := bs_conns s + 1\<rparr>)"
| step_connect_failed: "err \<noteq> 0 \<Longrightarrow> bt_step e s (bs_call (connected e err) {} s)"
| step_disconnect: "0 < bs_conns s \<Longrightarrow>
    bt_step e s ((bs_call (disconnected e) {} s)\<lparr>bs_conns := bs_conns s - 1\<rparr>)"
| step_advertise: "Advertise_work \<in> bs_pending s \<Longrightarrow>
    bt_step e s (bs_call (advertise e) {Advertise_work} s)"
| step_disable: "Disable_bt_work \<in> bs_pending s \<Longrightarrow>
    failed = (fst (shutdown_bluetooth e (bs_world s)) \<noteq> 0) \<Longrightarrow>
    bt_step e s ((bs_call (disable_bt e) {Disable_bt_work} s)
      \<lparr>bs_running := bs_running s \<and> failed, bs_conns := if failed then bs_conns s else 0\<rparr>)"
| step_write: "bt_step e s (bs_call (snd \<circ> cfg_srv_devid_chrx_on_write_cb e buf len) {} s)"

inductive_cases bt_stepE: "bt_step e s t"

definition bt_init :: "'w bt_sys \<Rightarrow> bool" where
  "bt_init s \<longleftrightarrow> \<not> bs_running s \<and> bs_conns s = 0 \<and> Disable_bt_work \<notin> bs_pending s"

definition bt_inv :: "'w bt_sys \<Rightarrow> bool" where
  "bt_inv s \<longleftrightarrow> bs_conns s \<le> CONFIG_BT_MAX_CONN \<and> (0 < bs_conns s \<longrightarrow> bs_running s)
     \<and> (bs_running s \<longrightarrow> (Disable_bt_work \<in> bs_pending s \<longleftrightarrow> bs_conns s = 0))"

lemma new_calls_bt:
  "new_calls w (connected e err w) = (if err \<noteq> 0 then [] else [K_work_cancel_delayable Disable_bt_work])"
  "new_calls w (disconnected e w) = [K_work_schedule Disable_bt_work 30000, K_work_submit Advertise_work]"
  "new_calls w (advertise e w) = [Bt_le_adv_start]"
  by (simp_all add: new_calls_def connected_def disconnected_def advertise_def)

lemma load_new_calls: "calls (snd (load_immediate_value e name dest len w)) = Settings_load_subtree_direct name # calls w"
  by (simp add: load_immediate_value_def Let_def split_def)

lemma bt_ready_pending:
  "Disable_bt_work \<in> effects (new_calls w (bt_ready e err w)) P
    \<longleftrightarrow> bt_ready_ok e err w \<or> Disable_bt_work \<in> P"
proof -
  let ?l = "load_immediate_value e ''id'' (junk_bytes e 2 w) 2 (issue e Bt_conn_auth_cb_register w)"
  have "calls (snd ?l) = [Settings_load_subtree_direct ''id'', Bt_conn_auth_cb_register] @ calls w"
    by (simp add: load_new_calls del: issue_simp) simp
  then have "new_calls w (bt_ready e err w) =
      (if bt_ready_ok e err w
       then [K_work_schedule Disable_bt_work 30000, K_work_submit Advertise_work,
         Bt_set_name (device_name (uint16_decode (snd (fst ?l)) 0)),
         Settings_load_subtree_direct ''id'', Bt_conn_auth_cb_register]
       else if err = 0 then [Settings_load_subtree_direct ''id'', Bt_conn_auth_cb_register] else [])"
    by (intro new_calls_eq) (simp add: bt_ready_def bt_ready_ok_def Let_def split_def)
  then show ?thesis by (auto simp: work_effect_def bt_ready_ok_def)
qed

lemma shutdown_calls:
  "issues {Bt_le_adv_stop, Smp_bt_unregister, Bt_disable} w (snd (shutdown_bluetooth e w))"
  by (auto simp: shutdown_bluetooth_def issues_def Let_def invoke_def)

lemma disable_bt_pending:
  "Disable_bt_work \<in> effects (new_calls w (disable_bt e w)) (P - {Disable_bt_work})
    \<longleftrightarrow> fst (shutdown_bluetooth e w) \<noteq> 0"
proof -
  obtain cs where cs: "calls (snd (shutdown_bluetooth e w)) = cs @ calls w"
    "set cs \<subseteq> {Bt_le_adv_stop, Smp_bt_unregister, Bt_disable}"
    using shutdown_calls [of w e] by (auto simp: issues_def)
  then have "new_calls w (disable_bt e w) = (if fst (shutdown_bluetooth e w) \<noteq> 0
      then K_work_schedule Disable_bt_work 500 # cs else cs)"
    by (intro new_calls_eq) (simp add: disable_bt_def Let_def split_def)
  moreover have "Disable_bt_work \<in> effects cs (P - {Disable_bt_work}) \<longleftrightarrow> Disable_bt_work \<in> P - {Disable_bt_work}"
    using cs(2) by (intro effects_other) (auto simp: work_calls_def)
  ultimately show ?thesis by (simp add: work_effect_def)
qed

lemma write_pending:
  "Disable_bt_work \<in> effects (new_calls w (snd (cfg_srv_devid_chrx_on_write_cb e buf len w))) P
    \<longleftrightarrow> Disable_bt_work \<in> P"
proof -
  have "issues ({Settings_save_one ''id'' (le_bytes 2 (written_device_id buf len))} \<union> work_calls Reboot_work)
      w (snd (cfg_srv_devid_chrx_on_write_cb e buf len w))"
    by (auto simp: cfg_srv_devid_chrx_on_write_cb_def issues_def work_calls_def Let_def invoke_def)
  from issues_new_calls [OF this] show ?thesis by (intro effects_other) (auto simp: work_calls_def)
qed

lemma bt_inv_step: "bt_inv s \<Longrightarrow> bt_step e s t \<Longrightarrow> bt_inv t"
  by (erule bt_stepE)
    (auto simp: bt_inv_def bs_call_def Let_def bt_ready_pending disable_bt_pending write_pending new_calls_bt
      work_effect_def CONFIG_BT_MAX_CONN_def)

interpretation bt: invariant_machine bt_init "bt_step e" bt_inv for e
  by unfold_locales (simp add: bt_inv_def bt_init_def, erule (1) bt_inv_step)

text \<open>
  Property C15: in every order of start, connections, disconnections, failed connections, writes and
  expiring timers, the service that is up is about to be shut down exactly when nobody is
  connected: it is never left on for good, and never shut down under a connection.
\<close>

theorem bluetooth_shutdown_pending:
  assumes "reachable bt_init (bt_step e) s" "bs_running s"
  shows "(Disable_bt_work \<in> bs_pending s \<longleftrightarrow> bs_conns s = 0) \<and> bs_conns s \<le> 1"
  using bt.inv_reachable [OF assms(1)] assms(2) by (simp add: bt_inv_def CONFIG_BT_MAX_CONN_def)

lemma disable_bt_unregistered:
  assumes "\<And>cs post. env_rc e post Smp_bt_unregister = 0
      \<Longrightarrow> env_rc e (cs @ Smp_bt_unregister # post) Smp_bt_unregister \<noteq> 0"
    and "calls w = pre @ Smp_bt_unregister # post" "env_rc e post Smp_bt_unregister = 0"
  shows "\<exists>cs. calls (disable_bt e w) = K_work_schedule Disable_bt_work 500 # cs @ calls w \<and> Bt_disable \<notin> set cs"
proof (cases "env_rc e (calls w) Bt_le_adv_stop = 0")
  case True
  have "env_rc e (Bt_le_adv_stop # calls w) Smp_bt_unregister \<noteq> 0"
    using assms(1) [OF assms(3), of "Bt_le_adv_stop # pre"] assms(2) by simp
  with True show ?thesis
    by (intro exI [of _ "[Smp_bt_unregister, Bt_le_adv_stop]"])
      (simp add: disable_bt_def shutdown_bluetooth_def Let_def invoke_def)
next
  case False
  then show ?thesis
    by (intro exI [of _ "[Bt_le_adv_stop]"]) (simp add: disable_bt_def shutdown_bluetooth_def Let_def invoke_def)
qed

text \<open>
  Property C38: a shutdown that fails at its last step cannot be repeated. If unregistering the
  update service fails once the service is unregistered, then after a first attempt that got past
  that step every further attempt stops there: Bluetooth is never disabled, and the retry is
  scheduled every 500 ms for ever.
\<close>

theorem shutdown_retry_stuck:
  assumes "\<And>cs post. env_rc e post Smp_bt_unregister = 0
      \<Longrightarrow> env_rc e (cs @ Smp_bt_unregister # post) Smp_bt_unregister \<noteq> 0"
    and "env_rc e (calls w) Bt_le_adv_stop = 0" "env_rc e (Bt_le_adv_stop # calls w) Smp_bt_unregister = 0"
    and "env_rc e (Smp_bt_unregister # Bt_le_adv_stop # calls w) Bt_disable \<noteq> 0"
  shows "\<exists>cs. calls ((disable_bt e ^^ Suc n) w)
      = K_work_schedule Disable_bt_work 500 # cs @ Bt_disable # Smp_bt_unregister # Bt_le_adv_stop # calls w
    \<and> Bt_disable \<notin> set cs"
proof (induction n)
  case 0
  show ?case
    using assms(2-4) by (intro exI [of _ "[]"])
      (simp add: disable_bt_def shutdown_bluetooth_def Let_def invoke_def)
next
  case (Suc n)
  then obtain cs where cs: "calls ((disable_bt e ^^ Suc n) w) = K_work_schedule Disable_bt_work 500
      # cs @ Bt_disable # Smp_bt_unregister # Bt_le_adv_stop # calls w" "Bt_disable \<notin> set cs" by blast
  have "calls ((disable_bt e ^^ Suc n) w) = (K_work_schedule Disable_bt_work 500 # cs @ [Bt_disable])
      @ Smp_bt_unregister # Bt_le_adv_stop # calls w" using cs(1) by simp
  from disable_bt_unregistered [OF assms(1) this assms(3)]
  obtain ds where ds: "calls (disable_bt e ((disable_bt e ^^ Suc n) w))
      = K_work_schedule Disable_bt_work 500 # ds @ calls ((disable_bt e ^^ Suc n) w)" "Bt_disable \<notin> set ds"
    by blast
  show ?case
    by (rule exI [of _ "ds @ K_work_schedule Disable_bt_work 500 # cs"])
      (use ds cs in simp)
qed

subsection \<open>Witnesses\<close>

definition demo_bt_world :: "(u8 option, unit, unit) bt_world" where
  "demo_bt_world = spi_world.extend demo_spi_world \<lparr>bt_name = [], scan_data = initial_scan_data\<rparr>"

lemma demo_bt_world_calls [simp]: "calls demo_bt_world = []"
  by (simp add: demo_bt_world_def demo_spi_world_def demo_ant_world_def demo_world_def spi_world.defs
      ant_world.defs tpms_world.defs)

theorem bluetooth_shutdown_pending_witness:
  "\<exists>s. reachable bt_init (bt_step (store_env good_rc demo_flash)) s \<and> bs_running s
     \<and> bs_world s = bt_ready (store_env good_rc demo_flash) 0 demo_bt_world \<and> Disable_bt_work \<in> bs_pending s"
proof -
  let ?e = "store_env good_rc demo_flash"
  define s :: "(u8 option, unit, unit) bt_world bt_sys" where
    "s = \<lparr>bs_world = demo_bt_world, bs_pending = {}, bs_running = False, bs_conns = 0\<rparr>"
  let ?t = "(bs_call (bt_ready ?e 0) {} s)\<lparr>bs_running := bt_ready_ok ?e 0 (bs_world s)\<rparr>"
  have "reachable bt_init (bt_step ?e) s" by (rule reach_init) (simp add: bt_init_def s_def)
  then have r: "reachable bt_init (bt_step ?e) ?t" by (rule reach_step) (rule step_ready, simp add: s_def)
  have "bt_ready_ok ?e 0 demo_bt_world"
    by (simp add: bt_ready_ok_def load_result [OF store_env_backend] EXIT_SUCCESS_def)
      (simp add: demo_flash_def)
  then have run: "bs_running ?t" by (simp add: s_def)
  from bluetooth_shutdown_pending [OF r run] have "Disable_bt_work \<in> bs_pending ?t"
    by (simp add: bs_call_def s_def Let_def)
  with r run show ?thesis by (intro exI [of _ ?t]) (simp add: bs_call_def s_def Let_def)
qed

text \<open>An environment in which disabling fails and a service can be unregistered only once.\<close>

definition once_rc :: "call list \<Rightarrow> call \<Rightarrow> int" where
  "once_rc cs c = (if c = Bt_disable then - 16
     else if c = Smp_bt_unregister \<and> Smp_bt_unregister \<in> set cs then - 2 else 0)"

theorem shutdown_retry_stuck_witness:
  "\<exists>cs. calls ((disable_bt (store_env once_rc Map.empty) ^^ Suc 9) demo_bt_world)
     = K_work_schedule Disable_bt_work 500 # cs @ [Bt_disable, Smp_bt_unregister, Bt_le_adv_stop]
     \<and> Bt_disable \<notin> set cs"
  using shutdown_retry_stuck [of "store_env once_rc Map.empty" demo_bt_world 9]
  by (simp add: once_rc_def)

end
