(* ===== verification/Main_App.thy ===== *)
theory Main_App
  imports Bluetooth
begin

text \<open>
  The main program (\<open>main.c\<close>): boot accounting and the start of all services, the supervision of the
  wake signal that switches the device off, and the callback of the firmware update that makes
  the next boot enable Bluetooth.

  \<open>poweroff\<close> does not return once the system is off; its result says whether it did. Settings and
  the ANT device may loop for ever, so \<open>main\<close> has an option result.
\<close>

definition SUPERVISION_CYCLE_TIME_MS :: nat where [simp]: "SUPERVISION_CYCLE_TIME_MS = 1000"
definition SYS_POWEROFF_DELAY :: nat where [simp]: "SYS_POWEROFF_DELAY = 500"

datatype mgmt_event = MGMT_EVT_OP_IMG_MGMT_DFU_PENDING | MGMT_EVT_OTHER u32

subsection \<open>Callbacks and work items\<close>

definition dfu_pending_cb ::
  "hw \<Rightarrow> env \<Rightarrow> mgmt_event \<Rightarrow> 'a retained_world_scheme \<Rightarrow> 'a retained_world_scheme" where
  "dfu_pending_cb hw e event w =
     (if event = MGMT_EVT_OP_IMG_MGMT_DFU_PENDING
      then retained_update hw e (w\<lparr>retained_obj := (retained_obj w)\<lparr>boots := 0\<rparr>\<rparr>) else w)"

definition poweroff :: "hw \<Rightarrow> env \<Rightarrow> 'a retained_world_scheme \<Rightarrow> bool \<times> 'a retained_world_scheme" where
  "poweroff hw e w =
     (let (ret, w1) = invoke e (Gpio_pin_interrupt_configure_dt Wake_signal GPIO_INT_LEVEL_ACTIVE) w
      in if ret \<noteq> 0 then (False, issue e (K_work_schedule Supervision_work SUPERVISION_CYCLE_TIME_MS) w1)
         else let w2 = w1\<lparr>retained_obj := (retained_obj w1)\<lparr>off_count := off_count (retained_obj w1) + 1\<rparr>\<rparr>
              in (True, issue e Sys_poweroff (retained_update hw e w2)))"

definition supervise :: "env \<Rightarrow> 'a world_scheme \<Rightarrow> 'a world_scheme" where
  "supervise e w =
     (let (val, w1) = invoke e (Gpio_pin_get_dt Wake_signal) w
      in if val = 0 then issue e (K_work_schedule Poweroff_work SYS_POWEROFF_DELAY) w1
         else issue e (K_work_schedule Supervision_work SUPERVISION_CYCLE_TIME_MS) w1)"

subsection \<open>main\<close>

text \<open>The last part of \<open>main\<close>: wake signal, sensor receiver and supervision.\<close>

definition main_power_management ::
  "env \<Rightarrow> 'a world_scheme \<Rightarrow> (int \<times> 'a world_scheme) option" where
  "main_power_management e w =
     (let (ready, w1) = invoke e (Gpio_is_ready_dt Wake_signal) w
      in if ready = 0 then Some (EXIT_FAILURE, w1)
         else let (ret, w2) = invoke e (Gpio_pin_configure_dt Wake_signal) w1
              in if ret \<noteq> 0 then Some (EXIT_FAILURE, w2)
                 else map_option (\<lambda>(_, w3).
                     (EXIT_SUCCESS, issue e (K_work_schedule Supervision_work SUPERVISION_CYCLE_TIME_MS) w3))
                   (spim_init False e w2))"

definition main ::
  "('rc, 'p80, 'p81) ant_sdk \<Rightarrow> app_config \<Rightarrow> hw \<Rightarrow> env \<Rightarrow> ('rc, 'p80, 'p81, 'z) bt_world_scheme
    \<Rightarrow> (int \<times> ('rc, 'p80, 'p81, 'z) bt_world_scheme) option" where
  "main sdk cfg hw e w =
     (case retained_validate hw e w of
        None \<Rightarrow> None
      | Some (retained_ok, w1) \<Rightarrow>
          let w2 = retained_update hw e (w1\<lparr>retained_obj := (retained_obj w1)\<lparr>boots := boots (retained_obj w1) + 1\<rparr>\<rparr>);
              w3 = issue e Mgmt_callback_register w2
          in case start_settings_subsys (HW_ID_LEN cfg) e w3 of
               None \<Rightarrow> None
             | Some (_, w4) \<Rightarrow>
                 let w5 = (if boots (retained_obj w4) \<le> 1 then start_bluetooth_services e w4 else w4)
                 in case start_ant_device sdk cfg e w5 of
                      None \<Rightarrow> None
                    | Some (_, w6) \<Rightarrow> main_power_management e w6)"

subsection \<open>Powering off: properties\<close>

lemma retained_update_calls [simp]:
  "calls (retained_update hw e w) = K_uptime_seconds # calls w"
  by (simp add: retained_update_def k_uptime_seconds_def Let_def split_def)

text \<open>
  Property C31: the device powers off only with the wake interrupt armed, after counting the
  power-off and sealing the retained data so that the next boot accepts them; otherwise the
  retained data keep their state and supervision goes on.
\<close>

theorem poweroff_result:
  assumes "crc_law (crc32_ieee hw)" "(off, w') = poweroff hw e w"
    and "armed = (env_rc e (calls w) (Gpio_pin_interrupt_configure_dt Wake_signal GPIO_INT_LEVEL_ACTIVE) = 0)"
  shows "off = armed
    \<and> (if off
       then hd (calls w') = Sys_poweroff \<and> retained_valid hw (retained_obj w')
         \<and> off_count (retained_obj w') = off_count (retained_obj w) + 1
         \<and> boots (retained_obj w') = boots (retained_obj w)
       else retained_obj w' = retained_obj w \<and> Supervision_work \<in> effects (new_calls w w') P
         \<and> Sys_poweroff \<notin> set (new_calls w w'))"
proof (cases armed)
  case True
  let ?w2 = "w\<lparr>calls := Gpio_pin_interrupt_configure_dt Wake_signal GPIO_INT_LEVEL_ACTIVE # calls w,
      retained_obj := (retained_obj w)\<lparr>off_count := off_count (retained_obj w) + 1\<rparr>\<rparr>"
  have "off" "hd (calls w') = Sys_poweroff" "retained_obj w' = retained_obj (retained_update hw e ?w2)"
    using assms(2,3) True by (simp_all add: poweroff_def invoke_def Let_def)
  with True show ?thesis by (simp add: retained_update_obj seal_valid [OF assms(1)])
next
  case False
  then have "\<not> off" "retained_obj w' = retained_obj w"
    "calls w' = [K_work_schedule Supervision_work 1000,
       Gpio_pin_interrupt_configure_dt Wake_signal GPIO_INT_LEVEL_ACTIVE] @ calls w"
    using assms(2,3) by (simp_all add: poweroff_def invoke_def Let_def)
  with False new_calls_eq [OF this(3)] show ?thesis by (simp add: work_effect_def)
qed

subsection \<open>Witnesses\<close>

theorem poweroff_result_witness:
  "\<exists>w'. poweroff nrf52_hw (uptime_env 0) cold_world = (True, w')
     \<and> retained_valid nrf52_hw (retained_obj w') \<and> off_count (retained_obj w') = 1"
proof -
  obtain off w' where w': "(off, w') = poweroff nrf52_hw (uptime_env 0) cold_world" by (metis prod.collapse)
  have "env_rc (uptime_env 0) (calls cold_world) (Gpio_pin_interrupt_configure_dt Wake_signal GPIO_INT_LEVEL_ACTIVE) = 0"
    by (simp add: uptime_env_def)
  moreover have "off_count (retained_obj cold_world) = 0" by (simp add: cold_world_def retained_zero_def)
  ultimately show ?thesis
    using poweroff_result [OF nrf52_hw_laws(1) w' refl, of "{}"] by (intro exI [of _ w']) (simp add: w' [symmetric])
qed

end
