(* ===== verification/Firmware.thy ===== *)
theory Firmware
  imports Main_App
begin

text \<open>
  The firmware as a whole: which calls each component may issue and that it leaves the retained data
  alone (interpretations of the contracts of \<open>Scheduler\<close>), the outcome of \<open>main\<close>, and the
  firmware's life as a step relation: boots, interrupts, ANT events, Bluetooth callbacks, timers.
\<close>

subsection \<open>Allowed calls\<close>

definition key_calls :: "string \<Rightarrow> call set" where
  "key_calls k = insert (Settings_load_subtree_direct k) (range (Settings_save_one k))"

definition settings_calls :: "call set" where
  "settings_calls = {Settings_subsys_init, Hw_id_get} \<union> key_calls ''id''"

definition config_calls :: "call set" where
  "config_calls = key_calls ''role'' \<union> key_calls ''alL'' \<union> key_calls ''alH''"

definition transmit_calls :: "call set" where
  "transmit_calls = range (case_prod Ant_acknowledge_message_tx) \<union> range (case_prod Ant_broadcast_message_tx)"

definition ant_calls :: "call set" where
  "ant_calls = config_calls \<union> transmit_calls \<union> {Ant_init, Ant_cb_register, Ant_plus_key_set 0,
       Settings_load_subtree_direct ''id'', Hw_id_get}
     \<union> range Ant_channel_init \<union> range Ant_channel_open"

definition receive_calls :: "call set" where
  "receive_calls = {Spi_read, K_uptime_seconds} \<union> range Zbus_chan_pub"

definition spim_init_calls :: "call set" where
  "spim_init_calls = {Device_is_ready, Gpio_is_ready_dt Int_gpio, Gpio_pin_configure_dt Int_gpio,
     Gpio_pin_interrupt_configure_dt Int_gpio GPIO_INT_EDGE_TO_ACTIVE, Gpio_init_callback Int_gpio,
     Gpio_add_callback Int_gpio}"

definition retention_calls :: "call set" where
  "retention_calls = range (case_prod Nrf_power_rampower_mask_on) \<union> range (case_prod Nrf_power_rampower_mask_off)"

definition bt_calls :: "call set" where
  "bt_calls = {Bt_disable, Bt_le_adv_start, Bt_le_adv_stop, Smp_bt_unregister, Bt_conn_auth_cb_register}
     \<union> range Bt_set_name \<union> key_calls ''id''
     \<union> {K_work_submit Advertise_work, K_work_cancel_delayable Disable_bt_work,
        K_work_schedule Disable_bt_work BT_DISABLE_DELAY, K_work_schedule Disable_bt_work BT_DISABLE_RESCHEDULE,
        K_work_schedule Reboot_work REBOOT_DELAY_MS}"

definition power_calls :: "call set" where
  "power_calls = work_calls Supervision_work \<union> work_calls Poweroff_work \<union> {Sys_poweroff}"

lemma in_call_sets [simp]:
  "Settings_subsys_init \<in> settings_calls" "Hw_id_get \<in> settings_calls"
  "Settings_load_subtree_direct k \<in> key_calls k" "Settings_save_one k v \<in> key_calls k"
  "Ant_acknowledge_message_tx ch m \<in> transmit_calls" "Ant_broadcast_message_tx ch m \<in> transmit_calls"
  "Nrf_power_rampower_mask_on b m' \<in> retention_calls" "Nrf_power_rampower_mask_off b m' \<in> retention_calls"
  by (auto simp: settings_calls_def key_calls_def transmit_calls_def retention_calls_def)

lemma call_sets_subset:
  "config_calls \<subseteq> ant_calls" "transmit_calls \<subseteq> ant_calls" "key_calls ''id'' \<subseteq> settings_calls"
  "key_calls ''role'' \<subseteq> config_calls" "key_calls ''alL'' \<subseteq> config_calls" "key_calls ''alH'' \<subseteq> config_calls"
  by (auto simp: ant_calls_def settings_calls_def config_calls_def)

lemma quiet_calls:
  "ant_calls \<inter> power_calls = {}" "receive_calls \<inter> power_calls = {}" "spim_init_calls \<inter> power_calls = {}"
  "retention_calls \<inter> power_calls = {}" "bt_calls \<inter> power_calls = {}" "config_calls \<inter> power_calls = {}"
  "transmit_calls \<inter> power_calls = {}" "K_work_schedule Spim_receive_work d \<notin> power_calls"
  by (auto simp: ant_calls_def config_calls_def key_calls_def transmit_calls_def receive_calls_def spim_init_calls_def
      retention_calls_def bt_calls_def power_calls_def work_calls_def)

subsection \<open>Frames\<close>

text \<open>An operation that issues calls of a set and leaves the retained data alone.\<close>

definition framed :: "call set \<Rightarrow> 'a retained_world_scheme \<Rightarrow> 'a retained_world_scheme \<Rightarrow> bool" where
  "framed A w w' \<longleftrightarrow> issues A w w' \<and> retained_obj w' = retained_obj w"

lemma framed_refl [intro, simp]: "framed A w w"
  by (simp add: framed_def)

lemma framed_trans [trans]: "framed A w w1 \<Longrightarrow> framed A w1 w2 \<Longrightarrow> framed A w w2"
  by (auto simp: framed_def intro: issues_trans)

lemma framed_mono: "framed A w w' \<Longrightarrow> A \<subseteq> B \<Longrightarrow> framed B w w'"
  by (auto simp: framed_def intro: issues_mono)

lemma framed_step:
  "framed A w w1 \<Longrightarrow> calls w2 = calls w1 \<or> (\<exists>c \<in> A. calls w2 = c # calls w1) \<Longrightarrow> retained_obj w2 = retained_obj w1
     \<Longrightarrow> framed A w w2"
  by (auto simp: framed_def intro: issues_same issues_Cons)

lemma init_default_loop_framed:
  "init_default_loop e name dest len init w = Some r \<Longrightarrow> framed (key_calls name) w (snd r)"
proof (induction e name dest len init w r rule: init_default_loop.raw_induct [rotated, consumes 1, case_names step])
  case (step loop e name dest len init w r)
  obtain rc d where l: "load_immediate_value e name dest len w
      = ((rc, d), w\<lparr>calls := Settings_load_subtree_direct name # calls w\<rparr>)"
    by (simp add: load_immediate_value_def Let_def split_def)
  let ?w1 = "w\<lparr>calls := Settings_load_subtree_direct name # calls w\<rparr>"
  let ?w2 = "w\<lparr>calls := Settings_save_one name init # Settings_load_subtree_direct name # calls w\<rparr>"
  have 1: "framed (key_calls name) w ?w1" by (rule framed_step [OF framed_refl]) simp_all
  have 2: "framed (key_calls name) w ?w2" by (rule framed_step [OF 1]) simp_all
  show ?case
  proof (cases "rc = - ENOENT")
    case True
    then have "loop e name d len init ?w2 = Some r" using step.hyps l by simp
    from framed_trans [OF 2 step.IH [OF this]] show ?thesis .
  qed (use step.hyps l 1 in auto)
qed

lemma load_default_framed:
  assumes "load_immediate_value_init_default e name dest len init w = Some (r, w')"
  shows "framed (key_calls name) w w'"
proof -
  obtain d w1 where l: "init_default_loop e name dest len init w = Some (d, w1)"
    and w': "w' = snd (load_immediate_value e name d len w1)"
    using assms by (auto simp: load_immediate_value_init_default_def Let_def split_def split: option.splits)
  show ?thesis
    by (rule framed_step [OF init_default_loop_framed [OF l, simplified]])
      (simp_all add: w' load_immediate_value_def Let_def split_def)
qed

lemma settings_framed:
  assumes "start_settings_subsys n e w = Some (rc, w')"
  shows "framed settings_calls w w'"
proof -
  let ?w1 = "w\<lparr>calls := Settings_subsys_init # calls w\<rparr>"
  let ?w2 = "w\<lparr>calls := Hw_id_get # Settings_subsys_init # calls w\<rparr>"
  have 1: "framed settings_calls w ?w1" by (rule framed_step [OF framed_refl]) simp_all
  have 2: "framed settings_calls w ?w2" by (rule framed_step [OF 1]) simp_all
  consider "w' = ?w1" | init d r where "load_immediate_value_init_default e ''id'' d 2 init ?w2 = Some (r, w')"
    using assms
    by (auto simp: start_settings_subsys_def invoke_def initialize_settings_defaults_def
        initialize_settings_defaults_DEVICE_ID_def get_hwid_16bit_def Let_def split_def
        split: if_splits option.splits)
  then show ?thesis
    by cases (use 1 framed_trans [OF 2 framed_mono [OF load_default_framed call_sets_subset(3)]] in auto)
qed

lemma next_page_framed:
  "next_page_number_get sdk w = Some (page, w') \<Longrightarrow> framed A w w'"
  by (auto simp: next_page_number_get_def framed_def Let_def split: option.splits)

lemma message_send_framed:
  assumes "ant_message_send sdk e (app_handlers e) w = Some w'"
  shows "framed transmit_calls w w'"
proof -
  obtain msg w1 where enc: "sens_message_encode sdk (app_handlers e) (junk_bytes e 8 w) w = Some (msg, w1)"
    and w': "w' = (let (ack, rc) = ant_request_controller_ack_needed sdk (request_controller w1);
              w2 = w1\<lparr>request_controller := rc\<rparr>
          in issue e
               (if ack then Ant_acknowledge_message_tx (channel_number (tpms w2)) msg
                else Ant_broadcast_message_tx (channel_number (tpms w2)) msg) w2)"
    using assms by (auto simp: ant_message_send_def Let_def split_def split: option.splits)
  have 1: "framed transmit_calls w w1"
    using enc next_page_framed [of sdk w]
    by (auto simp: sens_message_encode_def Let_def split: option.splits)
  show ?thesis by (rule framed_step [OF 1]) (simp_all add: w' Let_def split_def)
qed

lemma config_step_framed:
  "framed config_calls w (config_reset p w)" "framed config_calls w (config_role e p w)"
  "framed config_calls w (config_ambient p w)" "framed config_calls w (config_alarm_low e p w)"
  "framed config_calls w (config_alarm_high e p w)" "framed config_calls w (config_match_role w)"
  by (rule framed_step [OF framed_refl];
      simp add: call_sets_subset(4-6) [THEN subsetD] config_reset_def config_role_def config_ambient_def config_alarm_low_def
        config_alarm_high_def config_match_role_def Let_def)+

lemma config_handler_framed: "framed config_calls w (ant_tpms_config_handler e p w)"
proof -
  note config_step_framed(1) [where p = p]
  also note config_step_framed(2) [where p = p and e = e]
  also note config_step_framed(3) [where p = p]
  also note config_step_framed(4) [where p = p and e = e]
  also note config_step_framed(5) [where p = p and e = e]
  also note config_step_framed(6)
  finally show ?thesis by (simp add: ant_tpms_config_handler_def)
qed

definition event_calls :: "call set" where "event_calls = transmit_calls \<union> config_calls"

lemma ant_event_framed:
  assumes "ant_evt_handler sdk e evt w = Some w'"
  shows "framed event_calls w w'"
proof -
  have d: "framed event_calls w (sens_message_decode (app_handlers e) m w)" for m
    by (rule framed_mono [of config_calls])
      (simp_all add: sens_message_decode_def app_handlers_def config_handler_framed event_calls_def)
  have s: "ant_message_send sdk e (app_handlers e) w = Some w1 \<Longrightarrow> framed event_calls w w1" for w1
    by (erule framed_mono [OF message_send_framed]) (simp add: event_calls_def)
  have r: "framed event_calls w w1 \<Longrightarrow> framed event_calls w (w1\<lparr>request_controller := rc\<rparr>)" for w1 rc
    by (erule framed_step) simp_all
  show ?thesis
    using assms d s r
    by (auto simp: ant_evt_handler_def ant_tpms_sens_evt_handler_def
        split: if_splits ant_event.splits option.splits)
qed

lemma profile_load_framed:
  "profile_load_role e w = Some w' \<Longrightarrow> framed config_calls w w'"
  "profile_load_alarms e w = Some w' \<Longrightarrow> framed config_calls w w'"
proof -
  assume "profile_load_role e w = Some w'"
  then obtain r v w1 where "load_immediate_value_init_default e ''role'' (junk_bytes e 1 w) 1 (le_bytes 1 ANT_TPMS_ROLE_NONE) w
      = Some ((r, v), w1)" "calls w' = calls w1" "retained_obj w' = retained_obj w1"
    by (auto simp: profile_load_role_def)
  then show "framed config_calls w w'" by (blast intro: framed_step framed_mono [OF load_default_framed call_sets_subset(4)])
next
  assume l: "profile_load_alarms e w = Some w'"
  then obtain r v w1 where 1: "load_immediate_value_init_default e ''alL'' (junk_bytes e 2 w) 2 (le_bytes 2 (0xffff :: u16)) w
      = Some ((r, v), w1)"
    by (auto simp: profile_load_alarms_def Let_def split: option.splits)
  let ?w2 = "upd_page_16 (p16_alarm_low_pressure_update (\<lambda>_. uint16_decode v 0)) w1"
  obtain r' v' w3 where 3: "load_immediate_value_init_default e ''alH'' v 2 (le_bytes 2 (0xffff :: u16)) ?w2
      = Some ((r', v'), w3)" "calls w' = calls w3" "retained_obj w' = retained_obj w3"
    using l 1 by (auto simp: profile_load_alarms_def Let_def)
  have "framed config_calls w ?w2" by (rule framed_step [OF framed_mono [OF load_default_framed [OF 1] call_sets_subset(5)]]) simp_all
  also have "framed config_calls ?w2 w'" by (rule framed_step [OF framed_mono [OF load_default_framed [OF 3(1)] call_sets_subset(6)]]) (simp_all add: 3)
  finally show "framed config_calls w w'" .
qed

lemma profile_setup_framed:
  assumes "profile_setup sdk cfg e w = Some (rc, w')"
  shows "framed ant_calls w w'"
proof -
  obtain r device_id where l: "load_immediate_value e ''id'' (junk_bytes e 2 w) 2 w
      = ((r, device_id), w\<lparr>calls := Settings_load_subtree_direct ''id'' # calls w\<rparr>)"
    by (simp add: load_immediate_value_def Let_def split_def)
  define w1 where "w1 = w\<lparr>calls := Settings_load_subtree_direct ''id'' # calls w\<rparr>"
  define config where "config = sens_channel_config cfg (uint16_decode device_id 0)"
  define w2 where "w2 = snd (ant_tpms_sens_init sdk e config tpms_profile_tpms_sens_config
    (w1\<lparr>tpms_channel_tpms_sens_config := config\<rparr>))"
  have 1: "framed ant_calls w w1"
    by (rule framed_step [OF framed_refl]) (simp_all add: w1_def ant_calls_def)
  have 2: "framed ant_calls w w2"
    by (rule framed_step [OF 1]) (simp_all add: w2_def sens_init_result ant_calls_def)
  consider "w' = w1" | "w' = w2" | w3 w4 where
    "profile_load_role e w2 = Some w3" "profile_load_alarms e w3 = Some w4"
    "ant_tpms_sens_open sdk e (app_handlers e) (profile_set_versions sdk cfg e w4) = Some (rc, w')"
    using assms
    by (auto simp: profile_setup_def l Let_def w1_def w2_def config_def split_def split: if_splits option.splits)
  then show ?thesis
  proof cases
    case 3
    let ?w5 = "profile_set_versions sdk cfg e w4"
    obtain w6 where 6: "ant_message_send sdk e (app_handlers e) ?w5 = Some w6"
      "w' = w6\<lparr>calls := Ant_channel_open (channel_number (tpms w6)) # calls w6\<rparr>"
      using 3(3) by (auto simp: ant_tpms_sens_open_def invoke_def split: option.splits)
    note 2
    also note profile_load_framed(1) [OF 3(1), THEN framed_mono, OF call_sets_subset(1)]
    also note profile_load_framed(2) [OF 3(2), THEN framed_mono, OF call_sets_subset(1)]
    also obtain p where v: "?w5 = w4\<lparr>calls := Hw_id_get # calls w4, tpms := (tpms w4)
        \<lparr>page_81 := p, page_82 := (page_82 (tpms w4))\<lparr>battery_count := 0xf, battery_id := 0xf\<rparr>\<rparr>\<rparr>"
      using profile_set_versions_frame [of sdk cfg e w4] by (elim exE)
    have "framed ant_calls w4 ?w5"
      by (rule framed_step [OF framed_refl]) (simp_all add: v ant_calls_def)
    also note message_send_framed [OF 6(1), THEN framed_mono, OF call_sets_subset(2)]
    also have "framed ant_calls w6 w'"
      by (rule framed_step [OF framed_refl]) (simp_all add: 6(2) ant_calls_def)
    finally show ?thesis .
  qed (use 1 2 in auto)
qed

lemma start_ant_framed:
  assumes "start_ant_device sdk cfg e w = Some (rc, w')"
  shows "framed ant_calls w w'"
proof -
  let ?w1 = "snd (ant_stack_setup e w)"
  have 1: "framed ant_calls w ?w1"
    by (simp add: ant_stack_setup_def framed_def issues_def invoke_def Let_def ant_calls_def)
  consider "w' = ?w1" | r where "profile_setup sdk cfg e ?w1 = Some (r, w')"
    using assms by (auto simp: start_ant_device_def Let_def split_def split: if_splits option.splits)
  then show ?thesis by cases (use 1 framed_trans [OF 1 profile_setup_framed] in auto)
qed

lemma receive_framed:
  assumes "spim_receive e w = Some w'"
  shows "framed receive_calls w w'"
proof -
  have r: "framed receive_calls w (w\<lparr>calls := Spi_read # calls w, rx_buffer := b\<rparr>)" for b
    by (rule framed_step [OF framed_refl]) (simp_all add: receive_calls_def)
  have p: "framed receive_calls w1 (sensor_data_chan_pub e msg w1)" for msg and w1 :: "('a, 'b, 'c, 'd) spi_world_scheme"
  proof -
    have 1: "framed receive_calls w1 (w1\<lparr>calls := Zbus_chan_pub msg # calls w1\<rparr>)"
      by (rule framed_step [OF framed_refl]) (simp_all add: receive_calls_def)
    have "framed receive_calls w1 (ant_sensor_data_handler_cb e msg (w1\<lparr>calls := Zbus_chan_pub msg # calls w1\<rparr>))"
      by (rule framed_step [OF 1]; subst sensor_data_handler_frame) (simp_all add: receive_calls_def)
    with 1 show ?thesis by (simp add: sensor_data_chan_pub_def invoke_def)
  qed
  show ?thesis
    using assms r framed_trans [OF r p]
    by (auto simp: spim_receive_def invoke_def Let_def split: if_splits option.splits)
qed

lemma spim_init_framed:
  "spim_init False e w = Some (rc, w') \<Longrightarrow> framed spim_init_calls w w'"
  by (auto simp: spim_init_def invoke_def Let_def framed_def issues_def spim_init_calls_def split: if_splits)

text \<open>The callbacks and work items of the Bluetooth service.\<close>

lemma bt_framed:
  "framed bt_calls w (connected e err w)" "framed bt_calls w (disconnected e w)"
  "framed bt_calls w (advertise e w)"
  "framed bt_calls w (snd (cfg_srv_devid_chrx_on_write_cb e buf len w))"
  "framed bt_calls w (disable_bt e w)"
  by (auto simp: framed_def issues_def bt_calls_def key_calls_def work_calls_def connected_def disconnected_def
      advertise_def cfg_srv_devid_chrx_on_write_cb_def disable_bt_def shutdown_bluetooth_def invoke_def Let_def)

lemma bt_ready_framed: "framed bt_calls w (bt_ready e err w)"
  by (auto simp: bt_ready_def load_immediate_value_def Let_def split_def framed_def issues_def bt_calls_def
      key_calls_def work_calls_def)

subsection \<open>Boot\<close>

lemma retain_loop_calls_only:
  "retain_loop hw e en a a_end w = Some w' \<Longrightarrow> \<exists>cs. w' = w\<lparr>calls := cs @ calls w\<rparr> \<and> set cs \<subseteq> retention_calls"
proof (induction hw e en a a_end w w' rule: retain_loop.raw_induct [rotated, consumes 1, case_names step])
  case (step loop hw e en a a_end w w')
  have c: "section_call hw en a \<in> retention_calls" by (simp add: section_call_def Let_def split_def)
  let ?w1 = "w\<lparr>calls := section_call hw en a # calls w\<rparr>"
  show ?case
  proof (cases "next_section hw a < a_end")
    case True
    then have "loop hw e en (next_section hw a) a_end ?w1 = Some w'" using step.hyps by (simp add: Let_def)
    from step.IH [OF this] obtain cs where
      "w' = ?w1\<lparr>calls := cs @ calls ?w1\<rparr>" "set cs \<subseteq> retention_calls" by blast
    then show ?thesis using c by (intro exI [of _ "cs @ [section_call hw en a]"]) simp
  next
    case False
    then show ?thesis using step.hyps c by (intro exI [of _ "[section_call hw en a]"]) (simp add: Let_def)
  qed
qed

text \<open>What validation leaves behind when it returns.\<close>

definition validated :: "hw \<Rightarrow> retained_data \<Rightarrow> retained_data" where
  "validated hw r = (if retained_valid hw r then r else retained_zero)\<lparr>uptime_latest := 0\<rparr>"

lemma validated_fields:
  "boots (validated hw r) = (if retained_valid hw r then boots r else 0)"
  "off_count (validated hw r) = (if retained_valid hw r then off_count r else 0)"
  "uptime_sum (validated hw r) = (if retained_valid hw r then uptime_sum r else 0)"
  by (simp_all add: validated_def retained_zero_def)

text \<open>The retained data as \<open>main\<close> leaves them, given the uptime when it seals them.\<close>

definition counted_boot :: "hw \<Rightarrow> u64 \<Rightarrow> retained_data \<Rightarrow> retained_data" where
  "counted_boot hw now r = (let v = validated hw r
     in retained_seal hw (retained_accrue now (v\<lparr>boots := boots v + 1\<rparr>)))"

lemma validate_returns:
  assumes "retained_validate hw e w = Some (ok, w')"
  shows "issues retention_calls w w' \<and> ok = retained_valid hw (retained_obj w)
    \<and> retained_obj w' = validated hw (retained_obj w)"
proof -
  let ?w1 = "w\<lparr>retained_obj := (if retained_valid hw (retained_obj w) then retained_obj w
      else retained_zero)\<lparr>uptime_latest := 0\<rparr>\<rparr>"
  obtain rc where "ram_range_retain hw e (retained_addr hw) (of_nat RETAINED_CHECKED_SIZE) True ?w1 = Some (rc, w')"
    and ok: "ok = retained_valid hw (retained_obj w)"
    using assms by (auto simp: retained_validate_def Let_def split: option.splits)
  then have "w' = ?w1 \<or> (\<exists>p l. retain_loop hw e True p l ?w1 = Some w')"
    by (auto simp: ram_range_retain_def split: if_splits)
  then have "\<exists>cs. w' = ?w1\<lparr>calls := cs @ calls ?w1\<rparr> \<and> set cs \<subseteq> retention_calls"
  proof (elim disjE exE)
    assume "w' = ?w1" then show ?thesis by (intro exI [of _ "[]"]) simp
  next
    fix p l assume "retain_loop hw e True p l ?w1 = Some w'"
    from retain_loop_calls_only [OF this] show ?thesis .
  qed
  then show ?thesis by (auto simp: issues_def ok validated_def)
qed

definition wake_calls :: "call set" where
  "wake_calls = spim_init_calls \<union> {Gpio_is_ready_dt Wake_signal, Gpio_pin_configure_dt Wake_signal}"

lemma power_management_returns:
  assumes "main_power_management e w = Some (rc, w')"
  shows "\<exists>w1. framed wake_calls w w1 \<and> retained_obj w' = retained_obj w1
    \<and> (rc = EXIT_SUCCESS \<and> calls w' = K_work_schedule Supervision_work SUPERVISION_CYCLE_TIME_MS # calls w1
       \<or> rc = EXIT_FAILURE \<and> w' = w1)"
proof -
  let ?w1 = "w\<lparr>calls := Gpio_is_ready_dt Wake_signal # calls w\<rparr>"
  let ?w2 = "w\<lparr>calls := Gpio_pin_configure_dt Wake_signal # Gpio_is_ready_dt Wake_signal # calls w\<rparr>"
  have 1: "framed wake_calls w ?w1" by (rule framed_step [OF framed_refl]) (simp_all add: wake_calls_def)
  have 2: "framed wake_calls w ?w2" by (rule framed_step [OF 1]) (simp_all add: wake_calls_def)
  have sp: "framed wake_calls w w3" if "spim_init False e ?w2 = Some (r, w3)" for r w3
    by (rule framed_trans [OF 2 framed_mono [OF spim_init_framed [OF that]]]) (auto simp: wake_calls_def)
  consider "w' = ?w1" "rc = EXIT_FAILURE" | "w' = ?w2" "rc = EXIT_FAILURE" | r w3 where
    "spim_init False e ?w2 = Some (r, w3)" "rc = EXIT_SUCCESS"
    "w' = w3\<lparr>calls := K_work_schedule Supervision_work SUPERVISION_CYCLE_TIME_MS # calls w3\<rparr>"
    using assms by (auto simp: main_power_management_def invoke_def Let_def split: if_splits)
  then show ?thesis
  proof cases
    case 3 note c = this
    from sp [OF c(1)] show ?thesis by (intro exI [of _ w3]) (simp add: c(2,3))
  qed (use 1 2 in blast)+
qed

text \<open>The stages of \<open>main\<close>, for a boot that returns.\<close>

lemma main_stages:
  assumes "main sdk cfg hw e w = Some (rc, w')"
  obtains w4 w5 w6 where "issues (retention_calls \<union> {K_uptime_seconds, Mgmt_callback_register} \<union> settings_calls) w w4"
    "\<exists>now. retained_obj w4 = counted_boot hw now (retained_obj w)"
    "w5 = (if boots (retained_obj w4) \<le> 1
       then w4\<lparr>calls := Bt_enable # Logger_backend_ble_set_hook # calls w4\<rparr> else w4)"
    "framed ant_calls w5 w6" "main_power_management e w6 = Some (rc, w')"
proof -
  obtain ok w1 where v: "retained_validate hw e w = Some (ok, w1)"
    using assms by (auto simp: main_def split: option.splits)
  let ?r = "(retained_obj w1)\<lparr>boots := boots (retained_obj w1) + 1\<rparr>"
  define w2 where "w2 = retained_update hw e (w1\<lparr>retained_obj := ?r\<rparr>)"
  define w3 where "w3 = w2\<lparr>calls := Mgmt_callback_register # calls w2\<rparr>"
  have m: "main sdk cfg hw e w = (case start_settings_subsys (HW_ID_LEN cfg) e w3 of
      None \<Rightarrow> None
    | Some (_, w4) \<Rightarrow>
        (case start_ant_device sdk cfg e (if boots (retained_obj w4) \<le> 1 then start_bluetooth_services e w4 else w4) of
           None \<Rightarrow> None
         | Some (_, w6) \<Rightarrow> main_power_management e w6))"
    by (simp only: main_def v option.case prod.case Let_def w3_def w2_def issue_simp)
  obtain r4 w4 where s: "start_settings_subsys (HW_ID_LEN cfg) e w3 = Some (r4, w4)"
    using assms by (auto simp: m split: option.splits)
  define w5 where "w5 = (if boots (retained_obj w4) \<le> 1
     then w4\<lparr>calls := Bt_enable # Logger_backend_ble_set_hook # calls w4\<rparr> else w4)"
  have b: "(if boots (retained_obj w4) \<le> 1 then start_bluetooth_services e w4 else w4) = w5"
    by (simp add: w5_def start_bluetooth_services_def)
  obtain r6 w6 where a: "start_ant_device sdk cfg e w5 = Some (r6, w6)" "main_power_management e w6 = Some (rc, w')"
    using assms unfolding m s option.case prod.case b by (auto split: option.splits)
  let ?A = "retention_calls \<union> {K_uptime_seconds, Mgmt_callback_register} \<union> settings_calls"
  note vr = validate_returns [OF v]
  have 1: "issues ?A w w1" using vr by (auto intro: issues_mono)
  have 2: "issues ?A w w2" by (rule issues_Cons [OF 1, of K_uptime_seconds]) (simp_all add: w2_def)
  have 3: "issues ?A w w3" by (rule issues_Cons [OF 2, of Mgmt_callback_register]) (simp_all add: w3_def)
  note f = settings_framed [OF s]
  have 4: "issues ?A w w4" using f by (auto simp: framed_def intro: issues_trans [OF 3] issues_mono)
  have "retained_obj w4 = retained_seal hw (retained_accrue (ucast (fst (k_uptime_seconds e (w1\<lparr>retained_obj := ?r\<rparr>)))) ?r)"
    using f by (simp add: framed_def w3_def w2_def retained_update_obj)
  then have "\<exists>now. retained_obj w4 = counted_boot hw now (retained_obj w)"
    using vr by (auto simp: counted_boot_def Let_def)
  from that [OF 4 this w5_def start_ant_framed [OF a(1)] a(2)] show thesis .
qed

lemma quiet_effects:
  assumes "issues A w w'" "A \<inter> power_calls = {}" "wk = Supervision_work \<or> wk = Poweroff_work"
  shows "wk \<in> effects (new_calls w w') P \<longleftrightarrow> wk \<in> P" "Sys_poweroff \<notin> set (new_calls w w')"
  using issues_new_calls [OF assms(1)] assms(2,3)
  by (auto simp: power_calls_def intro!: effects_other)

lemma main_result:
  assumes "main sdk cfg hw e w = Some (rc, w')"
  shows "crc_law (crc32_ieee hw) \<Longrightarrow> retained_valid hw (retained_obj w')"
    and "boots (retained_obj w') = (if retained_valid hw (retained_obj w) then boots (retained_obj w) else 0) + 1"
    and "off_count (retained_obj w') = (if retained_valid hw (retained_obj w) then off_count (retained_obj w) else 0)"
    and "Bt_enable \<in> set (new_calls w w') \<longleftrightarrow> boots (retained_obj w') \<le> 1"
    and "rc = EXIT_SUCCESS \<or> rc = EXIT_FAILURE"
    and "Supervision_work \<in> effects (new_calls w w') {} \<longleftrightarrow> rc = EXIT_SUCCESS"
    and "Poweroff_work \<notin> effects (new_calls w w') {}"
    and "\<exists>now. retained_obj w' = counted_boot hw now (retained_obj w)"
    and "Smp_bt_unregister \<notin> set (new_calls w w')"
    and "\<exists>bs. new_calls w w' = (if rc = EXIT_SUCCESS then [K_work_schedule Supervision_work SUPERVISION_CYCLE_TIME_MS] else []) @ bs
      \<and> (\<forall>wk. set bs \<inter> work_calls wk = {})"
proof -
  obtain w4 w5 w6 where 4: "issues (retention_calls \<union> {K_uptime_seconds, Mgmt_callback_register} \<union> settings_calls) w w4"
    and r4: "\<exists>now. retained_obj w4 = counted_boot hw now (retained_obj w)"
    and w5: "w5 = (if boots (retained_obj w4) \<le> 1
       then w4\<lparr>calls := Bt_enable # Logger_backend_ble_set_hook # calls w4\<rparr> else w4)"
    and 6: "framed ant_calls w5 w6" and p: "main_power_management e w6 = Some (rc, w')"
    by (rule main_stages [OF assms])
  obtain w7 where 7: "framed wake_calls w6 w7" "retained_obj w' = retained_obj w7"
    "rc = EXIT_SUCCESS \<and> calls w' = K_work_schedule Supervision_work SUPERVISION_CYCLE_TIME_MS # calls w7
       \<or> rc = EXIT_FAILURE \<and> w' = w7"
    using power_management_returns [OF p] by blast
  have r': "retained_obj w' = retained_obj w4" using 6 7 by (simp add: framed_def w5)
  show "crc_law (crc32_ieee hw) \<Longrightarrow> retained_valid hw (retained_obj w')"
    "boots (retained_obj w') = (if retained_valid hw (retained_obj w) then boots (retained_obj w) else 0) + 1"
    "off_count (retained_obj w') = (if retained_valid hw (retained_obj w) then off_count (retained_obj w) else 0)"
    "\<exists>now. retained_obj w' = counted_boot hw now (retained_obj w)"
    using r4 by (auto simp: r' seal_valid counted_boot_def Let_def validated_fields)
  show "rc = EXIT_SUCCESS \<or> rc = EXIT_FAILURE" using 7 by blast
  obtain as where as: "calls w4 = as @ calls w"
    "set as \<subseteq> retention_calls \<union> {K_uptime_seconds, Mgmt_callback_register} \<union> settings_calls"
    using 4 by (auto simp: issues_def)
  have "framed (wake_calls \<union> ant_calls) w5 w7"
    by (rule framed_trans [OF framed_mono [OF 6] framed_mono [OF 7(1)]]) auto
  then obtain bs where bs: "calls w7 = bs @ calls w5" "set bs \<subseteq> wake_calls \<union> ant_calls"
    by (auto simp: framed_def issues_def)
  define start where "start = (if boots (retained_obj w') \<le> 1 then [Bt_enable, Logger_backend_ble_set_hook] else [])"
  define super where "super = (if rc = EXIT_SUCCESS then [K_work_schedule Supervision_work SUPERVISION_CYCLE_TIME_MS] else [])"
  have new: "new_calls w w' = super @ bs @ start @ as"
    by (rule new_calls_eq) (use 7(3) as(1) bs(1) in \<open>auto simp: super_def start_def w5 r' EXIT_SUCCESS_def\<close>)
  show "Bt_enable \<in> set (new_calls w w') \<longleftrightarrow> boots (retained_obj w') \<le> 1" "Smp_bt_unregister \<notin> set (new_calls w w')"
    unfolding new using as(2) bs(2)
    by (auto simp: super_def start_def retention_calls_def settings_calls_def key_calls_def config_calls_def ant_calls_def transmit_calls_def
        wake_calls_def spim_init_calls_def)
  have other: "set (bs @ start @ as) \<inter> work_calls wk = {}" for wk
    using as(2) bs(2) by (auto simp: start_def work_calls_def retention_calls_def
        settings_calls_def key_calls_def config_calls_def ant_calls_def transmit_calls_def wake_calls_def spim_init_calls_def)
  then show "\<exists>bs. new_calls w w' = (if rc = EXIT_SUCCESS then [K_work_schedule Supervision_work SUPERVISION_CYCLE_TIME_MS] else []) @ bs
      \<and> (\<forall>wk. set bs \<inter> work_calls wk = {})"
    unfolding new super_def by (intro exI [of _ "bs @ start @ as"]) blast
  have "wk \<in> effects (bs @ start @ as) {} \<longleftrightarrow> wk \<in> {}" for wk
    by (rule effects_other [OF other])
  then show "Supervision_work \<in> effects (new_calls w w') {} \<longleftrightarrow> rc = EXIT_SUCCESS"
    "Poweroff_work \<notin> effects (new_calls w w') {}"
    by (simp_all add: new super_def work_effect_def)
qed

text \<open>
  Property C8: whatever settings, ANT stack and pins answer, a boot that returns counts itself (a
  first boot, or one whose retained data are damaged, counts as the first), leaves the retained
  data sealed, enables Bluetooth exactly on the first counted boot, and ends with supervision,
  and nothing else of the power management, scheduled if it succeeds and nothing if it fails.
\<close>

theorem main_boot:
  assumes "crc_law (crc32_ieee hw)" "main sdk cfg hw e w = Some (rc, w')"
  shows "retained_valid hw (retained_obj w')
    \<and> boots (retained_obj w') = (if retained_valid hw (retained_obj w) then boots (retained_obj w) else 0) + 1
    \<and> (Bt_enable \<in> set (new_calls w w') \<longleftrightarrow> boots (retained_obj w') \<le> 1)
    \<and> (Supervision_work \<in> effects (new_calls w w') {} \<longleftrightarrow> rc = EXIT_SUCCESS)
    \<and> Poweroff_work \<notin> effects (new_calls w w') {}"
  using main_result [OF assms(2)] assms(1) by blast

text \<open>
  After a firmware update is announced, the next boot enables Bluetooth, at whatever
  later time it happens and whatever the other memory holds, as long as the retained memory is
  kept; a boot that returns counts as boot 1.
\<close>

theorem dfu_enables_bluetooth:
  assumes "crc_law (crc32_ieee hw)"
    and "retained_obj wb = retained_obj (dfu_pending_cb hw e MGMT_EVT_OP_IMG_MGMT_DFU_PENDING w)"
    and "main sdk cfg hw e' wb = Some (rc, w')"
  shows "Bt_enable \<in> set (new_calls wb w') \<and> boots (retained_obj w') = 1
    \<and> off_count (retained_obj w') = off_count (retained_obj w)"
proof -
  have "retained_valid hw (retained_obj wb)" "boots (retained_obj wb) = 0"
    "off_count (retained_obj wb) = off_count (retained_obj w)"
    by (simp_all add: assms(2) dfu_pending_cb_def retained_update_obj seal_valid [OF assms(1)])
  then show ?thesis using main_result [OF assms(3)] by simp
qed

subsection \<open>The life of the firmware\<close>

text \<open>
  Everything that runs after \<open>main\<close> has returned: interrupt and event handlers, callbacks of the
  Bluetooth stack, and work items. Handlers run one at a time, in any order; a work item runs only
  while it is pending.
\<close>

datatype event = Interrupt | Sensor_read | Ant_event ant_evt | Dfu mgmt_event | Bt_ready int
  | Connected u8 | Disconnected | Advertise | Disable | Write_id bytes u16

fun handle ::
  "('rc, 'p80, 'p81) ant_sdk \<Rightarrow> hw \<Rightarrow> env \<Rightarrow> event \<Rightarrow> ('rc, 'p80, 'p81, 'z) bt_world_scheme
    \<Rightarrow> ('rc, 'p80, 'p81, 'z) bt_world_scheme option" where
  "handle sdk hw e Interrupt w = Some (int_cb_handler e w)"
| "handle sdk hw e Sensor_read w = spim_receive e w"
| "handle sdk hw e (Ant_event evt) w = ant_evt_handler sdk e evt w"
| "handle sdk hw e (Dfu event) w = Some (dfu_pending_cb hw e event w)"
| "handle sdk hw e (Bt_ready err) w = Some (bt_ready e err w)"
| "handle sdk hw e (Connected err) w = Some (connected e err w)"
| "handle sdk hw e Disconnected w = Some (disconnected e w)"
| "handle sdk hw e Advertise w = Some (advertise e w)"
| "handle sdk hw e Disable w = Some (disable_bt e w)"
| "handle sdk hw e (Write_id buf len) w = Some (snd (cfg_srv_devid_chrx_on_write_cb e buf len w))"

fun work_of :: "event \<Rightarrow> work set" where
  "work_of Sensor_read = {Spim_receive_work}"
| "work_of Advertise = {Advertise_work}"
| "work_of Disable = {Disable_bt_work}"
| "work_of _ = {}"

definition handler_calls :: "call set" where
  "handler_calls = {K_work_schedule Spim_receive_work SPIM_INT_TRANSFER_DELAY_MS} \<union> receive_calls
     \<union> event_calls \<union> bt_calls"

lemma handler_calls_quiet: "handler_calls \<inter> power_calls = {}"
  by (simp add: handler_calls_def event_calls_def Int_Un_distrib2 quiet_calls)

definition sealed :: "hw \<Rightarrow> 'a retained_world_scheme \<Rightarrow> bool" where
  "sealed hw w \<longleftrightarrow> crc_law (crc32_ieee hw) \<longrightarrow> retained_valid hw (retained_obj w)"

lemma framed_sealed: "framed A w w' \<Longrightarrow> sealed hw w \<Longrightarrow> sealed hw w'"
  by (simp add: framed_def sealed_def)

lemma handle_framed:
  assumes "handle sdk hw e ev w = Some w'"
  shows "issues handler_calls w w' \<and> (sealed hw w \<longrightarrow> sealed hw w')"
proof -
  have *: "framed A w w' \<Longrightarrow> A \<subseteq> handler_calls \<Longrightarrow> ?thesis" for A
    using framed_sealed [of A w w' hw] by (auto simp: framed_def intro: issues_mono)
  have bt: "framed bt_calls w w' \<Longrightarrow> ?thesis" by (rule *) (auto simp: handler_calls_def)
  show ?thesis
  proof (cases ev)
    case Interrupt
    then have "framed handler_calls w w'"
      using assms by (intro framed_step [OF framed_refl]) (auto simp: int_cb_handler_def handler_calls_def)
    then show ?thesis by (rule *) simp
  next
    case Sensor_read
    then show ?thesis
      using assms by (intro * [of receive_calls] receive_framed) (auto simp: handler_calls_def)
  next
    case (Ant_event evt)
    then show ?thesis
      using assms by (intro * [of event_calls] ant_event_framed) (auto simp: handler_calls_def)
  next
    case (Dfu event)
    then have w': "w' = dfu_pending_cb hw e event w" using assms by simp
    then have "issues handler_calls w w'"
      by (auto simp: dfu_pending_cb_def issues_def handler_calls_def receive_calls_def)
    moreover have "sealed hw w \<Longrightarrow> sealed hw w'"
      by (simp add: w' dfu_pending_cb_def sealed_def retained_update_obj seal_valid)
    ultimately show ?thesis by blast
  qed (rule bt, use assms in \<open>clarsimp simp: bt_framed bt_ready_framed\<close>)+
qed

interpretation handler: keeping_contract "handle sdk hw e ev" handler_calls "sealed hw" for sdk hw e ev
  by unfold_locales (use handle_framed in blast)+

interpretation receive: call_contract "spim_receive e" receive_calls for e
  by unfold_locales (use receive_framed in \<open>auto simp: framed_def\<close>)

text \<open>
  The state between two handlers: the program's state, the pending work items, whether the
  processor is off, and whether \<open>main\<close> returned success in this session; it returns failure when the wake
  signal is not ready or cannot be configured, and the handlers run then, too. A boot may
  happen in any state (wake signal, reset, watchdog): memory is initialised anew except for the retained
  data. Handlers run once \<open>main\<close> has returned; that it does is \<open>main_configures\<close>.
\<close>

record 'w fw_state =
  fw_world :: 'w
  fw_pending :: "work set"
  fw_down :: bool
  fw_started :: bool

definition fw_run :: "'a world_scheme \<Rightarrow> work set \<Rightarrow> 'a world_scheme fw_state \<Rightarrow> 'a world_scheme fw_state" where
  "fw_run w' taken s = s\<lparr>fw_world := w',
     fw_pending := effects (new_calls (fw_world s) w') (fw_pending s - taken)\<rparr>"

definition booted :: "'a world_scheme \<Rightarrow> int \<Rightarrow> 'a world_scheme \<Rightarrow> 'a world_scheme fw_state" where
  "booted w0 rc w = \<lparr>fw_world = w, fw_pending = effects (new_calls w0 w) {}, fw_down = False,
     fw_started = (rc = EXIT_SUCCESS)\<rparr>"

inductive fw_step ::
  "('rc, 'p80, 'p81) ant_sdk \<Rightarrow> app_config \<Rightarrow> hw \<Rightarrow> env \<Rightarrow> ('rc, 'p80, 'p81, 'z) bt_world_scheme fw_state
    \<Rightarrow> ('rc, 'p80, 'p81, 'z) bt_world_scheme fw_state \<Rightarrow> bool"
  for sdk cfg hw e where
  step_event: "\<not> fw_down s \<Longrightarrow> work_of ev \<subseteq> fw_pending s \<Longrightarrow> handle sdk hw e ev (fw_world s) = Some w' \<Longrightarrow>
    fw_step sdk cfg hw e s (fw_run w' (work_of ev) s)"
| step_supervise: "\<not> fw_down s \<Longrightarrow> Supervision_work \<in> fw_pending s \<Longrightarrow>
    fw_step sdk cfg hw e s (fw_run (supervise e (fw_world s)) {Supervision_work} s)"
| step_poweroff: "\<not> fw_down s \<Longrightarrow> Poweroff_work \<in> fw_pending s \<Longrightarrow> poweroff hw e (fw_world s) = (off, w') \<Longrightarrow>
    fw_step sdk cfg hw e s ((fw_run w' {Poweroff_work} s)\<lparr>fw_down := off\<rparr>)"
| step_reboot: "\<not> fw_down s \<Longrightarrow> Reboot_work \<in> fw_pending s \<Longrightarrow>
    fw_step sdk cfg hw e s ((fw_run (reboot_work_wrapper e (fw_world s)) {Reboot_work} s)\<lparr>fw_down := True\<rparr>)"
| step_boot: "retained_obj w0 = retained_obj (fw_world s) \<Longrightarrow> main sdk cfg hw e w0 = Some (rc, w') \<Longrightarrow>
    fw_step sdk cfg hw e s (booted w0 rc w')"

inductive_cases fw_stepE: "fw_step sdk cfg hw e s t"

definition fw_init ::
  "('rc, 'p80, 'p81) ant_sdk \<Rightarrow> app_config \<Rightarrow> hw \<Rightarrow> env \<Rightarrow> ('rc, 'p80, 'p81, 'z) bt_world_scheme fw_state \<Rightarrow> bool" where
  "fw_init sdk cfg hw e s \<longleftrightarrow> (\<exists>w0 rc w. main sdk cfg hw e w0 = Some (rc, w) \<and> s = booted w0 rc w)"

definition fw_inv :: "hw \<Rightarrow> ('rc, 'p80, 'p81, 'z) bt_world_scheme fw_state \<Rightarrow> bool" where
  "fw_inv hw s \<longleftrightarrow> sealed hw (fw_world s)
     \<and> (\<not> fw_down s \<longrightarrow> (if fw_started s then (Supervision_work \<in> fw_pending s) \<noteq> (Poweroff_work \<in> fw_pending s)
          else Supervision_work \<notin> fw_pending s \<and> Poweroff_work \<notin> fw_pending s))"

lemma booted_inv: "main sdk cfg hw e w0 = Some (rc, w) \<Longrightarrow> fw_inv hw (booted w0 rc w)"
  using main_result [of sdk cfg hw e w0 rc w] by (auto simp: fw_inv_def booted_def sealed_def)

lemma event_inv:
  assumes "fw_inv hw s" "handle sdk hw e ev (fw_world s) = Some w'"
  shows "fw_inv hw (fw_run w' (work_of ev) s)"
proof -
  have k: "sealed hw (fw_world s)" using assms(1) by (simp add: fw_inv_def)
  note run = handler.op_run [OF assms(2) k]
  have "handler_calls \<inter> work_calls wk = {}" if "wk = Supervision_work \<or> wk = Poweroff_work" for wk
    using handler_calls_quiet that by (auto simp: power_calls_def)
  then have "wk \<in> fw_pending (fw_run w' (work_of ev) s) \<longleftrightarrow> wk \<in> fw_pending s"
    if "wk = Supervision_work \<or> wk = Poweroff_work" for wk
    using run(2) that by (cases ev) (auto simp: fw_run_def)
  with assms(1) run(1) show ?thesis by (simp add: fw_inv_def fw_run_def)
qed

lemma new_calls_power:
  "new_calls w (supervise e w) = [if env_rc e (calls w) (Gpio_pin_get_dt Wake_signal) = 0
     then K_work_schedule Poweroff_work 500 else K_work_schedule Supervision_work 1000, Gpio_pin_get_dt Wake_signal]"
  by (rule new_calls_eq) (simp add: supervise_def invoke_def)

lemma supervise_inv:
  assumes "fw_inv hw s" "\<not> fw_down s" "Supervision_work \<in> fw_pending s"
  shows "fw_inv hw (fw_run (supervise e (fw_world s)) {Supervision_work} s)"
proof -
  have "retained_obj (supervise e (fw_world s)) = retained_obj (fw_world s)" by (simp add: supervise_def invoke_def)
  then show ?thesis
    using assms by (auto simp: fw_inv_def fw_run_def new_calls_power work_effect_def sealed_def split: if_splits)
qed

lemma poweroff_inv:
  assumes "fw_inv hw s" "\<not> fw_down s" "Poweroff_work \<in> fw_pending s" "poweroff hw e (fw_world s) = (off, w')"
  shows "fw_inv hw ((fw_run w' {Poweroff_work} s)\<lparr>fw_down := off\<rparr>)"
proof (cases off)
  case True
  then have "sealed hw w'"
    using assms(4) by (auto simp: poweroff_def invoke_def Let_def sealed_def retained_update_obj seal_valid split: if_splits)
  with True show ?thesis by (simp add: fw_inv_def fw_run_def)
next
  case False
  then have w': "retained_obj w' = retained_obj (fw_world s)" "calls w' = [K_work_schedule Supervision_work 1000,
      Gpio_pin_interrupt_configure_dt Wake_signal GPIO_INT_LEVEL_ACTIVE] @ calls (fw_world s)"
    using assms(4) by (auto simp: poweroff_def invoke_def Let_def split: if_splits)
  with assms(1-3) show ?thesis
    by (auto simp: fw_inv_def fw_run_def new_calls_eq [OF w'(2)] work_effect_def sealed_def split: if_splits)
qed

lemma reboot_inv:
  "fw_inv hw s \<Longrightarrow> fw_inv hw ((fw_run (reboot_work_wrapper e (fw_world s)) P s)\<lparr>fw_down := True\<rparr>)"
  by (simp add: fw_inv_def fw_run_def reboot_work_wrapper_def sealed_def)

lemma fw_inv_step: "fw_inv hw s \<Longrightarrow> fw_step sdk cfg hw e s t \<Longrightarrow> fw_inv hw t"
  by (erule fw_stepE)
    (auto intro: event_inv supervise_inv poweroff_inv reboot_inv booted_inv)

interpretation fw: invariant_machine "fw_init sdk cfg hw e" "fw_step sdk cfg hw e" "fw_inv hw" for sdk cfg hw e
  by unfold_locales (auto simp: fw_init_def intro: booted_inv fw_inv_step)

subsection \<open>A boot with answering services\<close>

lemma stored_issues:
  assumes "issues A w w'" "\<And>v. Settings_save_one k v \<notin> A"
  shows "stored e flash (calls w') k = stored e flash (calls w) k"
proof -
  obtain cs where cs: "calls w' = cs @ calls w" "set cs \<subseteq> A" using assms(1) by (auto simp: issues_def)
  have "stored e flash (cs @ h) k = stored e flash h k" for h
    using cs(2)
  proof (induction cs)
    case (Cons c cs)
    then show ?case using assms(2) by (cases c) auto
  qed simp
  then show ?thesis by (simp add: cs(1))
qed

definition boot_calls_succeed :: "env \<Rightarrow> bool" where
  "boot_calls_succeed e \<longleftrightarrow> saves_succeed e \<and> stack_calls_succeed e
     \<and> (\<forall>cs. env_rc e cs Settings_subsys_init = 0 \<and> env_rc e cs (Gpio_is_ready_dt Wake_signal) \<noteq> 0
        \<and> env_rc e cs (Gpio_pin_configure_dt Wake_signal) = 0)"

lemma spim_init_returns: "\<exists>r cs. spim_init False e w = Some (r, w\<lparr>calls := cs @ calls w\<rparr>)"
  for w :: "'a retained_world_scheme"
proof -
  have "\<exists>r cs. spim_init False e w = Some (r, w\<lparr>calls := cs\<rparr>)"
    by (auto simp: spim_init_def invoke_def Let_def)
  then obtain r cs where s: "spim_init False e w = Some (r, w\<lparr>calls := cs\<rparr>)" by blast
  from spim_init_framed [OF s] obtain ds where "cs = ds @ calls w" by (auto simp: framed_def issues_def)
  with s show ?thesis by blast
qed

lemma power_management_succeeds:
  fixes w :: "'a retained_world_scheme"
  assumes "boot_calls_succeed e"
  shows "\<exists>cs. set cs \<subseteq> wake_calls \<and> main_power_management e w
    = Some (EXIT_SUCCESS, w\<lparr>calls := K_work_schedule Supervision_work SUPERVISION_CYCLE_TIME_MS # cs @ calls w\<rparr>)"
proof -
  let ?w2 = "w\<lparr>calls := Gpio_pin_configure_dt Wake_signal # Gpio_is_ready_dt Wake_signal # calls w\<rparr>"
  obtain r cs where s: "spim_init False e ?w2
    = Some (r, w\<lparr>calls := cs @ Gpio_pin_configure_dt Wake_signal # Gpio_is_ready_dt Wake_signal # calls w\<rparr>)"
    using spim_init_returns [of e ?w2] by auto
  from spim_init_framed [OF s] have "set cs \<subseteq> wake_calls"
    by (auto simp: framed_def issues_def wake_calls_def)
  with s show ?thesis
    using assms by (intro exI [of _ "cs @ [Gpio_pin_configure_dt Wake_signal, Gpio_is_ready_dt Wake_signal]"])
      (simp add: main_power_management_def invoke_def boot_calls_succeed_def wake_calls_def)
qed

lemma main_succeeds:
  assumes "settings_backend e flash finish" "finish (- EINVAL) = 0" "boot_calls_succeed e"
    and "reset_clears_requests sdk" "sdk_pages sdk wire80 wire81" "retained_placed hw"
  shows "\<exists>w'. main sdk cfg hw e w = Some (EXIT_SUCCESS, w')
    \<and> page_16 (tpms w') = configured_page_16 e flash (calls w)
    \<and> p1_role (page_1 (tpms w')) = p16_role (page_16 (tpms w'))
    \<and> channel_number (tpms w') = 0 \<and> config_handler (sens_cb w') = Fun ''ant_tpms_config_handler''
    \<and> (\<forall>idb. stored e flash (calls w) ''id'' = Some idb \<and> length idb = 2
        \<longrightarrow> cfg_device_number (tpms_channel_tpms_sens_config w') = uint16_decode idb 0
          \<and> stored e flash (calls w') ''id'' = Some idb)
    \<and> (\<exists>cs tx rest. set cs \<subseteq> wake_calls \<and> calls w' = K_work_schedule Supervision_work SUPERVISION_CYCLE_TIME_MS
        # cs @ Ant_channel_open 0 # tx # rest)"
proof -
  obtain ok w1 where v: "retained_validate hw e w = Some (ok, w1)"
    using retained_validate_result [OF assms(6), of e w] by blast
  define w2 where "w2 = retained_update hw e (w1\<lparr>retained_obj := (retained_obj w1)\<lparr>boots := boots (retained_obj w1) + 1\<rparr>\<rparr>)"
  define w3 where "w3 = w2\<lparr>calls := Mgmt_callback_register # calls w2\<rparr>"
  have "stored e flash (calls w1) k = stored e flash (calls w) k" for k
    using validate_returns [OF v] by (intro stored_issues [of retention_calls]) (auto simp: retention_calls_def)
  then have 3: "stored e flash (calls w3) k = stored e flash (calls w) k" for k by (simp add: w3_def w2_def)
  define hwid where "hwid = fst (get_hwid_16bit (HW_ID_LEN cfg) e (w3\<lparr>calls := Settings_subsys_init # calls w3\<rparr>))"
  have "save_succeeds e ''id'' (le_bytes 2 hwid) 0 (Hw_id_get # Settings_subsys_init # calls w3)"
    using assms(3) by (simp add: save_succeeds_def boot_calls_succeed_def saves_succeed_def)
  note sr = start_settings_result [where dest = "[]", OF assms(1,2) _ hwid_def this]
  have "env_rc e (calls w3) Settings_subsys_init = 0" using assms(3) by (simp add: boot_calls_succeed_def)
  from sr [OF this] obtain w4 idv where
    s: "start_settings_subsys (HW_ID_LEN cfg) e w3 = Some (0, w4)"
    and id: "idv = (case stored e flash (calls w3) ''id'' of
             Some old \<Rightarrow> if length old = 2 then old else le_bytes 2 hwid | None \<Rightarrow> le_bytes 2 hwid)"
    and 4: "stored e flash (calls w4) ''id'' = Some idv"
      "\<And>k. k \<noteq> ''id'' \<Longrightarrow> stored e flash (calls w4) k = stored e flash (calls w3) k"
    by blast
  define w5 where "w5 = (if boots (retained_obj w4) \<le> 1 then start_bluetooth_services e w4 else w4)"
  have 5: "stored e flash (calls w5) k = stored e flash (calls w4) k" for k
    by (simp add: w5_def start_bluetooth_services_def)
  have len: "length idv = 2" using id by (simp split: option.splits)
  have "saves_succeed e" "stack_calls_succeed e" using assms(3) by (simp_all add: boot_calls_succeed_def)
  note ar = start_ant_device_result [OF assms(1,2) this(1) assms(4,5) this(2), of w5 idv cfg]
  obtain w6 where a: "start_ant_device sdk cfg e w5 = Some (0, w6)"
    "page_16 (tpms w6) = configured_page_16 e flash (calls w5)"
    "p1_role (page_1 (tpms w6)) = p16_role (page_16 (tpms w6))"
    "cfg_device_number (tpms_channel_tpms_sens_config w6) = uint16_decode idv 0"
    "channel_number (tpms w6) = 0" "config_handler (sens_cb w6) = Fun ''ant_tpms_config_handler''"
    and o: "\<exists>tx rest. calls w6 = Ant_channel_open 0 # tx # rest"
    using ar [OF _ len] by (auto simp: 4 5)
  have p16: "configured_page_16 e flash (calls w5) = configured_page_16 e flash (calls w)"
    by (simp add: configured_page_16_def stored_or_def 5 4(2) 3)
  obtain cs where cs: "set cs \<subseteq> wake_calls" and p: "main_power_management e w6 = Some (EXIT_SUCCESS,
      w6\<lparr>calls := K_work_schedule Supervision_work SUPERVISION_CYCLE_TIME_MS # cs @ calls w6\<rparr>)" (is "_ = Some (_, ?w7)")
    using power_management_succeeds [OF assms(3)] by blast
  have m: "main sdk cfg hw e w = Some (EXIT_SUCCESS, ?w7)"
    by (simp only: main_def v option.case prod.case Let_def w2_def [symmetric] issue_simp w3_def [symmetric] s
        w5_def [symmetric] a p)
  have "stored e flash (calls w6) ''id'' = stored e flash (calls w5) ''id''"
    by (rule stored_issues [of ant_calls]) (use start_ant_framed [OF a(1)] in \<open>auto simp: framed_def ant_calls_def
        config_calls_def key_calls_def transmit_calls_def\<close>)
  moreover have "stored e flash (calls ?w7) ''id'' = stored e flash (calls w6) ''id''"
    by (rule stored_issues [of "insert (K_work_schedule Supervision_work SUPERVISION_CYCLE_TIME_MS) wake_calls"])
      (use cs in \<open>auto simp: issues_def wake_calls_def spim_init_calls_def\<close>)
  ultimately have s7: "stored e flash (calls ?w7) ''id'' = Some idv" using 4(1) 5 by simp
  have "cfg_device_number (tpms_channel_tpms_sens_config w6) = uint16_decode idb 0 \<and> idv = idb"
    if "stored e flash (calls w) ''id'' = Some idb" "length idb = 2" for idb
    using that a(4) by (simp add: id 3)
  moreover obtain tx rest where "calls w6 = Ant_channel_open 0 # tx # rest" using o by blast
  ultimately show ?thesis
    using a(2,3,5,6) cs s7 by (intro exI [of _ ?w7]) (auto simp: m p16)
qed

subsection \<open>Properties\<close>

text \<open>
  Property C7: with answering services, a boot from any retained and other memory returns success;
  afterwards page 16 is what the persistent settings say, page 1 shows the same role, the
  configuration handler is installed, the channel was opened under the stored device id, and
  supervision was scheduled last. None of the loops of the start runs for ever.
\<close>

theorem main_configures:
  assumes "settings_backend e flash finish" "finish (- EINVAL) = 0" "boot_calls_succeed e"
    and "reset_clears_requests sdk" "sdk_pages sdk wire80 wire81" "retained_placed hw"
  shows "\<exists>w'. main sdk cfg hw e w = Some (EXIT_SUCCESS, w')
    \<and> page_16 (tpms w') = configured_page_16 e flash (calls w)
    \<and> p1_role (page_1 (tpms w')) = p16_role (page_16 (tpms w'))
    \<and> config_handler (sens_cb w') = Fun ''ant_tpms_config_handler''
    \<and> (\<forall>idb. stored e flash (calls w) ''id'' = Some idb \<and> length idb = 2
        \<longrightarrow> cfg_device_number (tpms_channel_tpms_sens_config w') = uint16_decode idb 0
          \<and> stored e flash (calls w') ''id'' = Some idb)
    \<and> (\<exists>cs tx rest. set cs \<subseteq> wake_calls \<and> calls w' = K_work_schedule Supervision_work SUPERVISION_CYCLE_TIME_MS
        # cs @ Ant_channel_open 0 # tx # rest)"
  using main_succeeds [OF assms, of cfg w] by blast

text \<open>
  Property C1: in every state the firmware can reach, by any order of boots, sensor interrupts, ANT
  events, Bluetooth callbacks, firmware updates and timers, the retained data are sealed, so a
  reset between two handlers never loses them; and while the processor is up, exactly one of
  supervision and power-off is pending if \<open>main\<close> returned success, so the device never stays on unsupervised
  then. If \<open>main\<close> returned failure (the wake signal was not ready or could not be configured), neither is
  ever pending before the next boot: the device stays on, with the ANT device running, and nothing
  looks at the wake signal. (A boot whose \<open>main\<close> never returns, because a setting cannot be saved, is not a
  step of the model.)
\<close>

theorem firmware_supervised:
  assumes "reachable (fw_init sdk cfg hw e) (fw_step sdk cfg hw e) s"
  shows "(crc_law (crc32_ieee hw) \<longrightarrow> retained_valid hw (retained_obj (fw_world s)))
    \<and> (\<not> fw_down s \<longrightarrow> (if fw_started s then (Supervision_work \<in> fw_pending s) \<noteq> (Poweroff_work \<in> fw_pending s)
         else Supervision_work \<notin> fw_pending s \<and> Poweroff_work \<notin> fw_pending s))"
  using fw.inv_reachable [OF assms] by (simp add: fw_inv_def sealed_def)

lemma poweroff_armed:
  assumes "\<And>cs. env_rc e cs (Gpio_pin_interrupt_configure_dt Wake_signal GPIO_INT_LEVEL_ACTIVE) = 0"
  shows "\<exists>w'. poweroff hw e w = (True, w') \<and> hd (calls w') = Sys_poweroff
    \<and> off_count (retained_obj w') = off_count (retained_obj w) + 1"
  by (simp add: poweroff_def invoke_def Let_def assms retained_update_obj)

text \<open>
  The device can always go to sleep: from every reachable state that is up after a successful start, if the
  wake signal is inactive and its interrupt can be armed, at most two timers lead to the system
  being switched off, with the power-off counted.
\<close>

theorem firmware_can_power_off:
  assumes "reachable (fw_init sdk cfg hw e) (fw_step sdk cfg hw e) s" "\<not> fw_down s" "fw_started s"
    and "\<And>cs. env_rc e cs (Gpio_pin_get_dt Wake_signal) = 0"
    and "\<And>cs. env_rc e cs (Gpio_pin_interrupt_configure_dt Wake_signal GPIO_INT_LEVEL_ACTIVE) = 0"
  shows "\<exists>n \<le> 2. \<exists>t. (fw_step sdk cfg hw e ^^ n) s t \<and> fw_down t
    \<and> hd (calls (fw_world t)) = Sys_poweroff
    \<and> off_count (retained_obj (fw_world t)) = off_count (retained_obj (fw_world s)) + 1"
proof -
  have off: "\<exists>t. fw_step sdk cfg hw e s' t \<and> fw_down t \<and> hd (calls (fw_world t)) = Sys_poweroff
      \<and> off_count (retained_obj (fw_world t)) = off_count (retained_obj (fw_world s')) + 1"
    if s': "\<not> fw_down s'" "Poweroff_work \<in> fw_pending s'" for s'
  proof -
    obtain w' where w': "poweroff hw e (fw_world s') = (True, w')" "hd (calls w') = Sys_poweroff"
      "off_count (retained_obj w') = off_count (retained_obj (fw_world s')) + 1"
      using poweroff_armed [OF assms(5)] by blast
    show ?thesis
      by (rule exI, rule conjI, rule step_poweroff [OF s' w'(1)]) (simp add: fw_run_def w')
  qed
  show ?thesis
  proof (cases "Poweroff_work \<in> fw_pending s")
    case True
    with off [OF assms(2)] show ?thesis by (intro exI [of _ 1]) auto
  next
    case False
    then have "Supervision_work \<in> fw_pending s"
      using fw.inv_reachable [OF assms(1)] assms(2,3) by (simp add: fw_inv_def)
    note st = step_supervise [OF assms(2) this]
    let ?t = "fw_run (supervise e (fw_world s)) {Supervision_work} s"
    have "\<not> fw_down ?t" "Poweroff_work \<in> fw_pending ?t" "retained_obj (fw_world ?t) = retained_obj (fw_world s)"
      using assms(2) by (simp_all add: fw_run_def new_calls_power assms(4) work_effect_def)
        (simp add: supervise_def invoke_def)
    with off [of ?t] obtain u where "fw_step sdk cfg hw e ?t u" "fw_down u" "hd (calls (fw_world u)) = Sys_poweroff"
      "off_count (retained_obj (fw_world u)) = off_count (retained_obj (fw_world s)) + 1" by auto
    with st [of sdk cfg hw] have "(fw_step sdk cfg hw e ^^ 2) s u" by (auto simp: numeral_2_eq_2 OO_def)
    with \<open>fw_down u\<close> \<open>hd (calls (fw_world u)) = Sys_poweroff\<close>
      \<open>off_count (retained_obj (fw_world u)) = _\<close> show ?thesis by blast
  qed
qed

subsection \<open>Witnesses\<close>

definition boot_rc :: "call list \<Rightarrow> call \<Rightarrow> int" where
  "boot_rc cs c = (if c = Gpio_is_ready_dt Wake_signal then 1 else 0)"

abbreviation boot_env :: env where "boot_env \<equiv> store_env boot_rc demo_flash"

lemma boot_env_laws: "boot_calls_succeed boot_env" "saves_succeed boot_env" "env_rc boot_env cs (Gpio_pin_get_dt Wake_signal) = 0"
  "env_rc boot_env cs (Gpio_pin_interrupt_configure_dt Wake_signal GPIO_INT_LEVEL_ACTIVE) = 0"
  by (simp_all add: boot_calls_succeed_def saves_succeed_def stack_calls_succeed_def channel_calls_succeed_def boot_rc_def)

lemma demo_boot: "\<exists>w. main demo_sdk demo_app nrf52_hw boot_env demo_bt_world = Some (EXIT_SUCCESS, w)"
  using main_succeeds [OF store_env_backend refl boot_env_laws(1) demo_sdk_laws(1,3) nrf52_hw_laws(3), of demo_app demo_bt_world]
  by blast

lemma demo_reachable:
  "\<exists>s :: (u8 option, unit, unit) bt_world fw_state.
     reachable (fw_init demo_sdk demo_app nrf52_hw boot_env) (fw_step demo_sdk demo_app nrf52_hw boot_env) s
     \<and> \<not> fw_down s \<and> fw_started s"
proof -
  obtain w where w: "main demo_sdk demo_app nrf52_hw boot_env demo_bt_world = Some (EXIT_SUCCESS, w)"
    using demo_boot by blast
  then have "fw_init demo_sdk demo_app nrf52_hw boot_env (booted demo_bt_world EXIT_SUCCESS w)" by (auto simp: fw_init_def)
  then show ?thesis by (intro exI [of _ "booted demo_bt_world EXIT_SUCCESS w"]) (simp add: reach_init booted_def)
qed

theorem main_configures_witness:
  "\<exists>w. main demo_sdk demo_app nrf52_hw boot_env demo_bt_world = Some (EXIT_SUCCESS, w)
     \<and> cfg_device_number (tpms_channel_tpms_sens_config w) = 0x1234"
proof -
  have "uint16_decode [0x34, 0x12] 0 = 0x1234" by (simp add: uint16_decode_def)
  then show ?thesis
    using main_configures [OF store_env_backend refl boot_env_laws(1) demo_sdk_laws(1,3) nrf52_hw_laws(3),
        where w = demo_bt_world and cfg = demo_app]
    by (auto simp: demo_flash_def)
qed

theorem main_boot_witness:
  "\<exists>w. main demo_sdk demo_app nrf52_hw boot_env demo_bt_world = Some (EXIT_SUCCESS, w)
     \<and> Supervision_work \<in> effects (new_calls demo_bt_world w) {}"
  using demo_boot main_boot [OF nrf52_hw_laws(1), of demo_sdk demo_app boot_env demo_bt_world EXIT_SUCCESS] by blast

theorem dfu_enables_bluetooth_witness:
  "\<exists>w. main demo_sdk demo_app nrf52_hw boot_env
       (dfu_pending_cb nrf52_hw boot_env MGMT_EVT_OP_IMG_MGMT_DFU_PENDING
          (demo_bt_world\<lparr>retained_obj := retained_zero\<lparr>boots := 7\<rparr>\<rparr>)) = Some (EXIT_SUCCESS, w)
     \<and> boots (retained_obj w) = 1"
proof -
  let ?wb = "dfu_pending_cb nrf52_hw boot_env MGMT_EVT_OP_IMG_MGMT_DFU_PENDING
      (demo_bt_world\<lparr>retained_obj := retained_zero\<lparr>boots := 7\<rparr>\<rparr>)"
  obtain w where "main demo_sdk demo_app nrf52_hw boot_env ?wb = Some (EXIT_SUCCESS, w)"
    using main_succeeds [OF store_env_backend refl boot_env_laws(1) demo_sdk_laws(1,3) nrf52_hw_laws(3), of demo_app ?wb]
    by blast
  with dfu_enables_bluetooth [OF nrf52_hw_laws(1) refl this] show ?thesis by blast
qed

theorem firmware_supervised_witness:
  "\<exists>s :: (u8 option, unit, unit) bt_world fw_state.
     reachable (fw_init demo_sdk demo_app nrf52_hw boot_env) (fw_step demo_sdk demo_app nrf52_hw boot_env) s
     \<and> retained_valid nrf52_hw (retained_obj (fw_world s))"
  using demo_reachable firmware_supervised nrf52_hw_laws(1) by blast

theorem firmware_can_power_off_witness:
  "\<exists>(s :: (u8 option, unit, unit) bt_world fw_state) t n.
     reachable (fw_init demo_sdk demo_app nrf52_hw boot_env) (fw_step demo_sdk demo_app nrf52_hw boot_env) s
     \<and> (fw_step demo_sdk demo_app nrf52_hw boot_env ^^ n) s t \<and> fw_down t"
  using demo_reachable firmware_can_power_off [OF _ _ _ boot_env_laws(3,4)] by blast

end
