(* ===== verification/Timing.thy ===== *)
theory Timing
  imports Firmware
begin

text \<open>
  The firmware in time. \<open>Firmware\<close> drops the delays of the work items; here each pending item has the
  time it is due, in milliseconds, and the clock advances by ticks. A work item runs no earlier than it is due
  and no later than \<open>lat\<close> milliseconds after, a bound on what the work queue, interrupts and other
  handlers can delay it. The timed firmware refines the untimed one, so its invariants hold, and
  the delays of \<open>main.c\<close> and \<open>bluetooth.c\<close> become bounds: on the supervision of the wake signal, the power-off,
  the shutdown of Bluetooth and the restart for a new device id. Sessions begin when \<open>main\<close> has returned, with
  success (\<open>tm_started\<close>) or with failure.
\<close>

subsection \<open>Due times\<close>

text \<open>
  Zephyr's work queue: scheduling or submitting an item that is already pending leaves it as it is.
\<close>

definition due_effect :: "nat \<Rightarrow> call \<Rightarrow> (work \<Rightarrow> nat option) \<Rightarrow> (work \<Rightarrow> nat option)" where
  "due_effect now c due = (case c of
       K_work_schedule wk delay \<Rightarrow> if due wk = None then due(wk \<mapsto> now + delay) else due
     | K_work_submit wk \<Rightarrow> if due wk = None then due(wk \<mapsto> now) else due
     | K_work_cancel_delayable wk \<Rightarrow> due(wk := None)
     | _ \<Rightarrow> due)"

text \<open>The effect of a history, latest call first.\<close>

definition dues :: "nat \<Rightarrow> call list \<Rightarrow> (work \<Rightarrow> nat option) \<Rightarrow> (work \<Rightarrow> nat option)" where
  "dues now cs due = foldr (due_effect now) cs due"

lemma dues_simps [simp]:
  "dues now [] due = due" "dues now (c # cs) due = due_effect now c (dues now cs due)"
  "dues now (cs @ ds) due = dues now cs (dues now ds due)"
  by (simp_all add: dues_def)

lemma dom_due_effect: "dom (due_effect now c due) = work_effect c (dom due)"
  by (auto simp: due_effect_def work_effect_def split: call.splits)

lemma dom_dues: "dom (dues now cs due) = effects cs (dom due)"
  by (induction cs) (simp_all add: dom_due_effect)

lemma due_effect_other: "c \<notin> work_calls wk \<Longrightarrow> due_effect now c due wk = due wk"
  by (auto simp: due_effect_def work_calls_def split: call.splits)

lemma dues_other: "set cs \<inter> work_calls wk = {} \<Longrightarrow> dues now cs due wk = due wk"
  by (induction cs) (auto simp: due_effect_other)

subsection \<open>The timed firmware\<close>

record 'w timed_state =
  tm_world :: 'w
  tm_due :: "work \<Rightarrow> nat option"
  tm_down :: bool
  tm_started :: bool
  tm_now :: nat

definition timed_run :: "'a world_scheme \<Rightarrow> work set \<Rightarrow> 'a world_scheme timed_state \<Rightarrow> 'a world_scheme timed_state" where
  "timed_run w' taken s = s\<lparr>tm_world := w',
     tm_due := dues (tm_now s) (new_calls (tm_world s) w') (tm_due s |` (- taken))\<rparr>"

lemma timed_run_simps [simp]:
  "tm_world (timed_run w' taken s) = w'" "tm_down (timed_run w' taken s) = tm_down s"
  "tm_started (timed_run w' taken s) = tm_started s"
  "tm_now (timed_run w' taken s) = tm_now s"
  by (simp_all add: timed_run_def)

definition ready :: "'w timed_state \<Rightarrow> work \<Rightarrow> bool" where
  "ready s wk \<longleftrightarrow> (\<exists>d. tm_due s wk = Some d \<and> d \<le> tm_now s)"

definition timed_boot :: "nat \<Rightarrow> 'a world_scheme \<Rightarrow> int \<Rightarrow> 'a world_scheme \<Rightarrow> 'a world_scheme timed_state" where
  "timed_boot now w0 rc w = \<lparr>tm_world = w, tm_due = dues now (new_calls w0 w) Map.empty, tm_down = False,
     tm_started = (rc = EXIT_SUCCESS), tm_now = now\<rparr>"

text \<open>A step of a session, that is, without a boot; the processor may be off.\<close>

inductive session_step ::
  "('rc, 'p80, 'p81) ant_sdk \<Rightarrow> hw \<Rightarrow> env \<Rightarrow> nat \<Rightarrow> ('rc, 'p80, 'p81, 'z) bt_world_scheme timed_state
    \<Rightarrow> ('rc, 'p80, 'p81, 'z) bt_world_scheme timed_state \<Rightarrow> bool"
  for sdk hw e lat where
  time_tick: "tm_down s \<or> (\<forall>wk d. tm_due s wk = Some d \<longrightarrow> tm_now s < d + lat) \<Longrightarrow>
    session_step sdk hw e lat s (s\<lparr>tm_now := Suc (tm_now s)\<rparr>)"
| time_event: "\<not> tm_down s \<Longrightarrow> \<forall>wk \<in> work_of ev. ready s wk \<Longrightarrow> handle sdk hw e ev (tm_world s) = Some w' \<Longrightarrow>
    session_step sdk hw e lat s (timed_run w' (work_of ev) s)"
| time_supervise: "\<not> tm_down s \<Longrightarrow> ready s Supervision_work \<Longrightarrow>
    session_step sdk hw e lat s (timed_run (supervise e (tm_world s)) {Supervision_work} s)"
| time_poweroff: "\<not> tm_down s \<Longrightarrow> ready s Poweroff_work \<Longrightarrow> poweroff hw e (tm_world s) = (off, w') \<Longrightarrow>
    session_step sdk hw e lat s ((timed_run w' {Poweroff_work} s)\<lparr>tm_down := off\<rparr>)"
| time_reboot: "\<not> tm_down s \<Longrightarrow> ready s Reboot_work \<Longrightarrow>
    session_step sdk hw e lat s ((timed_run (reboot_work_wrapper e (tm_world s)) {Reboot_work} s)\<lparr>tm_down := True\<rparr>)"

inductive timed_step ::
  "('rc, 'p80, 'p81) ant_sdk \<Rightarrow> app_config \<Rightarrow> hw \<Rightarrow> env \<Rightarrow> nat \<Rightarrow> ('rc, 'p80, 'p81, 'z) bt_world_scheme timed_state
    \<Rightarrow> ('rc, 'p80, 'p81, 'z) bt_world_scheme timed_state \<Rightarrow> bool"
  for sdk cfg hw e lat where
  timed_session: "session_step sdk hw e lat s t \<Longrightarrow> timed_step sdk cfg hw e lat s t"
| timed_restart: "retained_obj w0 = retained_obj (tm_world s) \<Longrightarrow> main sdk cfg hw e w0 = Some (rc, w') \<Longrightarrow>
    timed_step sdk cfg hw e lat s (timed_boot (tm_now s) w0 rc w')"

inductive_cases session_stepE: "session_step sdk hw e lat s t"
inductive_cases timed_stepE: "timed_step sdk cfg hw e lat s t"

definition timed_init ::
  "('rc, 'p80, 'p81) ant_sdk \<Rightarrow> app_config \<Rightarrow> hw \<Rightarrow> env \<Rightarrow> ('rc, 'p80, 'p81, 'z) bt_world_scheme timed_state \<Rightarrow> bool" where
  "timed_init sdk cfg hw e s \<longleftrightarrow> (\<exists>now w0 rc w. main sdk cfg hw e w0 = Some (rc, w) \<and> s = timed_boot now w0 rc w)"

subsection \<open>Refinement of the untimed firmware\<close>

definition untimed :: "'w timed_state \<Rightarrow> 'w fw_state" where
  "untimed s = \<lparr>fw_world = tm_world s, fw_pending = dom (tm_due s), fw_down = tm_down s,
     fw_started = tm_started s\<rparr>"

lemma untimed_simps [simp]:
  "fw_world (untimed s) = tm_world s" "fw_pending (untimed s) = dom (tm_due s)" "fw_down (untimed s) = tm_down s"
  "fw_started (untimed s) = tm_started s"
  "untimed (s\<lparr>tm_now := n\<rparr>) = untimed s" "untimed (s\<lparr>tm_down := b\<rparr>) = (untimed s)\<lparr>fw_down := b\<rparr>"
  by (simp_all add: untimed_def)

lemma untimed_run: "untimed (timed_run w' taken s) = fw_run w' taken (untimed s)"
  by (simp add: untimed_def timed_run_def fw_run_def dom_dues Diff_eq Int_commute)

lemma untimed_boot: "untimed (timed_boot now w0 rc w) = booted w0 rc w"
  by (simp add: untimed_def timed_boot_def booted_def dom_dues)

lemma ready_pending: "ready s wk \<Longrightarrow> wk \<in> dom (tm_due s)"
  by (auto simp: ready_def)

lemma timed_simulates:
  assumes "timed_step sdk cfg hw e lat s t"
  shows "untimed t = untimed s \<or> fw_step sdk cfg hw e (untimed s) (untimed t)"
  using assms
proof (rule timed_stepE)
  assume "session_step sdk hw e lat s t"
  then show ?thesis
  proof (rule session_stepE)
    fix ev w' assume "t = timed_run w' (work_of ev) s" "\<not> tm_down s" "\<forall>wk \<in> work_of ev. ready s wk"
      "handle sdk hw e ev (tm_world s) = Some w'"
    moreover from this(3) have "work_of ev \<subseteq> fw_pending (untimed s)" by (auto dest: ready_pending)
    ultimately show ?thesis using step_event [of "untimed s" ev sdk hw e w' cfg] by (simp add: untimed_run)
  next
    assume "t = timed_run (supervise e (tm_world s)) {Supervision_work} s" "\<not> tm_down s" "ready s Supervision_work"
    then show ?thesis using step_supervise [of "untimed s" sdk cfg hw e] ready_pending [of s] by (simp add: untimed_run)
  next
    fix off w' assume "t = (timed_run w' {Poweroff_work} s)\<lparr>tm_down := off\<rparr>" "\<not> tm_down s" "ready s Poweroff_work"
      "poweroff hw e (tm_world s) = (off, w')"
    then show ?thesis using step_poweroff [of "untimed s" hw e off w' sdk cfg] ready_pending [of s] by (simp add: untimed_run)
  next
    assume "t = (timed_run (reboot_work_wrapper e (tm_world s)) {Reboot_work} s)\<lparr>tm_down := True\<rparr>" "\<not> tm_down s"
      "ready s Reboot_work"
    then show ?thesis using step_reboot [of "untimed s" sdk cfg hw e] ready_pending [of s] by (simp add: untimed_run)
  qed simp
next
  fix w0 rc w' assume "t = timed_boot (tm_now s) w0 rc w'" "retained_obj w0 = retained_obj (tm_world s)"
    "main sdk cfg hw e w0 = Some (rc, w')"
  then show ?thesis using step_boot [of w0 "untimed s" sdk cfg hw e rc w'] by (simp add: untimed_boot)
qed

lemma timed_reachable:
  assumes "reachable (timed_init sdk cfg hw e) (timed_step sdk cfg hw e lat) s"
  shows "reachable (fw_init sdk cfg hw e) (fw_step sdk cfg hw e) (untimed s)"
  using assms
proof induction
  case (reach_init s)
  then obtain now w0 rc w where "main sdk cfg hw e w0 = Some (rc, w)" "s = timed_boot now w0 rc w"
    by (auto simp: timed_init_def)
  then have "fw_init sdk cfg hw e (untimed s)" by (auto simp: fw_init_def untimed_boot)
  then show ?case by (rule reachable.reach_init)
next
  case (reach_step s t)
  then show ?case using timed_simulates [OF reach_step.hyps(2)] by (auto intro: reachable.reach_step)
qed

subsection \<open>Deadlines\<close>

text \<open>
  The longest delay the source gives to each work item; \<open>K_work_submit\<close> gives none.
\<close>

fun max_delay :: "work \<Rightarrow> nat" where
  "max_delay Poweroff_work = SYS_POWEROFF_DELAY"
| "max_delay Supervision_work = SUPERVISION_CYCLE_TIME_MS"
| "max_delay Advertise_work = 0"
| "max_delay Disable_bt_work = BT_DISABLE_DELAY"
| "max_delay Reboot_work = REBOOT_DELAY_MS"
| "max_delay Spim_receive_work = SPIM_INT_TRANSFER_DELAY_MS"

definition timely :: "call \<Rightarrow> bool" where
  "timely c \<longleftrightarrow> (\<forall>wk delay. c = K_work_schedule wk delay \<longrightarrow> delay \<le> max_delay wk)"

lemma due_effect_timely:
  "timely c \<Longrightarrow> due_effect now c due wk = Some d \<Longrightarrow> due wk = Some d \<or> now \<le> d \<and> d \<le> now + max_delay wk"
  by (auto simp: due_effect_def timely_def split: call.splits if_splits)

lemma dues_timely:
  assumes "\<forall>c \<in> set cs. timely c" "dues now cs due wk = Some d"
  shows "due wk = Some d \<or> now \<le> d \<and> d \<le> now + max_delay wk"
  using assms by (induction cs arbitrary: d) (auto dest!: due_effect_timely)

lemma handler_calls_timely: "c \<in> handler_calls \<Longrightarrow> timely c"
  by (auto simp: timely_def handler_calls_def receive_calls_def event_calls_def transmit_calls_def config_calls_def
      key_calls_def bt_calls_def)

text \<open>Nothing pending is overdue by more than \<open>lat\<close>, nor further away than its longest delay.\<close>

definition on_time :: "nat \<Rightarrow> 'w timed_state \<Rightarrow> bool" where
  "on_time lat s \<longleftrightarrow> tm_down s
     \<or> (\<forall>wk d. tm_due s wk = Some d \<longrightarrow> tm_now s \<le> d + lat \<and> d \<le> tm_now s + max_delay wk)"

lemma on_time_due:
  "on_time lat s \<Longrightarrow> \<not> tm_down s \<Longrightarrow> tm_due s wk = Some d \<Longrightarrow> tm_now s \<le> d + lat \<and> d \<le> tm_now s + max_delay wk"
  by (simp add: on_time_def)

lemma handler_dues:
  assumes "handle sdk hw e ev w = Some w'" "wk = Supervision_work \<or> wk = Poweroff_work"
  shows "dues now (new_calls w w') due wk = due wk"
proof (rule dues_other)
  have "set (new_calls w w') \<subseteq> handler_calls"
    using handle_framed [OF assms(1)] issues_new_calls by blast
  moreover have "handler_calls \<inter> work_calls wk = {}"
    using handler_calls_quiet assms(2) by (auto simp: power_calls_def)
  ultimately show "set (new_calls w w') \<inter> work_calls wk = {}" by blast
qed

lemma new_calls_poweroff:
  assumes "poweroff hw e w = (False, w')"
  shows "new_calls w w' = [K_work_schedule Supervision_work 1000,
    Gpio_pin_interrupt_configure_dt Wake_signal GPIO_INT_LEVEL_ACTIVE]"
  by (rule new_calls_eq) (use assms in \<open>auto simp: poweroff_def invoke_def Let_def split: if_splits\<close>)

lemma on_time_run:
  assumes "on_time lat s" "\<not> tm_down s" "\<forall>c \<in> set (new_calls (tm_world s) w'). timely c"
  shows "on_time lat (timed_run w' taken s)"
proof -
  have "tm_now s \<le> d + lat \<and> d \<le> tm_now s + max_delay wk"
    if "tm_due (timed_run w' taken s) wk = Some d" for wk d
  proof -
    have "(tm_due s |` (- taken)) wk = Some d \<or> tm_now s \<le> d \<and> d \<le> tm_now s + max_delay wk"
      using that by (intro dues_timely [OF assms(3)]) (simp add: timed_run_def)
    then show ?thesis using assms(1,2) by (auto simp: on_time_def restrict_map_def split: if_splits)
  qed
  then show ?thesis by (simp add: on_time_def)
qed

lemma supervise_dues:
  "tm_due (timed_run (supervise e (tm_world s)) {Supervision_work} s) =
    (if env_rc e (calls (tm_world s)) (Gpio_pin_get_dt Wake_signal) = 0
     then due_effect (tm_now s) (K_work_schedule Poweroff_work 500) ((tm_due s)(Supervision_work := None))
     else (tm_due s)(Supervision_work \<mapsto> tm_now s + 1000))"
proof -
  have r: "tm_due s |` (- {Supervision_work}) = (tm_due s)(Supervision_work := None)"
    by (auto simp: restrict_map_def)
  show ?thesis by (simp add: timed_run_def new_calls_power r due_effect_def)
qed

lemma poweroff_dues:
  "poweroff hw e (tm_world s) = (False, w') \<Longrightarrow> tm_due (timed_run w' {Poweroff_work} s)
    = due_effect (tm_now s) (K_work_schedule Supervision_work 1000) ((tm_due s)(Poweroff_work := None))"
proof -
  assume p: "poweroff hw e (tm_world s) = (False, w')"
  have r: "tm_due s |` (- {Poweroff_work}) = (tm_due s)(Poweroff_work := None)"
    by (auto simp: restrict_map_def)
  show ?thesis by (simp add: timed_run_def new_calls_poweroff [OF p] r due_effect_def)
qed

lemma event_dues:
  assumes "handle sdk hw e ev (tm_world s) = Some w'" "wk = Supervision_work \<or> wk = Poweroff_work"
  shows "tm_due (timed_run w' (work_of ev) s) wk = tm_due s wk"
  using handler_dues [OF assms] assms(2) by (cases ev) (auto simp: timed_run_def)

lemma boot_dues:
  assumes "main sdk cfg hw e w0 = Some (rc, w)"
  shows "tm_due (timed_boot now w0 rc w) = (if rc = EXIT_SUCCESS then [Supervision_work \<mapsto> now + 1000] else Map.empty)"
proof -
  obtain bs where bs: "new_calls w0 w = (if rc = EXIT_SUCCESS then [K_work_schedule Supervision_work 1000] else []) @ bs"
    "\<And>wk. set bs \<inter> work_calls wk = {}"
    using main_result(10) [OF assms] by auto
  have "dues now bs Map.empty = Map.empty" using dues_other [OF bs(2)] by blast
  then show ?thesis by (simp add: timed_boot_def bs(1) due_effect_def)
qed

lemma on_time_session:
  assumes "on_time lat s" "session_step sdk hw e lat s t"
  shows "on_time lat t"
  using assms(2)
proof (rule session_stepE)
  assume "t = s\<lparr>tm_now := Suc (tm_now s)\<rparr>" "tm_down s \<or> (\<forall>wk d. tm_due s wk = Some d \<longrightarrow> tm_now s < d + lat)"
  then show ?thesis using assms(1) by (fastforce simp: on_time_def)
next
  fix ev w' assume t: "t = timed_run w' (work_of ev) s" "\<not> tm_down s" and h: "handle sdk hw e ev (tm_world s) = Some w'"
  show ?thesis unfolding t(1)
    by (rule on_time_run [OF assms(1) t(2)])
      (use issues_new_calls handle_framed [OF h] handler_calls_timely in blast)
next
  assume t: "t = timed_run (supervise e (tm_world s)) {Supervision_work} s" "\<not> tm_down s"
  show ?thesis unfolding t(1)
    by (rule on_time_run [OF assms(1) t(2)]) (simp add: new_calls_power timely_def)
next
  fix off w' assume t: "t = (timed_run w' {Poweroff_work} s)\<lparr>tm_down := off\<rparr>" "\<not> tm_down s"
    and p: "poweroff hw e (tm_world s) = (off, w')"
  show ?thesis
  proof (cases off)
    case False
    with p have off': "poweroff hw e (tm_world s) = (False, w')" by simp
    have "on_time lat (timed_run w' {Poweroff_work} s)"
      by (rule on_time_run [OF assms(1) t(2)]) (simp add: new_calls_poweroff [OF off'] timely_def)
    then show ?thesis using t(2) by (simp add: t(1) False on_time_def)
  qed (simp add: t(1) on_time_def)
qed (simp add: on_time_def)

lemma on_time_boot:
  "main sdk cfg hw e w0 = Some (rc, w) \<Longrightarrow> on_time lat (timed_boot now w0 rc w)"
  using boot_dues [of sdk cfg hw e w0 rc w now] by (auto simp: on_time_def timed_boot_def split: if_splits)

interpretation timed: invariant_machine "timed_init sdk cfg hw e" "timed_step sdk cfg hw e lat" "on_time lat"
  for sdk cfg hw e lat
  by unfold_locales (auto simp: timed_init_def elim!: timed_stepE intro: on_time_boot on_time_session)

subsection \<open>Properties\<close>

text \<open>Exactly one of the two timers of \<open>main.c\<close> runs if \<open>main\<close> returned success, and none if it failed.\<close>

definition one_timer :: "'w timed_state \<Rightarrow> bool" where
  "one_timer s \<longleftrightarrow> tm_down s \<or> (if tm_started s then (tm_due s Supervision_work = None) \<noteq> (tm_due s Poweroff_work = None)
     else tm_due s Supervision_work = None \<and> tm_due s Poweroff_work = None)"

lemma reachable_one_timer:
  assumes "reachable (timed_init sdk cfg hw e) (timed_step sdk cfg hw e lat) s"
  shows "one_timer s"
  using fw.inv_reachable [OF timed_reachable [OF assms]] by (auto simp: fw_inv_def one_timer_def split: if_splits)

text \<open>
  The timed firmware refines the untimed one: every step is a step of the untimed firmware
  or leaves its state alone, so whatever holds in every reachable state of the untimed firmware
  holds at every moment.
\<close>

theorem timed_refines:
  assumes "reachable (timed_init sdk cfg hw e) (timed_step sdk cfg hw e lat) s"
  shows "reachable (fw_init sdk cfg hw e) (fw_step sdk cfg hw e) (untimed s)
    \<and> (timed_step sdk cfg hw e lat s t \<longrightarrow> untimed t = untimed s \<or> fw_step sdk cfg hw e (untimed s) (untimed t))"
  using timed_reachable [OF assms] timed_simulates [of sdk cfg hw e lat s t] by blast

text \<open>
  Property C18: the wake signal never goes unobserved once \<open>main\<close> has returned success: at every moment of such a
  session at which the processor is up, either the next look at the signal is due within a second, or the
  power-off is due within half a second; neither is ever late by more than the latency \<open>lat\<close> of
  the work queue. If \<open>main\<close> returned failure, because the wake signal was not ready or could not be configured,
  neither is ever due in that session.
\<close>

theorem supervision_deadline:
  assumes "reachable (timed_init sdk cfg hw e) (timed_step sdk cfg hw e lat) s" "\<not> tm_down s"
  shows "if tm_started s
    then \<exists>d. tm_now s \<le> d + lat
      \<and> (tm_due s Supervision_work = Some d \<and> d \<le> tm_now s + 1000 \<and> tm_due s Poweroff_work = None
         \<or> tm_due s Poweroff_work = Some d \<and> d \<le> tm_now s + 500 \<and> tm_due s Supervision_work = None)
    else tm_due s Supervision_work = None \<and> tm_due s Poweroff_work = None"
proof (cases "tm_started s")
  case True
  then show ?thesis
    using reachable_one_timer [OF assms(1)] on_time_due [OF timed.inv_reachable [OF assms(1)] assms(2)] assms(2)
    by (cases "tm_due s Supervision_work"; cases "tm_due s Poweroff_work") (force simp: one_timer_def)+
next
  case False
  then show ?thesis using reachable_one_timer [OF assms(1)] assms(2) by (simp add: one_timer_def)
qed

definition asleep_by :: "nat \<Rightarrow> nat \<Rightarrow> call list \<Rightarrow> 'w world_scheme timed_state \<Rightarrow> bool" where
  "asleep_by lat t0 h s \<longleftrightarrow> tm_started s \<and> on_time lat s \<and> one_timer s \<and> (\<exists>cs. calls (tm_world s) = cs @ h)
     \<and> (tm_down s \<or> (\<exists>d. tm_due s Supervision_work = Some d \<and> d \<le> t0 + 1000)
        \<or> (\<exists>d. tm_due s Poweroff_work = Some d \<and> d \<le> t0 + 1500 + lat))"

lemma session_started: "session_step sdk hw e lat s t \<Longrightarrow> tm_started t = tm_started s"
  by (auto elim!: session_stepE)

lemma one_timer_session:
  assumes "one_timer s" "session_step sdk hw e lat s t"
  shows "one_timer t"
  using assms(2)
proof (rule session_stepE)
  fix ev w' assume "t = timed_run w' (work_of ev) s" and h: "handle sdk hw e ev (tm_world s) = Some w'"
  then show ?thesis using assms(1) unfolding one_timer_def by (simp add: event_dues [OF h] split: if_splits)
next
  assume "t = timed_run (supervise e (tm_world s)) {Supervision_work} s" "ready s Supervision_work"
  then show ?thesis
    using assms(1) by (auto simp: one_timer_def supervise_dues due_effect_def ready_def)
next
  fix off w' assume t: "t = (timed_run w' {Poweroff_work} s)\<lparr>tm_down := off\<rparr>" and r: "ready s Poweroff_work" "\<not> tm_down s"
    and p: "poweroff hw e (tm_world s) = (off, w')"
  show ?thesis
  proof (cases off)
    case False
    with p have "poweroff hw e (tm_world s) = (False, w')" by simp
    from poweroff_dues [OF this] show ?thesis
      using assms(1) r by (auto simp: t one_timer_def due_effect_def ready_def)
  qed (simp add: t one_timer_def)
qed (use assms(1) in \<open>simp_all add: one_timer_def split: if_splits\<close>)

lemma history_grows:
  assumes "session_step sdk hw e lat s t"
  shows "\<exists>cs. calls (tm_world t) = cs @ calls (tm_world s)"
  using assms
proof (rule session_stepE)
  fix ev w' assume "t = timed_run w' (work_of ev) s" "handle sdk hw e ev (tm_world s) = Some w'"
  then show ?thesis using handler.op_keeps_history by fastforce
next
  assume "t = timed_run (supervise e (tm_world s)) {Supervision_work} s"
  then show ?thesis by (simp add: supervise_def invoke_def)
next
  fix off w' assume "t = (timed_run w' {Poweroff_work} s)\<lparr>tm_down := off\<rparr>" "poweroff hw e (tm_world s) = (off, w')"
  then show ?thesis by (auto simp: poweroff_def invoke_def Let_def split: if_splits)
qed (simp_all add: reboot_work_wrapper_def)

lemma poweroff_armed_here:
  assumes "env_rc e (calls w) (Gpio_pin_interrupt_configure_dt Wake_signal GPIO_INT_LEVEL_ACTIVE) = 0"
    and "poweroff hw e w = (off, w')"
  shows off
  using assms by (simp add: poweroff_def invoke_def Let_def)

lemma asleep_by_session:
  assumes "asleep_by lat t0 h s" "session_step sdk hw e lat s t"
    and "\<And>cs. env_rc e (cs @ h) (Gpio_pin_get_dt Wake_signal) = 0"
    and "\<And>cs. env_rc e (cs @ h) (Gpio_pin_interrupt_configure_dt Wake_signal GPIO_INT_LEVEL_ACTIVE) = 0"
  shows "asleep_by lat t0 h t"
proof -
  have 1: "on_time lat t" "one_timer t" "tm_started t"
    using assms(1) on_time_session [OF _ assms(2)] one_timer_session [OF _ assms(2)] session_started [OF assms(2)]
    by (auto simp: asleep_by_def)
  obtain cs where cs: "calls (tm_world s) = cs @ h" using assms(1) by (auto simp: asleep_by_def)
  have 2: "\<exists>cs. calls (tm_world t) = cs @ h" using history_grows [OF assms(2)] cs by auto
  have phase: "tm_down s \<or> (\<exists>d. tm_due s Supervision_work = Some d \<and> d \<le> t0 + 1000)
      \<or> (\<exists>d. tm_due s Poweroff_work = Some d \<and> d \<le> t0 + 1500 + lat)"
    using assms(1) by (simp add: asleep_by_def)
  from assms(2) have "tm_down t \<or> (\<exists>d. tm_due t Supervision_work = Some d \<and> d \<le> t0 + 1000)
      \<or> (\<exists>d. tm_due t Poweroff_work = Some d \<and> d \<le> t0 + 1500 + lat)"
  proof (rule session_stepE)
    fix ev w' assume "t = timed_run w' (work_of ev) s" and h: "handle sdk hw e ev (tm_world s) = Some w'"
    then show ?thesis using phase by (simp add: event_dues [OF h])
  next
    assume t: "t = timed_run (supervise e (tm_world s)) {Supervision_work} s" and "\<not> tm_down s" and "ready s Supervision_work"
    then obtain d where d: "tm_due s Supervision_work = Some d" "tm_due s Poweroff_work = None" "d \<le> t0 + 1000"
      using phase assms(1) by (auto simp: ready_def asleep_by_def one_timer_def)
    have "tm_now s \<le> d + lat" using assms(1) d(1) \<open>\<not> tm_down s\<close> by (auto simp: asleep_by_def on_time_def)
    moreover have "env_rc e (calls (tm_world s)) (Gpio_pin_get_dt Wake_signal) = 0" using assms(3) by (simp add: cs)
    ultimately show ?thesis using d by (simp add: t supervise_dues due_effect_def)
  next
    fix off w' assume t: "t = (timed_run w' {Poweroff_work} s)\<lparr>tm_down := off\<rparr>"
      and p: "poweroff hw e (tm_world s) = (off, w')"
    have off by (rule poweroff_armed_here [OF _ p]) (simp add: cs assms(4))
    then show ?thesis by (simp add: t)
  qed (use phase in simp_all)
  with 1 2 show ?thesis by (simp add: asleep_by_def)
qed

text \<open>The processor stops in one of two ways, and only the clock goes on then.\<close>

definition halted :: "'w world_scheme timed_state \<Rightarrow> bool" where
  "halted s \<longleftrightarrow> tm_down s \<longrightarrow> hd (calls (tm_world s)) \<in> {Sys_poweroff, Sys_reboot}"

lemma halted_session:
  assumes "halted s" "session_step sdk hw e lat s t"
  shows "halted t"
  using assms(2)
proof (rule session_stepE)
  fix off w' assume "t = (timed_run w' {Poweroff_work} s)\<lparr>tm_down := off\<rparr>" "poweroff hw e (tm_world s) = (off, w')"
  then show ?thesis by (auto simp: halted_def poweroff_def invoke_def Let_def split: if_splits)
qed (use assms(1) in \<open>simp_all add: halted_def reboot_work_wrapper_def\<close>)

interpretation halts: invariant_machine "timed_init sdk cfg hw e" "timed_step sdk cfg hw e lat" halted
  for sdk cfg hw e lat
  by unfold_locales (auto simp: timed_init_def timed_boot_def halted_def elim!: timed_stepE dest: halted_session [unfolded halted_def, rotated])

text \<open>
  Property C3: the device goes to sleep in time. In a session in which \<open>main\<close> returned success, once the wake signal stays inactive, and its interrupt can
  be armed, the processor has stopped after 1.5 seconds and twice the latency of the work queue,
  whatever readings, ANT events, Bluetooth connections and updates happen meanwhile: it has powered
  off, or restarts because a device id was written over Bluetooth.
\<close>

theorem sleeps_in_time:
  assumes "reachable (timed_init sdk cfg hw e) (timed_step sdk cfg hw e lat) s" "tm_started s"
    and "(session_step sdk hw e lat)\<^sup>*\<^sup>* s t" "tm_now t > tm_now s + 1500 + 2 * lat"
    and "\<And>cs. env_rc e (cs @ calls (tm_world s)) (Gpio_pin_get_dt Wake_signal) = 0"
    and "\<And>cs. env_rc e (cs @ calls (tm_world s)) (Gpio_pin_interrupt_configure_dt Wake_signal GPIO_INT_LEVEL_ACTIVE) = 0"
  shows "tm_down t \<and> hd (calls (tm_world t)) \<in> {Sys_poweroff, Sys_reboot}"
proof -
  have "halted s" by (rule halts.inv_reachable [OF assms(1)])
  with assms(3) have "halted t" by (induction rule: rtranclp_induct) (auto intro: halted_session)
  have i: "on_time lat s" "one_timer s"
    using timed.inv_reachable [OF assms(1)] reachable_one_timer [OF assms(1)] by auto
  moreover from i(1) have "tm_down s \<or> (\<forall>d. tm_due s Supervision_work = Some d \<longrightarrow> d \<le> tm_now s + 1000)"
    "tm_down s \<or> (\<forall>d. tm_due s Poweroff_work = Some d \<longrightarrow> d \<le> tm_now s + 500)"
    by (force dest: on_time_due)+
  ultimately have "asleep_by lat (tm_now s) (calls (tm_world s)) s"
    using assms(2)
    by (cases "tm_due s Supervision_work"; cases "tm_due s Poweroff_work") (auto simp: asleep_by_def one_timer_def)
  with assms(3) have "asleep_by lat (tm_now s) (calls (tm_world s)) t"
    by (induction rule: rtranclp_induct) (auto intro: asleep_by_session [OF _ _ assms(5,6)])
  then have "tm_down t" using assms(4) by (force simp: asleep_by_def on_time_def)
  with \<open>halted t\<close> show ?thesis by (simp add: halted_def)
qed

text \<open>While the wake signal is active whenever it is looked at, no power-off is scheduled.\<close>

definition awake :: "call list \<Rightarrow> 'w world_scheme timed_state \<Rightarrow> bool" where
  "awake h s \<longleftrightarrow> (\<exists>cs. calls (tm_world s) = cs @ h) \<and> tm_due s Poweroff_work = None
     \<and> (tm_down s \<longrightarrow> hd (calls (tm_world s)) = Sys_reboot)"

lemma awake_session:
  assumes "awake h s" "session_step sdk hw e lat s t" "\<And>cs. env_rc e (cs @ h) (Gpio_pin_get_dt Wake_signal) \<noteq> 0"
  shows "awake h t"
proof -
  obtain cs where cs: "calls (tm_world s) = cs @ h" using assms(1) by (auto simp: awake_def)
  have grows: "\<exists>cs. calls (tm_world t) = cs @ h" using history_grows [OF assms(2)] cs by auto
  have n: "tm_due s Poweroff_work = None" using assms(1) by (simp add: awake_def)
  from assms(2) have "tm_due t Poweroff_work = None \<and> (tm_down t \<longrightarrow> hd (calls (tm_world t)) = Sys_reboot)"
  proof (rule session_stepE)
    fix ev w' assume "t = timed_run w' (work_of ev) s" "\<not> tm_down s" and h: "handle sdk hw e ev (tm_world s) = Some w'"
    then show ?thesis using n by (simp add: event_dues [OF h])
  next
    assume "t = timed_run (supervise e (tm_world s)) {Supervision_work} s" "\<not> tm_down s"
    moreover have "env_rc e (calls (tm_world s)) (Gpio_pin_get_dt Wake_signal) \<noteq> 0" using assms(3) by (simp add: cs)
    ultimately show ?thesis using n by (simp add: supervise_dues)
  next
    assume "ready s Poweroff_work"
    then show ?thesis using n by (simp add: ready_def)
  next
    assume t: "t = (timed_run (reboot_work_wrapper e (tm_world s)) {Reboot_work} s)\<lparr>tm_down := True\<rparr>"
    have "new_calls (tm_world s) (reboot_work_wrapper e (tm_world s)) = [Sys_reboot]"
      by (rule new_calls_eq) (simp add: reboot_work_wrapper_def)
    with n show ?thesis by (simp add: t timed_run_def due_effect_def reboot_work_wrapper_def)
  qed (use assms(1) in \<open>simp_all add: awake_def\<close>)
  with grows show ?thesis by (simp add: awake_def)
qed

text \<open>
  Property C4: the device does not go to sleep while it is used. From a moment at which no power-off is pending,
  as long as the wake signal is active whenever it is looked at, the processor never powers off, whatever
  readings, ANT events, Bluetooth connections and updates happen: either it is up and no power-off is
  pending, and, if \<open>main\<close> returned success, the next look at the signal is due within a second; or it
  restarts because a device id was written over Bluetooth.
\<close>

theorem stays_awake:
  assumes "reachable (timed_init sdk cfg hw e) (timed_step sdk cfg hw e lat) s" "\<not> tm_down s" "tm_due s Poweroff_work = None"
    and "(session_step sdk hw e lat)\<^sup>*\<^sup>* s t"
    and "\<And>cs. env_rc e (cs @ calls (tm_world s)) (Gpio_pin_get_dt Wake_signal) \<noteq> 0"
  shows "if tm_down t then hd (calls (tm_world t)) = Sys_reboot
    else tm_due t Poweroff_work = None
      \<and> (tm_started s \<longrightarrow> (\<exists>d. tm_due t Supervision_work = Some d \<and> d \<le> tm_now t + 1000 \<and> tm_now t \<le> d + lat))"
proof -
  have i: "on_time lat s" "one_timer s"
    using timed.inv_reachable [OF assms(1)] reachable_one_timer [OF assms(1)] by simp_all
  from assms(4) have "on_time lat t \<and> one_timer t \<and> tm_started t = tm_started s \<and> awake (calls (tm_world s)) t"
  proof (induction rule: rtranclp_induct)
    case base
    then show ?case using i assms(2,3) by (simp add: awake_def)
  next
    case (step t u)
    then show ?case
      using on_time_session [OF _ step.hyps(2)] one_timer_session [OF _ step.hyps(2)] session_started [OF step.hyps(2)]
        awake_session [OF _ step.hyps(2) assms(5)] by simp
  qed
  then show ?thesis using on_time_due [of lat t Supervision_work] by (fastforce simp: awake_def one_timer_def)
qed

subsection \<open>The other timers\<close>

text \<open>A pending item stays due at its time until it runs or is cancelled.\<close>

lemma due_effect_keeps:
  "due wk = Some d \<Longrightarrow> c \<noteq> K_work_cancel_delayable wk \<Longrightarrow> due_effect now c due wk = Some d"
  by (auto simp: due_effect_def split: call.splits)

lemma dues_keep:
  "due wk = Some d \<Longrightarrow> K_work_cancel_delayable wk \<notin> set cs \<Longrightarrow> dues now cs due wk = Some d"
  by (induction cs) (auto simp: due_effect_keeps)

lemma run_keeps:
  assumes "tm_due s wk = Some d" "wk \<notin> taken" "K_work_cancel_delayable wk \<notin> set (new_calls (tm_world s) w')"
  shows "tm_due (timed_run w' taken s) wk = Some d"
  using dues_keep [OF _ assms(3)] assms(1,2) by (simp add: timed_run_def)

lemma session_keeps:
  assumes "session_step sdk hw e lat s t" "tm_due s wk = Some d"
    and "calls (tm_world t) = cs @ calls (tm_world s)" "K_work_cancel_delayable wk \<notin> set cs"
    and "wk = Reboot_work \<or> wk = Disable_bt_work"
  shows "tm_down t \<or> tm_due t wk = Some d
    \<or> wk = Disable_bt_work \<and> tm_world t = disable_bt e (tm_world s)"
proof -
  have new: "new_calls (tm_world s) (tm_world t) = cs" by (rule new_calls_eq [OF assms(3)])
  note keep = run_keeps [of s wk d, OF assms(2)]
  from assms(1) show ?thesis
  proof (rule session_stepE)
    fix ev w' assume t: "t = timed_run w' (work_of ev) s" and h: "handle sdk hw e ev (tm_world s) = Some w'"
    show ?thesis
    proof (cases "wk \<in> work_of ev")
      case True
      then have "ev = Disable" "wk = Disable_bt_work" using assms(5) by (cases ev; auto)+
      then show ?thesis using h by (simp add: t)
    qed (use keep [of "work_of ev" w'] new assms(4) in \<open>simp add: t\<close>)
  next
    assume t: "t = timed_run (supervise e (tm_world s)) {Supervision_work} s"
    show ?thesis using keep [of "{Supervision_work}" "supervise e (tm_world s)"] new assms(4,5) by (auto simp: t)
  next
    fix off w' assume t: "t = (timed_run w' {Poweroff_work} s)\<lparr>tm_down := off\<rparr>"
    show ?thesis using keep [of "{Poweroff_work}" w'] new assms(4,5) by (auto simp: t)
  qed (use assms(2) in simp_all)
qed

lemma reboot_not_cancelled:
  assumes "session_step sdk hw e lat s t"
  shows "K_work_cancel_delayable Reboot_work \<notin> set (new_calls (tm_world s) (tm_world t))"
  using assms
proof (rule session_stepE)
  fix ev w' assume "t = timed_run w' (work_of ev) s" and h: "handle sdk hw e ev (tm_world s) = Some w'"
  moreover have "set (new_calls (tm_world s) w') \<subseteq> handler_calls"
    using handle_framed [OF h] issues_new_calls by blast
  ultimately show ?thesis
    by (auto simp: handler_calls_def receive_calls_def event_calls_def transmit_calls_def config_calls_def
        key_calls_def bt_calls_def)
next
  assume "t = timed_run (supervise e (tm_world s)) {Supervision_work} s"
  then show ?thesis by (simp add: new_calls_power)
next
  fix off w' assume t: "t = (timed_run w' {Poweroff_work} s)\<lparr>tm_down := off\<rparr>"
    and p: "poweroff hw e (tm_world s) = (off, w')"
  have "\<exists>cs. calls w' = cs @ calls (tm_world s) \<and> K_work_cancel_delayable Reboot_work \<notin> set cs"
    using p by (auto simp: poweroff_def invoke_def Let_def split: if_splits)
  then show ?thesis using new_calls_eq by (force simp: t)
next
  assume "t = (timed_run (reboot_work_wrapper e (tm_world s)) {Reboot_work} s)\<lparr>tm_down := True\<rparr>"
  then show ?thesis using new_calls_eq [of "reboot_work_wrapper e (tm_world s)" "[Sys_reboot]" "tm_world s"]
    by (simp add: reboot_work_wrapper_def)
qed (use new_calls_eq [of "tm_world s" "[]" "tm_world s"] in simp_all)

lemma reboot_pending_session:
  assumes "session_step sdk hw e lat s t" "tm_down s \<or> tm_due s Reboot_work = Some d"
  shows "tm_down t \<or> tm_due t Reboot_work = Some d"
proof (cases "tm_down s")
  case True
  then show ?thesis using assms(1) by (auto elim: session_stepE)
next
  case False
  obtain cs where cs: "calls (tm_world t) = cs @ calls (tm_world s)" using history_grows [OF assms(1)] by (elim exE)
  then have "K_work_cancel_delayable Reboot_work \<notin> set cs"
    using reboot_not_cancelled [OF assms(1)] by (simp add: new_calls_eq)
  with session_keeps [OF assms(1) _ cs] False assms(2) show ?thesis by auto
qed

lemma write_id_pending:
  assumes "handle sdk hw e (Write_id buf len) (tm_world s) = Some w'" "len = 1 \<or> len = 2" "on_time lat s" "\<not> tm_down s"
    and "env_rc e (calls (tm_world s)) (Settings_save_one ''id'' (le_bytes 2 (written_device_id buf len))) = 0"
  obtains d where "tm_due (timed_run w' {} s) Reboot_work = Some d" "d \<le> tm_now s + 250"
proof (cases "tm_due s Reboot_work")
  case None
  have "w' = snd (cfg_srv_devid_chrx_on_write_cb e buf len (tm_world s))" using assms(1) by simp
  note n = write_id_calls [OF assms(2,5), folded this]
  have "tm_due (timed_run w' {} s) Reboot_work = Some (tm_now s + 250)"
    by (simp add: timed_run_def n due_effect_def None)
  then show thesis using that by simp
next
  case (Some d)
  have "w' = snd (cfg_srv_devid_chrx_on_write_cb e buf len (tm_world s))" using assms(1) by simp
  note n = write_id_calls [OF assms(2,5), folded this]
  have "tm_due (timed_run w' {} s) Reboot_work = Some d"
    by (simp add: timed_run_def n due_effect_def Some)
  moreover have "d \<le> tm_now s + 250" using on_time_due [OF assms(3,4) Some] by simp
  ultimately show thesis by (rule that)
qed

text \<open>
  Property C12: a device id written over Bluetooth takes effect promptly: a quarter of a second and the
  latency of the work queue after a write of one or two bytes that could be stored, the processor has stopped
  for the restart (or powered off), whatever else happens meanwhile.
\<close>

theorem written_id_restarts_in_time:
  assumes "reachable (timed_init sdk cfg hw e) (timed_step sdk cfg hw e lat) s" "\<not> tm_down s"
    and "handle sdk hw e (Write_id buf len) (tm_world s) = Some w'" "len = 1 \<or> len = 2"
    and "env_rc e (calls (tm_world s)) (Settings_save_one ''id'' (le_bytes 2 (written_device_id buf len))) = 0"
    and "(session_step sdk hw e lat)\<^sup>*\<^sup>* (timed_run w' {} s) t" "tm_now t > tm_now s + 250 + lat"
  shows "tm_down t \<and> hd (calls (tm_world t)) \<in> {Sys_poweroff, Sys_reboot}"
proof -
  have i: "on_time lat s" "halted s"
    using timed.inv_reachable [OF assms(1)] halts.inv_reachable [OF assms(1)] by simp_all
  obtain d where d: "tm_due (timed_run w' {} s) Reboot_work = Some d" "d \<le> tm_now s + 250"
    by (rule write_id_pending [OF assms(3,4) i(1) assms(2,5)])
  have "session_step sdk hw e lat s (timed_run w' {} s)"
    using time_event [of s "Write_id buf len" sdk hw e w' lat] assms(2,3) by simp
  with i have "on_time lat (timed_run w' {} s) \<and> halted (timed_run w' {} s)"
    using on_time_session halted_session by blast
  from assms(6) this have "on_time lat t \<and> halted t \<and> (tm_down t \<or> tm_due t Reboot_work = Some d)"
  proof (induction rule: rtranclp_induct)
    case base
    then show ?case using d(1) by simp
  next
    case (step t u)
    then show ?case using on_time_session halted_session reboot_pending_session by blast
  qed
  moreover have "\<not> (tm_now t \<le> d + lat)" using assms(7) d(2) by simp
  ultimately show ?thesis using on_time_due [of lat t Reboot_work d] by (auto simp: halted_def)
qed

text \<open>
  The first shutdown after the history \<open>h\<close> succeeds: stopping to advertise, unregistering the
  update service and disabling Bluetooth, as long as the service is registered.
\<close>

definition shuts_down :: "env \<Rightarrow> call list \<Rightarrow> bool" where
  "shuts_down e h \<longleftrightarrow> (\<forall>cs. Smp_bt_unregister \<notin> set cs \<longrightarrow> env_rc e (cs @ h) Bt_le_adv_stop = 0
     \<and> env_rc e (Bt_le_adv_stop # cs @ h) Smp_bt_unregister = 0
     \<and> env_rc e (Smp_bt_unregister # Bt_le_adv_stop # cs @ h) Bt_disable = 0)"

text \<open>Among the calls \<open>cs\<close> since \<open>h\<close> is one that disabled Bluetooth with success.\<close>

definition bt_disabled :: "env \<Rightarrow> call list \<Rightarrow> call list \<Rightarrow> bool" where
  "bt_disabled e h cs \<longleftrightarrow> (\<exists>as bs. cs = as @ Bt_disable # bs \<and> env_rc e (bs @ h) Bt_disable = 0)"

lemma bt_disabledI: "env_rc e (bs @ h) Bt_disable = 0 \<Longrightarrow> bt_disabled e h (as @ Bt_disable # bs)"
  by (auto simp: bt_disabled_def)

lemma bt_disabled_append: "bt_disabled e h cs \<Longrightarrow> bt_disabled e h (new @ cs)"
  unfolding bt_disabled_def by (metis append.assoc)

lemma disable_bt_disables:
  assumes "shuts_down e h" "calls w = cs @ h" "Smp_bt_unregister \<notin> set cs"
  shows "calls (disable_bt e w) = [Bt_disable, Smp_bt_unregister, Bt_le_adv_stop] @ calls w"
    and "bt_disabled e h ([Bt_disable, Smp_bt_unregister, Bt_le_adv_stop] @ cs)"
proof -
  have "env_rc e (cs @ h) Bt_le_adv_stop = 0" "env_rc e (Bt_le_adv_stop # cs @ h) Smp_bt_unregister = 0"
    "env_rc e (Smp_bt_unregister # Bt_le_adv_stop # cs @ h) Bt_disable = 0"
    using assms(1,3) by (simp_all add: shuts_down_def)
  then show "calls (disable_bt e w) = [Bt_disable, Smp_bt_unregister, Bt_le_adv_stop] @ calls w"
    "bt_disabled e h ([Bt_disable, Smp_bt_unregister, Bt_le_adv_stop] @ cs)"
    using bt_disabledI [of e "[Smp_bt_unregister, Bt_le_adv_stop] @ cs" h "[]"]
    by (simp_all add: disable_bt_def shutdown_bluetooth_def invoke_def Let_def assms(2))
qed

text \<open>Only the shutdown unregisters the update service.\<close>

lemma handle_registered:
  assumes "handle sdk hw e ev w = Some w'" "ev \<noteq> Disable"
  shows "Smp_bt_unregister \<notin> set (new_calls w w')"
proof -
  have other: ?thesis if "framed A w w'" "Smp_bt_unregister \<notin> A" for A
    using that issues_new_calls [of A w w'] by (auto simp: framed_def)
  have bt: ?thesis if "issues (bt_calls - {Smp_bt_unregister}) w w'"
    using issues_new_calls [OF that] by auto
  note sets = issues_def bt_calls_def key_calls_def work_calls_def
  show ?thesis
  proof (cases ev)
    case Interrupt
    then show ?thesis using assms(1) new_calls_eq [of w' _ w] by (auto simp: int_cb_handler_def new_calls_def)
  next
    case Sensor_read
    then show ?thesis using assms(1) by (intro other [OF receive_framed]) (auto simp: receive_calls_def)
  next
    case (Ant_event evt)
    then show ?thesis
      using assms(1) by (intro other [OF ant_event_framed])
        (auto simp: event_calls_def transmit_calls_def config_calls_def key_calls_def)
  next
    case (Dfu event)
    then show ?thesis using assms(1)
      by (cases "event = MGMT_EVT_OP_IMG_MGMT_DFU_PENDING") (auto simp: dfu_pending_cb_def new_calls_def)
  next
    case (Bt_ready err)
    then show ?thesis
      using assms(1) by (intro bt) (auto simp: bt_ready_def load_immediate_value_def Let_def split_def sets)
  next
    case (Write_id buf len)
    then show ?thesis
      using assms(1) by (intro bt) (auto simp: cfg_srv_devid_chrx_on_write_cb_def invoke_def Let_def sets)
  qed (use assms in \<open>auto simp: new_calls_bt split: if_splits\<close>)
qed

lemma session_registered:
  assumes "session_step sdk hw e lat s t"
  shows "Smp_bt_unregister \<notin> set (new_calls (tm_world s) (tm_world t)) \<or> tm_world t = disable_bt e (tm_world s)"
  using assms
proof (rule session_stepE)
  fix ev w' assume "t = timed_run w' (work_of ev) s" and h: "handle sdk hw e ev (tm_world s) = Some w'"
  then show ?thesis using handle_registered [OF h] h by (cases "ev = Disable") auto
next
  assume "t = timed_run (supervise e (tm_world s)) {Supervision_work} s"
  then show ?thesis by (simp add: new_calls_power)
next
  fix off w' assume t: "t = (timed_run w' {Poweroff_work} s)\<lparr>tm_down := off\<rparr>"
    and p: "poweroff hw e (tm_world s) = (off, w')"
  have "\<exists>cs. calls w' = cs @ calls (tm_world s) \<and> Smp_bt_unregister \<notin> set cs"
    using p by (auto simp: poweroff_def invoke_def Let_def split: if_splits)
  then show ?thesis using new_calls_eq by (force simp: t)
next
  assume "t = (timed_run (reboot_work_wrapper e (tm_world s)) {Reboot_work} s)\<lparr>tm_down := True\<rparr>"
  then show ?thesis using new_calls_eq [of "reboot_work_wrapper e (tm_world s)" "[Sys_reboot]" "tm_world s"]
    by (simp add: reboot_work_wrapper_def)
qed (use new_calls_eq [of "tm_world s" "[]" "tm_world s"] in simp_all)

text \<open>Since the history \<open>h\<close>, the shutdown that is due at \<open>d\<close> is pending, done, cancelled or moot.\<close>

definition disabling :: "env \<Rightarrow> nat \<Rightarrow> call list \<Rightarrow> 'w world_scheme timed_state \<Rightarrow> bool" where
  "disabling e d h s \<longleftrightarrow> (\<exists>cs. calls (tm_world s) = cs @ h
     \<and> (tm_down s \<or> bt_disabled e h cs \<or> K_work_cancel_delayable Disable_bt_work \<in> set cs
        \<or> tm_due s Disable_bt_work = Some d \<and> Smp_bt_unregister \<notin> set cs))"

lemma disabling_session:
  assumes "session_step sdk hw e lat s t" "shuts_down e h" "disabling e d h s"
  shows "disabling e d h t"
proof -
  obtain cs where cs: "calls (tm_world s) = cs @ h" "tm_down s \<or> bt_disabled e h cs
      \<or> K_work_cancel_delayable Disable_bt_work \<in> set cs \<or> tm_due s Disable_bt_work = Some d \<and> Smp_bt_unregister \<notin> set cs"
    using assms(3) by (auto simp: disabling_def)
  obtain new where new: "calls (tm_world t) = new @ calls (tm_world s)" using history_grows [OF assms(1)] by (elim exE)
  have "tm_down t \<or> bt_disabled e h (new @ cs) \<or> K_work_cancel_delayable Disable_bt_work \<in> set (new @ cs)
      \<or> tm_due t Disable_bt_work = Some d \<and> Smp_bt_unregister \<notin> set (new @ cs)"
    using cs(2)
  proof (elim disjE conjE)
    assume "tm_down s"
    then show ?thesis using assms(1) by (auto elim: session_stepE)
  next
    assume due: "tm_due s Disable_bt_work = Some d" and reg: "Smp_bt_unregister \<notin> set cs"
    note d = disable_bt_disables [OF assms(2) cs(1) reg]
    show ?thesis
    proof (cases "tm_world t = disable_bt e (tm_world s)")
      case True
      then have "new = [Bt_disable, Smp_bt_unregister, Bt_le_adv_stop]" using d(1) new by simp
      with d(2) show ?thesis by simp
    next
      case False
      then have "Smp_bt_unregister \<notin> set new" using session_registered [OF assms(1)] new_calls_eq [OF new] by simp
      with False session_keeps [OF assms(1) due new] reg show ?thesis by auto
    qed
  qed (auto intro: bt_disabled_append)
  then show ?thesis using new cs(1) unfolding disabling_def by (intro exI [of _ "new @ cs"]) simp
qed

text \<open>
  Property C11: Bluetooth is switched off in time. While its shutdown is pending, it is disabled, with
  success, at most 30 seconds and the latency of the work queue later, unless a connection is made or the processor
  stops before. This is about a first shutdown: the calls that stop advertising, unregister the
  update service and disable Bluetooth must succeed as long as the service has not been unregistered before.
  (If disabling fails after the service is unregistered, \<open>shutdown_retry_stuck\<close> applies.)
\<close>

theorem bluetooth_off_in_time:
  assumes "reachable (timed_init sdk cfg hw e) (timed_step sdk cfg hw e lat) s"
    and "tm_due s Disable_bt_work = Some d" "shuts_down e (calls (tm_world s))"
    and "(session_step sdk hw e lat)\<^sup>*\<^sup>* s t" "tm_now t > tm_now s + 30000 + lat"
    and "calls (tm_world t) = cs @ calls (tm_world s)"
  shows "tm_down t \<or> K_work_cancel_delayable Disable_bt_work \<in> set cs \<or> bt_disabled e (calls (tm_world s)) cs"
proof (cases "tm_down s")
  case True
  with assms(4) have "tm_down t" by (induction rule: rtranclp_induct) (auto elim: session_stepE)
  then show ?thesis by simp
next
  case False
  have "on_time lat s" by (rule timed.inv_reachable [OF assms(1)])
  then have d: "d \<le> tm_now s + 30000" using on_time_due [OF _ False assms(2)] by simp
  from assms(4) have "on_time lat t \<and> disabling e d (calls (tm_world s)) t"
  proof (induction rule: rtranclp_induct)
    case base
    then show ?case using \<open>on_time lat s\<close> assms(2) by (simp add: disabling_def)
  next
    case (step t u)
    then show ?case using on_time_session disabling_session [OF _ assms(3)] by blast
  qed
  moreover have "\<not> (tm_now t \<le> d + lat)" using assms(5) d by simp
  ultimately show ?thesis using assms(6) on_time_due [of lat t Disable_bt_work d] by (auto simp: disabling_def)
qed

subsection \<open>Witnesses\<close>

lemma ticks:
  assumes "tm_down s \<or> (\<forall>wk d. tm_due s wk = Some d \<longrightarrow> tm_now s + n \<le> d + lat)"
  shows "(session_step sdk hw e lat)\<^sup>*\<^sup>* s (s\<lparr>tm_now := tm_now s + n\<rparr>)"
  using assms
proof (induction n)
  case (Suc n)
  let ?s = "s\<lparr>tm_now := tm_now s + n\<rparr>"
  have "tm_down ?s \<or> (\<forall>wk d. tm_due ?s wk = Some d \<longrightarrow> tm_now ?s < d + lat)"
    using Suc.prems by fastforce
  then have "session_step sdk hw e lat ?s (?s\<lparr>tm_now := Suc (tm_now ?s)\<rparr>)" by (rule time_tick)
  moreover have "?s\<lparr>tm_now := Suc (tm_now ?s)\<rparr> = s\<lparr>tm_now := tm_now s + Suc n\<rparr>" by simp
  moreover have "tm_down s \<or> (\<forall>wk d. tm_due s wk = Some d \<longrightarrow> tm_now s + n \<le> d + lat)"
    using Suc.prems by fastforce
  ultimately show ?case using Suc.IH by (simp add: rtranclp.rtrancl_into_rtrancl)
qed simp

lemma session_to_sleep:
  assumes "tm_due s Supervision_work = Some (tm_now s + 1000)" "\<not> tm_down s" "tm_due s Poweroff_work = None"
    and others: "\<forall>wk d. wk \<noteq> Supervision_work \<longrightarrow> tm_due s wk = Some d \<longrightarrow> tm_now s + 1500 \<le> d"
    and "env_rc e (calls (tm_world s)) (Gpio_pin_get_dt Wake_signal) = 0"
    and "\<And>cs. env_rc e cs (Gpio_pin_interrupt_configure_dt Wake_signal GPIO_INT_LEVEL_ACTIVE) = 0"
  shows "\<exists>t. (session_step sdk hw e 0)\<^sup>*\<^sup>* s t \<and> tm_now t = tm_now s + 1500 + n"
proof -
  let ?a = "s\<lparr>tm_now := tm_now s + 1000\<rparr>"
  let ?b = "timed_run (supervise e (tm_world ?a)) {Supervision_work} ?a"
  let ?c = "?b\<lparr>tm_now := tm_now ?b + 500\<rparr>"
  have "tm_now s + 1000 \<le> d" if "tm_due s wk = Some d" for wk d
    using others assms(1) that by (cases "wk = Supervision_work") fastforce+
  then have a: "(session_step sdk hw e 0)\<^sup>*\<^sup>* s ?a" by (intro ticks) simp
  have b: "session_step sdk hw e 0 ?a ?b" by (rule time_supervise) (simp_all add: assms(1,2) ready_def)
  have db: "tm_due ?b = (tm_due s)(Supervision_work := None, Poweroff_work \<mapsto> tm_now s + 1500)"
    unfolding supervise_dues by (simp add: assms(3,5) due_effect_def add.commute)
  have "tm_now ?b + 500 \<le> d" if "tm_due ?b wk = Some d" for wk d
    using that others unfolding db by (auto simp: add.commute split: if_splits)
  then have c: "(session_step sdk hw e 0)\<^sup>*\<^sup>* ?b ?c" by (intro ticks) simp
  obtain w' where p: "poweroff hw e (tm_world ?c) = (True, w')"
    using poweroff_armed [OF assms(6), of hw "tm_world ?c"] by (elim exE conjE)
  let ?d = "(timed_run w' {Poweroff_work} ?c)\<lparr>tm_down := True\<rparr>"
  have r: "ready ?c Poweroff_work" unfolding ready_def using db by simp
  have d: "session_step sdk hw e 0 ?c ?d" by (rule time_poweroff [OF _ r p]) (simp add: assms(2))
  have f: "(session_step sdk hw e 0)\<^sup>*\<^sup>* ?d (?d\<lparr>tm_now := tm_now ?d + n\<rparr>)" by (rule ticks) simp
  from a b c d f have "(session_step sdk hw e 0)\<^sup>*\<^sup>* s (?d\<lparr>tm_now := tm_now ?d + n\<rparr>)"
    by (meson rtranclp.rtrancl_into_rtrancl rtranclp_trans)
  moreover have "tm_now (?d\<lparr>tm_now := tm_now ?d + n\<rparr>) = tm_now s + 1500 + n" by (simp add: add.commute)
  ultimately show ?thesis by (intro exI conjI)
qed

lemma demo_timed_boot:
  assumes "boot_calls_succeed (store_env rc demo_flash)"
  obtains s :: "(u8 option, unit, unit) bt_world timed_state" where
    "timed_init demo_sdk demo_app nrf52_hw (store_env rc demo_flash) s"
    "\<And>lat. reachable (timed_init demo_sdk demo_app nrf52_hw (store_env rc demo_flash))
       (timed_step demo_sdk demo_app nrf52_hw (store_env rc demo_flash) lat) s"
    "tm_now s = 0" "tm_due s = [Supervision_work \<mapsto> 1000]" "\<not> tm_down s" "tm_started s" "Smp_bt_unregister \<notin> set (calls (tm_world s))"
proof -
  let ?e = "store_env rc demo_flash"
  let ?init = "timed_init demo_sdk demo_app nrf52_hw ?e :: (u8 option, unit, unit) bt_world timed_state \<Rightarrow> bool"
  obtain w where m: "main demo_sdk demo_app nrf52_hw ?e demo_bt_world = Some (EXIT_SUCCESS, w)"
    using main_succeeds [OF store_env_backend refl assms demo_sdk_laws(1,3) nrf52_hw_laws(3), of demo_app demo_bt_world]
    by blast
  have i: "?init (timed_boot 0 demo_bt_world EXIT_SUCCESS w)" using m by (auto simp: timed_init_def)
  show thesis
  proof (rule that [OF i])
    show "reachable ?init (timed_step demo_sdk demo_app nrf52_hw ?e lat) (timed_boot 0 demo_bt_world EXIT_SUCCESS w)" for lat
      by (rule reach_init [where init = ?init, OF i])
    show "tm_due (timed_boot 0 demo_bt_world EXIT_SUCCESS w) = [Supervision_work \<mapsto> 1000]"
      using boot_dues [OF m, of 0] by simp
    show "Smp_bt_unregister \<notin> set (calls (tm_world (timed_boot 0 demo_bt_world EXIT_SUCCESS w)))"
      using main_result(9) [OF m] by (simp add: timed_boot_def new_calls_def)
  qed (simp_all add: timed_boot_def)
qed

abbreviation demo_timed_init :: "(u8 option, unit, unit) bt_world timed_state \<Rightarrow> bool" where
  "demo_timed_init \<equiv> timed_init demo_sdk demo_app nrf52_hw boot_env"

lemmas demo_timed = demo_timed_boot [OF boot_env_laws(1)]

theorem timed_refines_witness:
  "\<exists>s. demo_timed_init s \<and> reachable (fw_init demo_sdk demo_app nrf52_hw boot_env)
     (fw_step demo_sdk demo_app nrf52_hw boot_env) (untimed s)"
proof -
  obtain s where s: "demo_timed_init s" "reachable demo_timed_init (timed_step demo_sdk demo_app nrf52_hw boot_env 0) s"
    using demo_timed by metis
  from timed_refines [OF s(2)] s(1) show ?thesis by blast
qed

theorem supervision_deadline_witness:
  "\<exists>s d. demo_timed_init s \<and> tm_due s Supervision_work = Some d \<and> d \<le> tm_now s + 1000"
proof -
  obtain s where s: "demo_timed_init s" "reachable demo_timed_init (timed_step demo_sdk demo_app nrf52_hw boot_env 0) s"
    "tm_due s = [Supervision_work \<mapsto> 1000]" "\<not> tm_down s" "tm_started s"
    using demo_timed by metis
  from supervision_deadline [OF s(2,4)] s(1,3,5) show ?thesis by auto
qed

theorem sleeps_in_time_witness:
  "\<exists>s t. demo_timed_init s \<and> (session_step demo_sdk nrf52_hw boot_env 0)\<^sup>*\<^sup>* s t \<and> tm_down t"
proof -
  obtain s where s: "demo_timed_init s" "reachable demo_timed_init (timed_step demo_sdk demo_app nrf52_hw boot_env 0) s"
    "tm_now s = 0" "tm_due s = [Supervision_work \<mapsto> 1000]" "\<not> tm_down s" "tm_started s"
    using demo_timed by metis
  have d: "tm_due s Supervision_work = Some (tm_now s + 1000)" "tm_due s Poweroff_work = None"
    "\<forall>wk d. wk \<noteq> Supervision_work \<longrightarrow> tm_due s wk = Some d \<longrightarrow> tm_now s + 1500 \<le> d"
    by (simp_all add: s(3,4))
  obtain t where t: "(session_step demo_sdk nrf52_hw boot_env 0)\<^sup>*\<^sup>* s t" "tm_now t = tm_now s + 1500 + 100"
    using session_to_sleep [OF d(1) s(5) d(2,3) boot_env_laws(3,4)] by blast
  have "tm_now t > tm_now s + 1500 + 2 * 0" by (simp add: t(2))
  from sleeps_in_time [OF s(2,6) t(1) this boot_env_laws(3,4)] s(1) t(1) show ?thesis
    by (elim conjE, intro exI conjI)
qed

definition awake_rc :: "call list \<Rightarrow> call \<Rightarrow> int" where
  "awake_rc cs c = (if c \<in> {Gpio_is_ready_dt Wake_signal, Gpio_pin_get_dt Wake_signal} then 1
     else if c = Smp_bt_unregister \<and> Smp_bt_unregister \<in> set cs then - 2 else 0)"

abbreviation awake_env :: env where "awake_env \<equiv> store_env awake_rc demo_flash"

lemma awake_boots: "boot_calls_succeed awake_env"
  by (simp add: boot_calls_succeed_def saves_succeed_def stack_calls_succeed_def channel_calls_succeed_def awake_rc_def)

theorem stays_awake_witness:
  "\<exists>(s :: (u8 option, unit, unit) bt_world timed_state) t. timed_init demo_sdk demo_app nrf52_hw awake_env s
     \<and> (session_step demo_sdk nrf52_hw awake_env 0)\<^sup>*\<^sup>* s t \<and> tm_now t = 1000
     \<and> (\<exists>d. tm_due t Supervision_work = Some d \<and> d \<le> tm_now t + 1000)"
proof -
  let ?e = awake_env
  obtain s :: "(u8 option, unit, unit) bt_world timed_state" where s: "timed_init demo_sdk demo_app nrf52_hw ?e s"
    "reachable (timed_init demo_sdk demo_app nrf52_hw ?e) (timed_step demo_sdk demo_app nrf52_hw ?e 0) s"
    "tm_now s = 0" "tm_due s = [Supervision_work \<mapsto> 1000]" "\<not> tm_down s" "tm_started s"
    using demo_timed_boot [OF awake_boots] by metis
  let ?a = "s\<lparr>tm_now := tm_now s + 1000\<rparr>"
  let ?b = "timed_run (supervise ?e (tm_world ?a)) {Supervision_work} ?a"
  have "(session_step demo_sdk nrf52_hw ?e 0)\<^sup>*\<^sup>* s ?a" by (rule ticks) (use s(3,4) in simp)
  moreover have "session_step demo_sdk nrf52_hw ?e 0 ?a ?b" by (rule time_supervise) (simp_all add: s(3-5) ready_def)
  ultimately have r: "(session_step demo_sdk nrf52_hw ?e 0)\<^sup>*\<^sup>* s ?b" by (rule rtranclp.rtrancl_into_rtrancl)
  have p: "tm_due s Poweroff_work = None" "\<not> tm_down ?b" "tm_now ?b = 1000" by (simp_all add: s(3-5))
  have a: "env_rc ?e (cs @ calls (tm_world s)) (Gpio_pin_get_dt Wake_signal) \<noteq> 0" for cs by (simp add: awake_rc_def)
  from stays_awake [OF s(2,5) p(1) r a] s(1,6) r p(2,3) show ?thesis
    by (intro exI [of _ s] exI [of _ ?b]) auto
qed

theorem written_id_restarts_in_time_witness:
  "\<exists>s w' t. demo_timed_init s \<and> handle demo_sdk nrf52_hw boot_env (Write_id [0x39, 0x30] 2) (tm_world s) = Some w'
     \<and> (session_step demo_sdk nrf52_hw boot_env 0)\<^sup>*\<^sup>* (timed_run w' {} s) t \<and> tm_down t"
proof -
  let ?R = "session_step demo_sdk nrf52_hw boot_env 0"
  obtain s where s: "demo_timed_init s" "reachable demo_timed_init (timed_step demo_sdk demo_app nrf52_hw boot_env 0) s"
    "tm_now s = 0" "tm_due s = [Supervision_work \<mapsto> 1000]" "\<not> tm_down s"
    using demo_timed by metis
  define w' where "w' = snd (cfg_srv_devid_chrx_on_write_cb boot_env [0x39, 0x30] 2 (tm_world s))"
  have h: "handle demo_sdk nrf52_hw boot_env (Write_id [0x39, 0x30] 2) (tm_world s) = Some w'" by (simp add: w'_def)
  have sv: "env_rc boot_env (calls (tm_world s)) (Settings_save_one ''id'' (le_bytes 2 (written_device_id [0x39, 0x30] 2))) = 0"
    using boot_env_laws(2) by (simp add: saves_succeed_def)
  let ?a = "timed_run w' {} s"
  let ?b = "?a\<lparr>tm_now := tm_now ?a + 250\<rparr>"
  let ?c = "(timed_run (reboot_work_wrapper boot_env (tm_world ?b)) {Reboot_work} ?b)\<lparr>tm_down := True\<rparr>"
  let ?d = "?c\<lparr>tm_now := tm_now ?c + 1\<rparr>"
  have two: "2 = (1 :: u16) \<or> 2 = (2 :: u16)" by simp
  have da: "tm_due ?a = [Supervision_work \<mapsto> 1000, Reboot_work \<mapsto> 250]"
    unfolding timed_run_def using write_id_calls [OF two sv] by (simp add: w'_def s(3,4) due_effect_def)
  have "?R\<^sup>*\<^sup>* ?a ?b" by (rule ticks) (use s(3) in \<open>simp add: da\<close>)
  moreover have "?R ?b ?c" by (rule time_reboot) (simp_all add: s(3,5) da ready_def)
  moreover have "?R\<^sup>*\<^sup>* ?c ?d" by (rule ticks) simp
  ultimately have run: "?R\<^sup>*\<^sup>* ?a ?d" by (meson rtranclp.rtrancl_into_rtrancl rtranclp_trans)
  have "tm_now ?d > tm_now s + 250 + 0" by simp
  from written_id_restarts_in_time [OF s(2,5) h two sv run this] s(1) h run show ?thesis by blast
qed

lemma history_run:
  assumes "(session_step sdk hw e lat)\<^sup>*\<^sup>* s t"
  shows "\<exists>cs. calls (tm_world t) = cs @ calls (tm_world s)"
  using assms
proof (induction rule: rtranclp_induct)
  case (step t u)
  then show ?case using history_grows [OF step.hyps(2)] by force
qed simp

text \<open>An awake device is supervised second by second, with the Bluetooth shutdown pending.\<close>

abbreviation with_shutdown :: "nat \<Rightarrow> nat \<Rightarrow> work \<Rightarrow> nat option" where
  "with_shutdown d now \<equiv> [Supervision_work \<mapsto> now + 1000, Disable_bt_work \<mapsto> d]"

lemma awake_run:
  assumes "tm_due s = with_shutdown d (tm_now s)" "\<not> tm_down s" "tm_now s + 1000 * k \<le> d"
  shows "\<exists>t cs. (session_step sdk hw awake_env 0)\<^sup>*\<^sup>* s t \<and> tm_due t = with_shutdown d (tm_now t)
    \<and> \<not> tm_down t \<and> tm_now t = tm_now s + 1000 * k \<and> calls (tm_world t) = cs @ calls (tm_world s)
    \<and> set cs \<subseteq> {K_work_schedule Supervision_work 1000, Gpio_pin_get_dt Wake_signal}"
  using assms(3)
proof (induction k)
  case 0
  show ?case by (intro exI [of _ s] exI [of _ "[]"] conjI assms(1,2)) simp_all
next
  case (Suc k)
  then have "tm_now s + 1000 * k \<le> d" by simp
  from Suc.IH [OF this] obtain t cs where t: "(session_step sdk hw awake_env 0)\<^sup>*\<^sup>* s t" "tm_due t = with_shutdown d (tm_now t)" "\<not> tm_down t"
    "tm_now t = tm_now s + 1000 * k" "calls (tm_world t) = cs @ calls (tm_world s)"
    "set cs \<subseteq> {K_work_schedule Supervision_work 1000, Gpio_pin_get_dt Wake_signal}" by (elim exE conjE)
  let ?a = "t\<lparr>tm_now := tm_now t + 1000\<rparr>"
  let ?b = "timed_run (supervise awake_env (tm_world ?a)) {Supervision_work} ?a"
  have "(session_step sdk hw awake_env 0)\<^sup>*\<^sup>* t ?a"
    by (rule ticks) (use Suc.prems t(4) in \<open>simp add: t(2)\<close>)
  moreover have "session_step sdk hw awake_env 0 ?a ?b"
    by (rule time_supervise) (simp_all add: t(2,3) ready_def)
  ultimately have r: "(session_step sdk hw awake_env 0)\<^sup>*\<^sup>* s ?b"
    using t(1) by (meson rtranclp.rtrancl_into_rtrancl rtranclp_trans)
  have d: "tm_due ?b = with_shutdown d (tm_now ?b)"
    unfolding supervise_dues by (simp add: awake_rc_def t(2)) (simp add: fun_upd_twist)
  have "calls (tm_world ?b) = [K_work_schedule Supervision_work 1000, Gpio_pin_get_dt Wake_signal] @ calls (tm_world t)"
    by (simp add: supervise_def invoke_def awake_rc_def)
  then show ?case
    using r d t by (intro exI [of _ ?b] exI [of _ "[K_work_schedule Supervision_work 1000, Gpio_pin_get_dt Wake_signal] @ cs"]) auto
qed

text \<open>A service that is unregistered cannot be unregistered again, as \<open>shutdown_retry_stuck\<close> assumes.\<close>

definition unregisters_once :: "env \<Rightarrow> bool" where
  "unregisters_once e \<longleftrightarrow> (\<forall>cs post. env_rc e post Smp_bt_unregister = 0
     \<longrightarrow> env_rc e (cs @ Smp_bt_unregister # post) Smp_bt_unregister \<noteq> 0)"

text \<open>Under that law the device stays up, nobody connects, and Bluetooth is disabled.\<close>

theorem bluetooth_off_in_time_witness:
  "unregisters_once awake_env
   \<and> (\<exists>(s :: (u8 option, unit, unit) bt_world timed_state) t cs. tm_due s Disable_bt_work = Some 30000
     \<and> (session_step demo_sdk nrf52_hw awake_env 0)\<^sup>*\<^sup>* s t \<and> \<not> tm_down t
     \<and> calls (tm_world t) = cs @ calls (tm_world s) \<and> bt_disabled awake_env (calls (tm_world s)) cs)"
proof -
  let ?R = "session_step demo_sdk nrf52_hw awake_env 0"
  obtain s :: "(u8 option, unit, unit) bt_world timed_state" where
    s: "reachable (timed_init demo_sdk demo_app nrf52_hw awake_env) (timed_step demo_sdk demo_app nrf52_hw awake_env 0) s"
    "tm_now s = 0" "tm_due s = [Supervision_work \<mapsto> 1000]" "\<not> tm_down s" "Smp_bt_unregister \<notin> set (calls (tm_world s))"
    using demo_timed_boot [OF awake_boots] by metis
  let ?a = "timed_run (disconnected awake_env (tm_world s)) {} s"
  let ?b = "timed_run (advertise awake_env (tm_world ?a)) {Advertise_work} ?a"
  have da: "tm_due ?a = [Supervision_work \<mapsto> 1000, Advertise_work \<mapsto> 0, Disable_bt_work \<mapsto> 30000]"
    unfolding timed_run_def by (simp add: new_calls_bt s(2,3) due_effect_def)
  have db: "tm_due ?b = with_shutdown 30000 0"
    unfolding timed_run_def [of "advertise awake_env (tm_world ?a)"]
    by (rule ext) (simp add: da new_calls_bt due_effect_def restrict_map_def)
  have "?R s ?a" using time_event [of s Disconnected demo_sdk nrf52_hw awake_env _ 0] s(4) by simp
  moreover have "?R ?a ?b"
    using time_event [of ?a Advertise demo_sdk nrf52_hw awake_env _ 0] s(2,4) by (simp add: ready_def da)
  ultimately have rb: "reachable (timed_init demo_sdk demo_app nrf52_hw awake_env)
      (timed_step demo_sdk demo_app nrf52_hw awake_env 0) ?b"
    using s(1) by (meson reachable.reach_step timed_session)
  have b: "tm_now ?b = 0" "\<not> tm_down ?b" "tm_due ?b Disable_bt_work = Some 30000"
    unfolding db by (simp_all add: s(2,4))
  have reg: "Smp_bt_unregister \<notin> set (calls (tm_world ?b))"
    using s(5) by (simp add: disconnected_def advertise_def)
  obtain t cs where t: "?R\<^sup>*\<^sup>* ?b t" "tm_due t = with_shutdown 30000 (tm_now t)" "\<not> tm_down t" "tm_now t = 30000"
    "calls (tm_world t) = cs @ calls (tm_world ?b)"
    "set cs \<subseteq> {K_work_schedule Supervision_work 1000, Gpio_pin_get_dt Wake_signal}"
    using awake_run [of ?b 30000 30 demo_sdk nrf52_hw] b db by auto
  let ?c = "timed_run (disable_bt awake_env (tm_world t)) {Disable_bt_work} t"
  let ?d = "?c\<lparr>tm_now := tm_now ?c + 1\<rparr>"
  have off: "shuts_down awake_env (calls (tm_world ?b))" using reg by (simp add: shuts_down_def awake_rc_def)
  have "Smp_bt_unregister \<notin> set cs" using t(6) by auto
  note dis = disable_bt_disables(1) [OF off t(5) this]
  have "new_calls (tm_world t) (disable_bt awake_env (tm_world t)) = [Bt_disable, Smp_bt_unregister, Bt_le_adv_stop]"
    by (rule new_calls_eq [OF dis])
  then have dc: "tm_due ?c = [Supervision_work \<mapsto> 31000]"
    unfolding timed_run_def by (simp add: t(2,4) due_effect_def)
  have "?R t ?c" using time_event [of t Disable demo_sdk nrf52_hw awake_env _ 0] t(2-4) by (simp add: ready_def)
  moreover have "?R\<^sup>*\<^sup>* ?c ?d" by (rule ticks) (simp add: dc t(4))
  ultimately have run: "?R\<^sup>*\<^sup>* ?b ?d" using t(1) by (meson rtranclp.rtrancl_into_rtrancl rtranclp_trans)
  have cd: "calls (tm_world ?d) = ([Bt_disable, Smp_bt_unregister, Bt_le_adv_stop] @ cs) @ calls (tm_world ?b)"
    using dis t(5) by simp
  have "tm_now ?d > tm_now ?b + 30000 + 0" using b(1) t(4) by simp
  from bluetooth_off_in_time [OF rb b(3) off run this cd] t(3,6)
  have "bt_disabled awake_env (calls (tm_world ?b)) ([Bt_disable, Smp_bt_unregister, Bt_le_adv_stop] @ cs)" by auto
  moreover have "\<not> tm_down ?d" using t(3) by simp
  moreover have "unregisters_once awake_env" by (simp add: unregisters_once_def awake_rc_def)
  ultimately show ?thesis using b(3) run cd by blast
qed

end
