(* ===== verification/Torn_Update.thy ===== *)
theory Torn_Update
  imports Firmware
begin

text \<open>
  A reset in the middle of an update of the retained data (\<open>retained.c\<close>, \<open>main.c\<close>). The updates are
  spelled out as the sequence of stores the source makes; RAM survives a reset with the stores made
  so far. Their composition is the update of the other theories; a proper prefix of it is what a
  boot finds after a watchdog, a fault or a reset pin.
\<close>

subsection \<open>Stores\<close>

type_synonym store = "retained_data \<Rightarrow> retained_data"

definition run_stores :: "store list \<Rightarrow> retained_data \<Rightarrow> retained_data" where
  "run_stores fs r = foldl (\<lambda>r f. f r) r fs"

definition update_stores :: "hw \<Rightarrow> u64 \<Rightarrow> store list" where
  "update_stores hw now =
     [\<lambda>r. r\<lparr>uptime_sum := uptime_sum r + (now - uptime_latest r)\<rparr>,
      \<lambda>r. r\<lparr>uptime_latest := now\<rparr>,
      \<lambda>r. r\<lparr>crc := crc32_ieee hw (take RETAINED_CRC_OFFSET (retained_bytes r))\<rparr>]"

text \<open>A boot starts from the data as they are if they are valid, and from zeros otherwise.\<close>

definition checked :: "hw \<Rightarrow> retained_data \<Rightarrow> retained_data" where
  "checked hw r = (if retained_valid hw r then r else retained_zero)"

definition boot_stores :: "hw \<Rightarrow> u64 \<Rightarrow> store list" where
  "boot_stores hw now = (\<lambda>r. r\<lparr>uptime_latest := 0\<rparr>) # (\<lambda>r. r\<lparr>boots := boots r + 1\<rparr>) # update_stores hw now"

definition dfu_stores :: "hw \<Rightarrow> u64 \<Rightarrow> store list" where
  "dfu_stores hw now = (\<lambda>r. r\<lparr>boots := 0\<rparr>) # update_stores hw now"

definition poweroff_stores :: "hw \<Rightarrow> u64 \<Rightarrow> store list" where
  "poweroff_stores hw now = (\<lambda>r. r\<lparr>off_count := off_count r + 1\<rparr>) # update_stores hw now"

lemma run_stores_simps [simp]:
  "run_stores [] r = r" "run_stores (f # fs) r = run_stores fs (f r)"
  by (simp_all add: run_stores_def)

lemma run_update_stores:
  "run_stores (update_stores hw now) r = retained_seal hw (retained_accrue now r)"
  by (simp add: update_stores_def retained_seal_def retained_accrue_def)

lemma retained_update_stores:
  "retained_obj (retained_update hw e w)
    = run_stores (update_stores hw (ucast (fst (k_uptime_seconds e w)))) (retained_obj w)"
  by (simp add: run_update_stores retained_update_obj)

lemma counted_boot_stores:
  "counted_boot hw now r = run_stores (boot_stores hw now) (checked hw r)"
  by (simp add: counted_boot_def boot_stores_def run_update_stores validated_def checked_def Let_def)

lemma uptime_retained_obj [simp]:
  "fst (k_uptime_seconds e (w\<lparr>retained_obj := r\<rparr>)) = fst (k_uptime_seconds e w)"
  by (simp add: k_uptime_seconds_def split_def)

text \<open>
  The stores of an update, of the firmware update callback, of powering off and of a
  boot, one after the other, are what these operations do to the retained data in one step.
\<close>

theorem stores_refine_update:
  assumes "(off, wp) = poweroff hw e w" "main sdk cfg hw e w = Some (rc, wm)"
    and "now = ucast (fst (k_uptime_seconds e w))"
    and "now' = ucast (fst (k_uptime_seconds e
           (snd (invoke e (Gpio_pin_interrupt_configure_dt Wake_signal GPIO_INT_LEVEL_ACTIVE) w))))"
  shows "retained_obj (retained_update hw e w) = run_stores (update_stores hw now) (retained_obj w)
    \<and> retained_obj (dfu_pending_cb hw e MGMT_EVT_OP_IMG_MGMT_DFU_PENDING w)
        = run_stores (dfu_stores hw now) (retained_obj w)
    \<and> retained_obj wp = (if off then run_stores (poweroff_stores hw now') (retained_obj w) else retained_obj w)
    \<and> (\<exists>t. retained_obj wm = run_stores (boot_stores hw t) (checked hw (retained_obj w)))"
proof (intro conjI)
  show "retained_obj (dfu_pending_cb hw e MGMT_EVT_OP_IMG_MGMT_DFU_PENDING w)
      = run_stores (dfu_stores hw now) (retained_obj w)"
    by (simp add: dfu_pending_cb_def dfu_stores_def retained_update_stores assms(3))
  have "fst (k_uptime_seconds e (w\<lparr>calls := cs, retained_obj := r\<rparr>)) = fst (k_uptime_seconds e (w\<lparr>calls := cs\<rparr>))" for cs r
    by (simp add: k_uptime_seconds_def split_def)
  then show "retained_obj wp = (if off then run_stores (poweroff_stores hw now') (retained_obj w) else retained_obj w)"
    using assms(1) by (auto simp: poweroff_def poweroff_stores_def assms(4) invoke_def Let_def retained_update_stores
        split: if_splits)
  show "\<exists>t. retained_obj wm = run_stores (boot_stores hw t) (checked hw (retained_obj w))"
    using main_result(8) [OF assms(2)] by (simp add: counted_boot_stores)
qed (simp add: retained_update_stores assms(3))

subsection \<open>A reset between two stores\<close>

lemma crc32_word_store: "crc32 (pre @ le_bytes 4 v @ post) = crc32 (pre @ le_bytes 4 v' @ post) \<longleftrightarrow> v = v'"
  for v v' :: u32
  unfolding le_bytes_def by (rule crc32_word_change)

lemma le_bytes_4:
  assumes "length bs = 4"
  shows "\<exists>v :: u32. bs = le_bytes 4 v"
proof -
  let ?v = "ucast (bs ! 0) OR push_bit 8 (ucast (bs ! 1)) OR push_bit 16 (ucast (bs ! 2)) OR push_bit 24 (ucast (bs ! 3)) :: u32"
  have "byte_of 0 ?v = bs ! 0" "byte_of 1 ?v = bs ! 1" "byte_of 2 ?v = bs ! 2" "byte_of 3 ?v = bs ! 3"
    by (rule bit_word_eqI; auto simp: bit_simps)+
  moreover from assms obtain b0 b1 b2 b3 where "bs = [b0, b1, b2, b3]"
    by (auto simp: length_Suc_conv eval_nat_numeral)
  ultimately have "bs = le_bytes 4 ?v" by (simp add: le_bytes_def upt_rec eval_nat_numeral)
  then show ?thesis by blast
qed

lemma le_bytes_inj:
  fixes v v' :: "'a::len word"
  assumes "le_bytes n v = le_bytes n v'" "LENGTH('a) \<le> 8 * n"
  shows "v = v'"
proof (rule bit_word_eqI)
  fix k assume k: "k < LENGTH('a)"
  then have "k div 8 < n" using assms(2) by linarith
  then have "byte_of (k div 8) v = byte_of (k div 8) v'"
    using assms(1) by (simp add: le_bytes_def)
  then have "bit (byte_of (k div 8) v) (k mod 8) = bit (byte_of (k div 8) v') (k mod 8)" by simp
  then show "bit v k = bit v' k" by (simp add: bit_byte_of)
qed

lemma retained_bytes_inj: "retained_bytes r = retained_bytes r' \<Longrightarrow> r = r'"
  by (auto simp: retained_bytes_def intro!: retained_data.equality dest!: le_bytes_inj)

lemma retained_valid_crc32:
  "crc32_ieee hw = crc32 \<Longrightarrow> retained_valid hw r \<longleftrightarrow> crc32 (retained_bytes r) = crc_residue"
  by (simp add: retained_valid_def RETAINED_CHECKED_SIZE_def RETAINED_CRC_OFFSET_def)

lemma valid_word_change:
  assumes "crc32_ieee hw = crc32" "retained_valid hw r" "retained_valid hw r'"
    and "retained_bytes r = pre @ ws @ post" "retained_bytes r' = pre @ ws' @ post" "length ws = 4" "length ws' = 4"
  shows "r = r'"
proof -
  obtain v v' :: u32 where "ws = le_bytes 4 v" "ws' = le_bytes 4 v'"
    using le_bytes_4 [OF assms(6)] le_bytes_4 [OF assms(7)] by auto
  moreover have "crc32 (pre @ ws @ post) = crc32 (pre @ ws' @ post)"
    using assms(2,3) by (simp only: retained_valid_crc32 [OF assms(1)] assms(4,5))
  ultimately have "ws = ws'" by (simp only: crc32_word_store)
  then show ?thesis using assms(4,5) by (intro retained_bytes_inj) simp
qed

text \<open>
  Property C25: with the CRC-32 the firmware uses, damage within one 32 bit word of the retained
  data, whichever word and however many of its bits, is always detected: two valid contents that
  agree outside one word are equal.
\<close>

theorem corrupted_word_detected:
  assumes "crc32_ieee hw = crc32" "retained_valid hw r" "retained_valid hw r'" "i < 7"
    and "\<And>j. j < 28 \<Longrightarrow> j div 4 \<noteq> i \<Longrightarrow> retained_bytes r ! j = retained_bytes r' ! j"
  shows "r = r'"
proof (rule valid_word_change [OF assms(1-3)])
  let ?b = "retained_bytes r" and ?b' = "retained_bytes r'"
  show "?b = take (4 * i) ?b @ take 4 (drop (4 * i) ?b) @ drop (4 * i + 4) ?b"
    by (metis append_take_drop_id drop_drop add.commute)
  have "take (4 * i) ?b = take (4 * i) ?b'" "drop (4 * i + 4) ?b = drop (4 * i + 4) ?b'"
    using assms(4,5) by (auto intro!: nth_equalityI)
  moreover have "?b' = take (4 * i) ?b' @ take 4 (drop (4 * i) ?b') @ drop (4 * i + 4) ?b'"
    by (metis append_take_drop_id drop_drop add.commute)
  ultimately show "?b' = take (4 * i) ?b @ take 4 (drop (4 * i) ?b') @ drop (4 * i + 4) ?b" by simp
qed (use assms(4) in simp_all)

lemma changed_off_count:
  assumes "crc32_ieee hw = crc32" "retained_valid hw r" "retained_valid hw (r\<lparr>off_count := c\<rparr>)"
  shows "c = off_count r"
proof -
  have "r = r\<lparr>off_count := c\<rparr>"
    by (rule valid_word_change [OF assms, where pre = "le_bytes 8 (uptime_latest r) @ le_bytes 8 (uptime_sum r) @ le_bytes 4 (boots r)"
          and ws = "le_bytes 4 (off_count r)" and ws' = "le_bytes 4 c" and post = "le_bytes 4 (crc r)"])
      (simp_all add: retained_bytes_def)
  then show ?thesis by (metis retained_data.select_convs(4) retained_data.surjective retained_data.update_convs(4))
qed

lemma le_bytes_8: "le_bytes 8 v = le_bytes 4 (ucast v :: u32) @ le_bytes 4 (ucast (drop_bit 32 v) :: u32)" for v :: u64
proof -
  have "byte_of k (ucast v :: u32) = byte_of k v" "byte_of k (ucast (drop_bit 32 v) :: u32) = byte_of (k + 4) v" if "k < 4" for k
    by (rule bit_word_eqI; use that in \<open>auto simp: bit_simps ac_simps\<close>)+
  then show ?thesis by (simp add: le_bytes_def upt_rec eval_nat_numeral)
qed

lemma changed_uptime_latest:
  assumes "crc32_ieee hw = crc32" "retained_valid hw r" "retained_valid hw (r\<lparr>uptime_latest := t\<rparr>)"
    and "drop_bit 32 t = drop_bit 32 (uptime_latest r)"
  shows "t = uptime_latest r"
proof -
  have "r = r\<lparr>uptime_latest := t\<rparr>"
    by (rule valid_word_change [OF assms(1-3), where pre = "[]"
          and ws = "le_bytes 4 (ucast (uptime_latest r) :: u32)" and ws' = "le_bytes 4 (ucast t :: u32)"
          and post = "le_bytes 4 (ucast (drop_bit 32 t) :: u32) @ le_bytes 8 (uptime_sum r)
            @ le_bytes 4 (boots r) @ le_bytes 4 (off_count r) @ le_bytes 4 (crc r)"])
      (simp_all add: retained_bytes_def le_bytes_8 assms(4))
  then show ?thesis by (metis retained_data.select_convs(1) retained_data.surjective retained_data.update_convs(1))
qed

lemma small_word_high: "x < 2 ^ 32 \<Longrightarrow> drop_bit 32 x = 0" for x :: u64
proof -
  assume "x < 2 ^ 32"
  then have "unat x < 2 ^ 32" by (simp add: word_less_nat_alt)
  moreover have "unat (drop_bit 32 x) = unat x div 2 ^ 32"
    by (simp only: unat_drop_bit_eq) (simp only: drop_bit_eq_div)
  ultimately have "unat (drop_bit 32 x) = 0" by simp
  then show ?thesis by (simp only: word_unat_eq_iff unsigned_0)
qed

text \<open>
  Property C20: a reset between the first store of a power-off or of a boot and the following one is
  noticed, but costs all retained data: the next boot counts as the first, the cumulated uptime is
  that of its own session alone, the power-offs are forgotten, and Bluetooth is enabled. For a
  boot, this holds if the uptime base that its first store clears was not zero already (then that store changes
  nothing), and was below \<open>2 ^ 32\<close> seconds.
\<close>

theorem reset_in_window_loses_data:
  assumes "crc32_ieee hw = crc32" "retained_valid hw r"
    and "stores = poweroff_stores hw now \<or> stores = boot_stores hw now \<and> 0 < uptime_latest r \<and> uptime_latest r < 2 ^ 32"
    and "retained_obj w = run_stores (take 1 stores) r" "main sdk cfg hw e w = Some (rc, w')"
  shows "boots (retained_obj w') = 1 \<and> off_count (retained_obj w') = 0
    \<and> uptime_sum (retained_obj w') = uptime_latest (retained_obj w') \<and> Bt_enable \<in> set (new_calls w w')"
proof -
  have invalid: "\<not> retained_valid hw (retained_obj w)"
    using assms(3)
  proof (elim disjE conjE)
    assume "stores = poweroff_stores hw now"
    then have "retained_obj w = r\<lparr>off_count := off_count r + 1\<rparr>" using assms(4) by (simp add: poweroff_stores_def)
    moreover have "off_count r + 1 \<noteq> off_count r" by simp
    ultimately show ?thesis using changed_off_count [OF assms(1,2), of "off_count r + 1"] by metis
  next
    assume "stores = boot_stores hw now" and u: "0 < uptime_latest r" "uptime_latest r < 2 ^ 32"
    then have "retained_obj w = r\<lparr>uptime_latest := 0\<rparr>" using assms(4) by (simp add: boot_stores_def)
    moreover have "drop_bit 32 0 = drop_bit 32 (uptime_latest r)" using small_word_high [OF u(2)] by simp
    moreover have "0 \<noteq> uptime_latest r" using u(1) by simp
    ultimately show ?thesis using changed_uptime_latest [OF assms(1,2), of 0] by metis
  qed
  obtain now' where "retained_obj w' = counted_boot hw now' (retained_obj w)" using main_result(8) [OF assms(5)] by blast
  with invalid have "uptime_sum (retained_obj w') = uptime_latest (retained_obj w')"
    by (simp add: counted_boot_def validated_def Let_def retained_accrue_def retained_zero_def)
  with invalid show ?thesis using main_result [OF assms(5)] by simp
qed

lemma dfu_boots:
  "1 \<le> k \<Longrightarrow> boots (run_stores (take k (dfu_stores hw now)) r) = 0
    \<and> off_count (run_stores (take k (dfu_stores hw now)) r) = off_count r"
  by (cases k; cases "k - 1"; cases "k - 2"; cases "k - 3")
    (auto simp: dfu_stores_def update_stores_def)

text \<open>
  Property C19: the announcement of a firmware update cannot be torn: from its first store on, a
  reset at any moment, whatever the checksum makes of the half-written data, leads to a boot that
  enables Bluetooth and counts as boot 1.
\<close>

theorem dfu_survives_reset:
  assumes "1 \<le> k" "retained_obj w = run_stores (take k (dfu_stores hw now)) r"
    and "main sdk cfg hw e w = Some (rc, w')"
  shows "Bt_enable \<in> set (new_calls w w') \<and> boots (retained_obj w') = 1"
  using main_result [OF assms(3)] dfu_boots [OF assms(1)] by (simp add: assms(2))

subsection \<open>Witnesses\<close>

definition sealed_zero :: retained_data where
  "sealed_zero = retained_seal nrf52_hw retained_zero"

lemma sealed_zero: "retained_valid nrf52_hw sealed_zero" "crc32_ieee nrf52_hw = crc32"
  using seal_valid [OF nrf52_hw_laws(1)] by (simp_all add: sealed_zero_def nrf52_hw_def)

lemma sealed_zero_boots: "boots sealed_zero = 0"
  by (simp add: sealed_zero_def retained_zero_def)

lemma demo_main:
  "\<exists>w'. main demo_sdk demo_app nrf52_hw boot_env (demo_bt_world\<lparr>retained_obj := r\<rparr>) = Some (EXIT_SUCCESS, w')"
  using main_succeeds [OF store_env_backend refl boot_env_laws(1) demo_sdk_laws(1,3) nrf52_hw_laws(3), of demo_app
      "demo_bt_world\<lparr>retained_obj := r\<rparr>"] by blast

lemma demo_retained: "retained_obj (demo_bt_world\<lparr>retained_obj := r\<rparr>) = r"
  by simp

theorem stores_refine_update_witness:
  "\<exists>t. retained_obj (snd (poweroff nrf52_hw boot_env (demo_bt_world\<lparr>retained_obj := sealed_zero\<rparr>)))
     = run_stores (poweroff_stores nrf52_hw t) sealed_zero"
proof -
  let ?w = "demo_bt_world\<lparr>retained_obj := sealed_zero\<rparr>"
  obtain off wp where p: "(off, wp) = poweroff nrf52_hw boot_env ?w" by (metis prod.collapse)
  obtain wm where "main demo_sdk demo_app nrf52_hw boot_env ?w = Some (EXIT_SUCCESS, wm)" using demo_main by blast
  from stores_refine_update [OF p this refl refl] have "retained_obj wp = (if off then
      run_stores (poweroff_stores nrf52_hw (ucast (fst (k_uptime_seconds boot_env
        (snd (invoke boot_env (Gpio_pin_interrupt_configure_dt Wake_signal GPIO_INT_LEVEL_ACTIVE) ?w)))))) (retained_obj ?w)
      else retained_obj ?w)" by blast
  moreover have off using poweroff_armed [OF boot_env_laws(4), of nrf52_hw ?w] p by auto
  ultimately show ?thesis using p [symmetric] by auto
qed

theorem corrupted_word_detected_witness:
  "\<not> retained_valid nrf52_hw (sealed_zero\<lparr>boots := 5\<rparr>)"
proof
  assume v: "retained_valid nrf52_hw (sealed_zero\<lparr>boots := 5\<rparr>)"
  have "retained_bytes sealed_zero ! j = retained_bytes (sealed_zero\<lparr>boots := 5\<rparr>) ! j" if "j < 28" "j div 4 \<noteq> 4" for j
  proof -
    have "j < 16 \<or> 20 \<le> j" using that(2) by linarith
    then show ?thesis by (auto simp: retained_bytes_def nth_append)
  qed
  from corrupted_word_detected [OF sealed_zero(2,1) v _ this, of 4]
  have "sealed_zero = sealed_zero\<lparr>boots := 5\<rparr>" by simp
  from arg_cong [OF this, of boots] show False by (simp add: sealed_zero_boots)
qed

theorem reset_in_window_loses_data_witness:
  "\<exists>w'. main demo_sdk demo_app nrf52_hw boot_env (demo_bt_world\<lparr>retained_obj := sealed_zero\<lparr>off_count := 1\<rparr>\<rparr>)
      = Some (EXIT_SUCCESS, w') \<and> off_count (retained_obj w') = 0
      \<and> uptime_sum (retained_obj w') = uptime_latest (retained_obj w')"
proof -
  let ?w = "demo_bt_world\<lparr>retained_obj := sealed_zero\<lparr>off_count := 1\<rparr>\<rparr>"
  obtain w' where m: "main demo_sdk demo_app nrf52_hw boot_env ?w = Some (EXIT_SUCCESS, w')" using demo_main by blast
  have "retained_obj ?w = run_stores (take 1 (poweroff_stores nrf52_hw 0)) sealed_zero"
    by (simp add: poweroff_stores_def) (simp add: sealed_zero_def retained_zero_def)
  from reset_in_window_loses_data [OF sealed_zero(2,1) disjI1 [OF refl] this m] m show ?thesis by blast
qed

theorem dfu_survives_reset_witness:
  "\<exists>w'. main demo_sdk demo_app nrf52_hw boot_env
        (demo_bt_world\<lparr>retained_obj := run_stores (take 2 (dfu_stores nrf52_hw 77)) (sealed_zero\<lparr>boots := 9\<rparr>)\<rparr>)
      = Some (EXIT_SUCCESS, w') \<and> boots (retained_obj w') = 1"
proof -
  let ?x = "run_stores (take 2 (dfu_stores nrf52_hw 77)) (sealed_zero\<lparr>boots := 9\<rparr>)"
  obtain w' where m: "main demo_sdk demo_app nrf52_hw boot_env (demo_bt_world\<lparr>retained_obj := ?x\<rparr>) = Some (EXIT_SUCCESS, w')"
    using demo_main [of ?x] by (elim exE)
  have "retained_obj (demo_bt_world\<lparr>retained_obj := ?x\<rparr>) = ?x" by (rule demo_retained)
  from dfu_survives_reset [OF one_le_numeral this m] have "boots (retained_obj w') = 1" by (elim conjE)
  with m show ?thesis by (intro exI conjI)
qed

end
