(* ===== verification/Air_Link.thy ===== *)
theory Air_Link
  imports Ant_App
begin

text \<open>
  The two ends of the air link together (\<open>ant_tpms.c\<close>, \<open>ant.c\<close>): the sensor's event handler with the
  application's handlers on one side, the display's event handler on the other. Between them the
  radio carries the message of a transmit slot or loses it. The composition is simulated by an
  abstract link on which every slot copies one page, the one the message counter calls for, from
  the sensor's profile to the display's.
\<close>

subsection \<open>The two ends\<close>

text \<open>The radio's event at the end of a slot, and the display's event for a message on the air.\<close>

definition tx_event :: "u8 \<Rightarrow> ant_evt" where
  "tx_event ch = \<lparr>ae_channel = ch, ae_event = EVENT_TX, ae_mesg_id = MESG_OTHER_ID 0, ae_payload = []\<rparr>"

definition rx_event :: "u8 \<Rightarrow> call \<Rightarrow> ant_evt option" where
  "rx_event ch c =
     (case c of
        Ant_acknowledge_message_tx _ msg \<Rightarrow> Some \<lparr>ae_channel = ch, ae_event = EVENT_RX,
          ae_mesg_id = MESG_ACKNOWLEDGED_DATA_ID, ae_payload = msg\<rparr>
      | Ant_broadcast_message_tx _ msg \<Rightarrow> Some \<lparr>ae_channel = ch, ae_event = EVENT_RX,
          ae_mesg_id = MESG_BROADCAST_DATA_ID, ae_payload = msg\<rparr>
      | _ \<Rightarrow> None)"

text \<open>
  What happens to the sensor: a transmit slot, whose message arrives or not, a message received
  from a display, and new readings on the data channel.
\<close>

datatype link_event = Slot bool | Received ant_evt | Readings sensor_readings

definition sensor_step ::
  "('rc, 'p80, 'p81) ant_sdk \<Rightarrow> env \<Rightarrow> link_event \<Rightarrow> ('rc, 'p80, 'p81, 'z) tpms_world_scheme
    \<Rightarrow> ('rc, 'p80, 'p81, 'z) tpms_world_scheme option" where
  "sensor_step sdk e ev ws =
     (case ev of
        Slot _ \<Rightarrow> ant_evt_handler sdk e (tx_event (channel_number (tpms ws))) ws
      | Received evt \<Rightarrow> ant_evt_handler sdk e evt ws
      | Readings r \<Rightarrow> Some (ant_sensor_data_handler_cb e r ws))"

definition deliver ::
  "('rc, 'p80, 'p81) ant_sdk \<Rightarrow> ('rc, 'p80, 'p81, 'y) tpms_world_scheme handlers \<Rightarrow> call list
    \<Rightarrow> ('rc, 'p80, 'p81, 'y) tpms_world_scheme \<Rightarrow> ('rc, 'p80, 'p81, 'y) tpms_world_scheme" where
  "deliver sdk h sent wd =
     (case sent of
        [] \<Rightarrow> wd
      | c # _ \<Rightarrow> (case rx_event (channel_number (tpms wd)) c of
                    None \<Rightarrow> wd
                  | Some evt \<Rightarrow> ant_tpms_disp_evt_handler sdk h evt wd))"

fun link_run ::
  "('rc, 'p80, 'p81) ant_sdk \<Rightarrow> env \<Rightarrow> ('rc, 'p80, 'p81, 'y) tpms_world_scheme handlers \<Rightarrow> link_event list
    \<Rightarrow> ('rc, 'p80, 'p81, 'z) tpms_world_scheme \<Rightarrow> ('rc, 'p80, 'p81, 'y) tpms_world_scheme
    \<Rightarrow> (('rc, 'p80, 'p81, 'z) tpms_world_scheme \<times> ('rc, 'p80, 'p81, 'y) tpms_world_scheme) option" where
  "link_run sdk e h [] ws wd = Some (ws, wd)"
| "link_run sdk e h (ev # evs) ws wd =
     (case sensor_step sdk e ev ws of
        None \<Rightarrow> None
      | Some ws' \<Rightarrow> link_run sdk e h evs ws' (if ev = Slot True then deliver sdk h (calls ws') wd else wd))"

subsection \<open>The abstract link\<close>

text \<open>The sensor alone: the page and the profile of each slot whose message arrives.\<close>

fun copies ::
  "('rc, 'p80, 'p81) ant_sdk \<Rightarrow> env \<Rightarrow> link_event list \<Rightarrow> ('rc, 'p80, 'p81, 'z) tpms_world_scheme
    \<Rightarrow> (u8 \<times> ('p80, 'p81) ant_tpms_profile) list" where
  "copies sdk e [] ws = []"
| "copies sdk e (ev # evs) ws =
     (if ev = Slot True then [(fst (schedule_step (message_counter (sens_cb ws))), tpms ws)] else [])
     @ (case sensor_step sdk e ev ws of None \<Rightarrow> [] | Some ws' \<Rightarrow> copies sdk e evs ws')"

definition copy_all :: "('p80 \<Rightarrow> 'p80) \<Rightarrow> ('p81 \<Rightarrow> 'p81) \<Rightarrow> (u8 \<times> ('p80, 'p81) ant_tpms_profile) list
    \<Rightarrow> ('p80, 'p81) ant_tpms_profile \<Rightarrow> ('p80, 'p81) ant_tpms_profile" where
  "copy_all wire80 wire81 cs q = foldl (\<lambda>q (page, p). copy_page wire80 wire81 page p q) q cs"

text \<open>
  Controller states without a pending request, and events on which no request appears: the end of
  a slot, asking whether to acknowledge, and the received messages \<open>R\<close> (not requests, page 70).
\<close>

definition quiet_link :: "('rc, 'p80, 'p81) ant_sdk \<Rightarrow> 'rc set \<Rightarrow> (ant_evt \<Rightarrow> bool) \<Rightarrow> bool" where
  "quiet_link sdk Q R \<longleftrightarrow> quiet sdk Q
     \<and> (\<forall>rc \<in> Q. snd (ant_request_controller_ack_needed sdk rc) \<in> Q
        \<and> (\<forall>ch. ant_request_controller_sens_evt_handler sdk (tx_event ch) rc \<in> Q)
        \<and> (\<forall>evt. R evt \<longrightarrow> ant_request_controller_sens_evt_handler sdk evt rc \<in> Q))"

definition keeps_profile :: "('rc, 'p80, 'p81, 'y) tpms_world_scheme handlers \<Rightarrow> bool" where
  "keeps_profile h \<longleftrightarrow> (\<forall>f page w. tpms (call_evt_handler h f page w) = tpms w)"

text \<open>The received messages of a run are not transmissions, and are quiet.\<close>

definition admissible :: "(ant_evt \<Rightarrow> bool) \<Rightarrow> link_event list \<Rightarrow> bool" where
  "admissible R evs \<longleftrightarrow> (\<forall>evt. Received evt \<in> set evs \<longrightarrow> R evt \<and> ae_event evt \<noteq> EVENT_TX)"

subsection \<open>One step\<close>

text \<open>What the steps leave alone.\<close>

lemma config_frame:
  "request_controller (ant_tpms_config_handler e p w) = request_controller w"
  "sens_cb (ant_tpms_config_handler e p w) = sens_cb w"
  "evt_handler (tpms (ant_tpms_config_handler e p w)) = evt_handler (tpms w)"
  "channel_number (tpms (ant_tpms_config_handler e p w)) = channel_number (tpms w)"
  by (simp_all add: ant_tpms_config_handler_def config_match_role_def config_alarm_high_def config_alarm_low_def
      config_ambient_def config_role_def config_reset_def Let_def)

lemma readings_frame:
  "request_controller (ant_sensor_data_handler_cb e r w) = request_controller w"
  "sens_cb (ant_sensor_data_handler_cb e r w) = sens_cb w"
  "channel_number (tpms (ant_sensor_data_handler_cb e r w)) = channel_number (tpms w)"
  by (simp_all add: ant_sensor_data_handler_cb_def k_uptime_seconds_def Let_def split_def)

text \<open>A slot on the sensor's side: the message holds the scheduled page; the profile stays.\<close>

lemma slot_step:
  assumes "quiet_link sdk Q R" "sdk_pages sdk wire80 wire81" "request_controller ws \<in> Q"
    and "s = schedule_step (message_counter (sens_cb ws))"
  obtains tx payload ws' where "sensor_step sdk e (Slot d) ws = Some ws'"
    "tpms ws' = tpms ws" "request_controller ws' \<in> Q" "message_counter (sens_cb ws') = snd s"
    "config_handler (sens_cb ws') = config_handler (sens_cb ws)"
    "calls ws' = tx # calls ws" "is_tx_of (channel_number (tpms ws)) (fst s # payload) tx"
    "\<And>q. decode_page sdk q (fst s) payload = Some (copy_page wire80 wire81 (fst s) (tpms ws) q)"
proof -
  have quiet: "quiet sdk Q" using assms(1) by (simp add: quiet_link_def)
  obtain rc where rc: "rc \<in> Q" and n: "next_page_number_get sdk ws = Some (fst s,
      ws\<lparr>sens_cb := (sens_cb ws)\<lparr>message_counter := snd s\<rparr>, request_controller := rc\<rparr>)"
    using next_page_schedule [OF quiet assms(3)] assms(4) by blast
  have "known_page (fst s)" by (simp add: assms(4) schedule_step_def known_scheduled_page Let_def)
  note total = encode_page_total [OF assms(2) this, where p = "tpms ws"]
  have len: "length (drop 1 ((junk_bytes e 8 ws)[0 := fst s])) = PAYLOAD_SIZE" by simp
  obtain payload where enc: "encode_page sdk (tpms ws) (fst s) (drop 1 ((junk_bytes e 8 ws)[0 := fst s])) = Some payload"
    and d: "\<And>q. decode_page sdk q (fst s) payload = Some (copy_page wire80 wire81 (fst s) (tpms ws) q)"
    using total [OF len len] by (metis option.inject)
  have "take 1 (bs[0 := b]) = [b]" if "length bs = 8" for bs and b :: u8
    using that by (cases bs) simp_all
  from this [of "junk_bytes e 8 ws" "fst s"]
  have msg: "sens_message_encode sdk (app_handlers e) (junk_bytes e 8 ws) ws = Some (fst s # payload,
      ws\<lparr>sens_cb := (sens_cb ws)\<lparr>message_counter := snd s\<rparr>, request_controller := rc\<rparr>)"
    using enc by (simp add: sens_message_encode_def n Let_def)
  let ?ack = "ant_request_controller_ack_needed sdk rc"
  let ?tx = "if fst ?ack then Ant_acknowledge_message_tx (channel_number (tpms ws)) (fst s # payload)
      else Ant_broadcast_message_tx (channel_number (tpms ws)) (fst s # payload)"
  let ?ws' = "ws\<lparr>sens_cb := (sens_cb ws)\<lparr>message_counter := snd s\<rparr>,
      request_controller := ant_request_controller_sens_evt_handler sdk (tx_event (channel_number (tpms ws))) (snd ?ack),
      calls := ?tx # calls ws\<rparr>"
  have step: "sensor_step sdk e (Slot d) ws = Some ?ws'"
    by (simp add: sensor_step_def ant_evt_handler_def ant_tpms_sens_evt_handler_def tx_event_def
        ant_message_send_def msg split_def Let_def)
  have "is_tx_of (channel_number (tpms ws)) (fst s # payload) ?tx" by (simp add: is_tx_of_def)
  then show thesis
    using assms(1) rc by (intro that [OF step _ _ _ _ _ _ d]) (simp_all add: quiet_link_def)
qed

lemma received_step:
  assumes "quiet_link sdk Q R" "request_controller ws \<in> Q" "R evt" "ae_event evt \<noteq> EVENT_TX"
  obtains ws' where "sensor_step sdk e (Received evt) ws = Some ws'" "request_controller ws' \<in> Q"
    "sens_cb ws' = sens_cb ws" "channel_number (tpms ws') = channel_number (tpms ws)"
proof -
  have q: "ant_request_controller_sens_evt_handler sdk evt (request_controller ws) \<in> Q"
    using assms(1-3) by (simp add: quiet_link_def)
  show thesis
  proof (cases "ae_channel evt = channel_number (tpms ws)")
    case False
    then have "sensor_step sdk e (Received evt) ws = Some ws"
      by (simp add: sensor_step_def ant_evt_handler_def ant_tpms_sens_evt_handler_def)
    then show ?thesis using assms(2) by (intro that) simp_all
  next
    case True
    let ?w1 = "if ae_event evt = EVENT_RX \<and> ae_mesg_id evt = MESG_ACKNOWLEDGED_DATA_ID
      then sens_message_decode (app_handlers e) (ae_payload evt) ws else ws"
    have f: "request_controller ?w1 = request_controller ws" "sens_cb ?w1 = sens_cb ws"
      "channel_number (tpms ?w1) = channel_number (tpms ws)"
      by (simp_all add: sens_message_decode_def app_handlers_def config_frame)
    have "sensor_step sdk e (Received evt) ws = Some (?w1\<lparr>request_controller :=
        ant_request_controller_sens_evt_handler sdk evt (request_controller ?w1)\<rparr>)"
      using True assms(4)
      by (cases "ae_event evt") (simp_all add: sensor_step_def ant_evt_handler_def ant_tpms_sens_evt_handler_def)
    then show ?thesis by (rule that) (simp_all add: f q)
  qed
qed

lemma deliver_copies:
  assumes "keeps_profile h" "is_tx_of ch (page # payload) tx"
    and "\<And>q. decode_page sdk q page payload = Some (copy_page wire80 wire81 page p q)"
  shows "tpms (deliver sdk h (tx # cs) wd) = copy_page wire80 wire81 page p (tpms wd)"
proof -
  have "tpms (disp_message_decode sdk h (page # payload) wd) = copy_page wire80 wire81 page p (tpms wd)"
    using assms(1,3) by (simp add: disp_message_decode_def keeps_profile_def)
  then show ?thesis
    using assms(2) by (auto simp: deliver_def rx_event_def ant_tpms_disp_evt_handler_def is_tx_of_def Let_def)
qed

lemma admissible_simps [simp]:
  "admissible R []" "admissible R (Slot d # evs) \<longleftrightarrow> admissible R evs"
  "admissible R (Readings r # evs) \<longleftrightarrow> admissible R evs"
  "admissible R (Received evt # evs) \<longleftrightarrow> R evt \<and> ae_event evt \<noteq> EVENT_TX \<and> admissible R evs"
  by (auto simp: admissible_def)

lemma copy_all_simps [simp]:
  "copy_all wire80 wire81 [] q = q"
  "copy_all wire80 wire81 ((page, p) # cs) q = copy_all wire80 wire81 cs (copy_page wire80 wire81 page p q)"
  "copy_all wire80 wire81 (cs @ cs') q = copy_all wire80 wire81 cs' (copy_all wire80 wire81 cs q)"
  by (simp_all add: copy_all_def)

lemma link_simulates:
  assumes "quiet_link sdk Q R" "sdk_pages sdk wire80 wire81" "keeps_profile h"
    and "request_controller ws \<in> Q" "admissible R evs"
  shows "\<exists>ws' wd'. link_run sdk e h evs ws wd = Some (ws', wd') \<and> request_controller ws' \<in> Q
    \<and> tpms wd' = copy_all wire80 wire81 (copies sdk e evs ws) (tpms wd)"
  using assms(4,5)
proof (induction evs arbitrary: ws wd)
  case (Cons ev evs)
  let ?s = "schedule_step (message_counter (sens_cb ws))"
  show ?case
  proof (cases ev)
    case (Slot d)
    obtain tx payload ws' where s: "sensor_step sdk e (Slot d) ws = Some ws'" "request_controller ws' \<in> Q"
      "calls ws' = tx # calls ws" "is_tx_of (channel_number (tpms ws)) (fst ?s # payload) tx"
      and d: "\<And>q. decode_page sdk q (fst ?s) payload = Some (copy_page wire80 wire81 (fst ?s) (tpms ws) q)"
      by (rule slot_step [OF assms(1,2) Cons.prems(1) refl, of e d]) blast
    have "tpms (deliver sdk h (calls ws') wd) = copy_page wire80 wire81 (fst ?s) (tpms ws) (tpms wd)"
      unfolding s(3) by (rule deliver_copies [OF assms(3) s(4) d])
    then show ?thesis
      using Cons.IH [OF s(2), of "if d then deliver sdk h (calls ws') wd else wd"] Cons.prems(2) s(1)
      by (cases d) (simp_all add: Slot)
  next
    case (Received evt)
    with Cons.prems(2) have "R evt" "ae_event evt \<noteq> EVENT_TX" "admissible R evs" by simp_all
    then obtain ws' where "sensor_step sdk e (Received evt) ws = Some ws'" "request_controller ws' \<in> Q"
      using received_step [OF assms(1) Cons.prems(1), of evt e] by blast
    then show ?thesis using Cons.IH [of ws' wd] \<open>admissible R evs\<close> by (simp add: Received)
  next
    case (Readings r)
    then show ?thesis
      using Cons.IH [of "ant_sensor_data_handler_cb e r ws" wd] Cons.prems
      by (simp add: sensor_step_def readings_frame)
  qed
qed simp

text \<open>
  Property C16: sensor and display together refine the abstract link. Whatever sequence of slots,
  losses, new readings and received messages takes place, as long as no page is requested, every
  step succeeds and the display's profile is its old one with, for every slot whose message
  arrived, the scheduled page copied from the sensor's profile of that moment.
\<close>

theorem link_refines_copies:
  assumes "quiet_link sdk Q R" "sdk_pages sdk wire80 wire81" "keeps_profile h"
    and "request_controller ws \<in> Q" "admissible R evs"
  shows "\<exists>ws' wd'. link_run sdk e h evs ws wd = Some (ws', wd')
    \<and> tpms wd' = copy_all wire80 wire81 (copies sdk e evs ws) (tpms wd)"
  using link_simulates [OF assms] by blast

subsection \<open>The display catches up\<close>

lemma link_run_append:
  "link_run sdk e h (evs @ evs') ws wd =
     (case link_run sdk e h evs ws wd of None \<Rightarrow> None | Some (ws1, wd1) \<Rightarrow> link_run sdk e h evs' ws1 wd1)"
  by (induction evs arbitrary: ws wd) (auto split: option.splits)

lemma slots_run:
  assumes "quiet_link sdk Q R" "sdk_pages sdk wire80 wire81" "keeps_profile h" "request_controller ws \<in> Q"
  shows "\<exists>ws' wd'. link_run sdk e h (replicate n (Slot True)) ws wd = Some (ws', wd') \<and> tpms ws' = tpms ws
    \<and> tpms wd' = copy_all wire80 wire81
        (map (\<lambda>page. (page, tpms ws)) (schedule_run n (message_counter (sens_cb ws)))) (tpms wd)"
  using assms(4)
proof (induction n arbitrary: ws wd)
  case (Suc n)
  let ?s = "schedule_step (message_counter (sens_cb ws))"
  obtain tx payload ws1 where s: "sensor_step sdk e (Slot True) ws = Some ws1" "request_controller ws1 \<in> Q"
    "tpms ws1 = tpms ws" "message_counter (sens_cb ws1) = snd ?s"
    "calls ws1 = tx # calls ws" "is_tx_of (channel_number (tpms ws)) (fst ?s # payload) tx"
    and d: "\<And>q. decode_page sdk q (fst ?s) payload = Some (copy_page wire80 wire81 (fst ?s) (tpms ws) q)"
    by (rule slot_step [OF assms(1,2) Suc.prems refl, of e True]) blast
  have c: "tpms (deliver sdk h (calls ws1) wd) = copy_page wire80 wire81 (fst ?s) (tpms ws) (tpms wd)"
    unfolding s(5) by (rule deliver_copies [OF assms(3) s(6) d])
  obtain ws' wd' where "link_run sdk e h (replicate n (Slot True)) ws1 (deliver sdk h (calls ws1) wd) = Some (ws', wd')"
    "tpms ws' = tpms ws1" "tpms wd' = copy_all wire80 wire81
        (map (\<lambda>page. (page, tpms ws1)) (schedule_run n (message_counter (sens_cb ws1)))) (tpms (deliver sdk h (calls ws1) wd))"
    using Suc.IH [OF s(2), of "deliver sdk h (calls ws1) wd"] by (elim exE conjE)
  then show ?case by (intro exI [of _ ws'] exI [of _ wd']) (simp add: s(1,3,4) c)
qed simp

text \<open>Copying pages from one profile: a page that was among them is the profile's, and stays.\<close>

lemma copy_all_fixed:
  "page_1 (copy_all wire80 wire81 (map (\<lambda>g. (g, p)) gs) q) = (if 1 \<in> set gs then page_1 p else page_1 q)"
  "page_80 (copy_all wire80 wire81 (map (\<lambda>g. (g, p)) gs) q) = (if 80 \<in> set gs then wire80 (page_80 p) else page_80 q)"
  "page_81 (copy_all wire80 wire81 (map (\<lambda>g. (g, p)) gs) q) = (if 81 \<in> set gs then wire81 (page_81 p) else page_81 q)"
  by (induction gs arbitrary: q; simp add: copy_page_def)+

lemma copy_all_fixed_82:
  "82 \<in> set gs \<or> page_82 q = page82_wire (page_82 p)
    \<Longrightarrow> page_82 (copy_all wire80 wire81 (map (\<lambda>g. (g, p)) gs) q) = page82_wire (page_82 p)"
  by (induction gs arbitrary: q) (auto simp: copy_page_def)

lemma page_1_within_four: "1 \<in> set (schedule_run 4 c)"
proof -
  obtain m where m: "c = of_nat m" "m < 256" by (rule counter_nat)
  have z: "snd (schedule_step (of_nat 119)) = of_nat 120" "snd (schedule_step (of_nat 120)) = of_nat 121"
    "snd (schedule_step (of_nat 121)) = of_nat 0" "fst (schedule_step (of_nat 0)) = 1"
    by (subst schedule_step_nat; simp)+
  show ?thesis
  proof (cases "m \<in> {119, 120, 121}")
    case True
    then show ?thesis using z by (auto simp: m numeral_eq_Suc simp del: of_nat_numeral of_nat_Suc)
  next
    case False
    then show ?thesis using m(2) by (simp add: m(1) numeral_eq_Suc schedule_step_nat)
  qed
qed

text \<open>
  Property C17: the display catches up. As long as no page is requested, then after any sequence of
  slots, losses, readings and received messages (none of them a request), four slots in a row that arrive bring pressure, alarms and role on the display to
  those of the sensor, and 256 bring its pages 80, 81 and 82 up to date too.
\<close>

theorem display_synchronises:
  assumes "quiet_link sdk Q R" "sdk_pages sdk wire80 wire81" "keeps_profile h"
    and "request_controller ws \<in> Q" "admissible R evs" "4 \<le> n"
  shows "\<exists>ws' wd'. link_run sdk e h (evs @ replicate n (Slot True)) ws wd = Some (ws', wd')
    \<and> page_1 (tpms wd') = page_1 (tpms ws')
    \<and> (256 \<le> n \<longrightarrow> page_80 (tpms wd') = wire80 (page_80 (tpms ws'))
        \<and> page_81 (tpms wd') = wire81 (page_81 (tpms ws'))
        \<and> page_82 (tpms wd') = page82_wire (page_82 (tpms ws')))"
proof -
  obtain ws1 wd1 where 1: "link_run sdk e h evs ws wd = Some (ws1, wd1)" "request_controller ws1 \<in> Q"
    using link_simulates [OF assms(1-5)] by blast
  let ?gs = "schedule_run n (message_counter (sens_cb ws1))"
  obtain ws' wd' where 2: "link_run sdk e h (replicate n (Slot True)) ws1 wd1 = Some (ws', wd')" "tpms ws' = tpms ws1"
    "tpms wd' = copy_all wire80 wire81 (map (\<lambda>page. (page, tpms ws1)) ?gs) (tpms wd1)"
    using slots_run [OF assms(1-3) 1(2)] by blast
  have "1 \<in> set ?gs" using page_1_within_four schedule_run_mono [OF assms(6)] by blast
  moreover have "80 \<in> set ?gs \<and> 81 \<in> set ?gs \<and> 82 \<in> set ?gs" if "256 \<le> n" using schedule_run_recurs [OF that] by blast
  ultimately show ?thesis
    by (intro exI [of _ ws'] exI [of _ wd']) (simp add: link_run_append 1(1) 2 copy_all_fixed copy_all_fixed_82)
qed

subsection \<open>What the display shows\<close>

lemma page_1_of_copies:
  "page_1 (copy_all wire80 wire81 cs q) \<in> insert (page_1 q) ((\<lambda>(g, p). page_1 p) ` set (filter (\<lambda>(g, p). g = 1) cs))"
proof (induction cs arbitrary: q)
  case (Cons c cs)
  obtain g p where c: "c = (g, p)" by fastforce
  show ?case using Cons.IH [of "copy_page wire80 wire81 g p q"] by (auto simp: c copy_page_def)
qed simp

text \<open>The profiles a sensor goes through.\<close>

fun profiles ::
  "('rc, 'p80, 'p81) ant_sdk \<Rightarrow> env \<Rightarrow> link_event list \<Rightarrow> ('rc, 'p80, 'p81, 'z) tpms_world_scheme
    \<Rightarrow> ('p80, 'p81) ant_tpms_profile list" where
  "profiles sdk e [] ws = [tpms ws]"
| "profiles sdk e (ev # evs) ws = tpms ws # (case sensor_step sdk e ev ws of None \<Rightarrow> [] | Some ws' \<Rightarrow> profiles sdk e evs ws')"

lemma copies_profiles: "(g, p) \<in> set (copies sdk e evs ws) \<Longrightarrow> p \<in> set (profiles sdk e evs ws)"
  by (induction evs arbitrary: ws) (auto split: if_splits option.splits)

text \<open>
  Property C34: the display never shows anything else than what the sensor had: whatever is lost,
  its pressure, alarms and role are together those of one page 1 of the sensor in the course of the
  run, or its own from before.
\<close>

theorem display_shows_sensor_data:
  assumes "quiet_link sdk Q R" "sdk_pages sdk wire80 wire81" "keeps_profile h"
    and "request_controller ws \<in> Q" "admissible R evs" "link_run sdk e h evs ws wd = Some (ws', wd')"
  shows "page_1 (tpms wd') = page_1 (tpms wd) \<or> (\<exists>p \<in> set (profiles sdk e evs ws). page_1 (tpms wd') = page_1 p)"
proof -
  have "tpms wd' = copy_all wire80 wire81 (copies sdk e evs ws) (tpms wd)"
    using link_simulates [OF assms(1-5), of e wd] assms(6) by auto
  then show ?thesis
    using page_1_of_copies [of wire80 wire81 "copies sdk e evs ws" "tpms wd"] copies_profiles by fastforce
qed

subsection \<open>Pairing\<close>

text \<open>
  The configuration macros of \<open>ant_tpms.h\<close> for both roles; the channel types are constants of the
  ANT SDK (\<open>CHANNEL_TYPE_SLAVE\<close>, \<open>CHANNEL_TYPE_MASTER\<close>).
\<close>

definition TPMS_DISP_CHANNEL_CONFIG_DEF :: "u8 \<Rightarrow> u8 \<Rightarrow> u8 \<Rightarrow> u16 \<Rightarrow> u8 \<Rightarrow> ant_channel_config" where
  "TPMS_DISP_CHANNEL_CONFIG_DEF channel_type_slave chan transmission device network =
     \<lparr>cfg_channel_number = chan, cfg_channel_type = channel_type_slave, cfg_ext_assign = TPMS_EXT_ASSIGN,
      cfg_rf_freq = TPMS_ANTPLUS_RF_FREQ, cfg_transmission_type = transmission, cfg_device_type = TPMS_DEVICE_TYPE,
      cfg_device_number = device, cfg_channel_period = TPMS_MSG_PERIOD, cfg_network_number = network\<rparr>"

definition TPMS_SENS_CHANNEL_CONFIG_DEF :: "u8 \<Rightarrow> u8 \<Rightarrow> u8 \<Rightarrow> u16 \<Rightarrow> u8 \<Rightarrow> ant_channel_config" where
  "TPMS_SENS_CHANNEL_CONFIG_DEF channel_type_master chan transmission device network =
     \<lparr>cfg_channel_number = chan, cfg_channel_type = channel_type_master, cfg_ext_assign = TPMS_EXT_ASSIGN,
      cfg_rf_freq = TPMS_ANTPLUS_RF_FREQ, cfg_transmission_type = transmission, cfg_device_type = TPMS_DEVICE_TYPE,
      cfg_device_number = device, cfg_channel_period = TPMS_MSG_PERIOD, cfg_network_number = network\<rparr>"

definition TPMS_DISP_PROFILE_CONFIG_DEF :: "fun_ptr \<Rightarrow> ant_tpms_disp_config" where
  "TPMS_DISP_PROFILE_CONFIG_DEF handler = \<lparr>disp_evt_handler = handler\<rparr>"

text \<open>The channel parameters two devices must share to hear each other.\<close>

definition radio_parameters :: "ant_channel_config \<Rightarrow> u8 \<times> u8 \<times> u8 \<times> u16 \<times> u16 \<times> u8" where
  "radio_parameters c = (cfg_rf_freq c, cfg_transmission_type c, cfg_device_type c, cfg_device_number c,
     cfg_channel_period c, cfg_network_number c)"

text \<open>The application writes its channel configuration out; it is the one the macro would give.\<close>

lemma sens_channel_config_macro:
  "sens_channel_config cfg device = TPMS_SENS_CHANNEL_CONFIG_DEF (CHANNEL_TYPE_MASTER cfg) 0 5 device 0"
  by (simp add: sens_channel_config_def TPMS_SENS_CHANNEL_CONFIG_DEF_def)

text \<open>
  A display initialised and opened with the macros, for the device number and
  transmission type of the application's sensor, has a channel with the sensor's radio parameters,
  its handler installed and all pages at their defaults, so the link starts from known pages.
\<close>

theorem display_starts:
  assumes "cfg = TPMS_DISP_CHANNEL_CONFIG_DEF slave chan 5 device 0"
    and "ant_tpms_disp_init sdk e cfg (TPMS_DISP_PROFILE_CONFIG_DEF handler) w = (rc, w1)"
    and "ant_tpms_disp_open e w1 = (rc', w2)"
  shows "calls w2 = Ant_channel_open chan # Ant_channel_init cfg # calls w
    \<and> radio_parameters cfg = radio_parameters (sens_channel_config app device)
    \<and> evt_handler (tpms w2) = handler \<and> cb (tpms w2) = P_disp_cb \<and> channel_number (tpms w2) = chan
    \<and> page_1 (tpms w2) = DEFAULT_ANT_TPMS_page1 \<and> page_16 (tpms w2) = DEFAULT_ANT_TPMS_page16
    \<and> page_80 (tpms w2) = DEFAULT_ANT_COMMON_page80 sdk \<and> page_81 (tpms w2) = DEFAULT_ANT_COMMON_page81 sdk
    \<and> page_82 (tpms w2) = DEFAULT_ANT_COMMON_page82
    \<and> request_controller w2 = ant_request_controller_init sdk (request_controller w)"
  using assms(2,3)
  by (auto simp: assms(1) ant_tpms_disp_init_def ant_tpms_init_def ant_tpms_disp_open_def invoke_def Let_def
      TPMS_DISP_PROFILE_CONFIG_DEF_def sens_channel_config_macro radio_parameters_def
      TPMS_DISP_CHANNEL_CONFIG_DEF_def TPMS_SENS_CHANNEL_CONFIG_DEF_def)

subsection \<open>Witnesses\<close>

definition no_request :: "ant_evt \<Rightarrow> bool" where
  "no_request evt \<longleftrightarrow> ae_payload evt ! 0 \<noteq> 70"

lemma demo_link:
  "quiet_link demo_sdk {None} no_request" "sdk_pages demo_sdk id id" "keeps_profile demo_handlers"
  "request_controller (demo_world c None) \<in> {None}"
  using demo_sdk_laws(2,3)
  by (simp_all add: quiet_link_def no_request_def tx_event_def keeps_profile_def demo_handlers_def demo_world_def)
    (simp add: demo_sdk_def)

definition role_command :: ant_evt where
  "role_command = \<lparr>ae_channel = 0, ae_event = EVENT_RX, ae_mesg_id = MESG_ACKNOWLEDGED_DATA_ID,
     ae_payload = [16, 0x12, 0xFF, 0xFF, 0xFF, 0xFF, 0xFF, 0xFF]\<rparr>"

definition demo_run :: "link_event list" where
  "demo_run = [Readings demo_readings, Slot False, Received role_command, Slot True]"

lemma demo_run_admissible: "admissible no_request demo_run"
  by (simp add: demo_run_def no_request_def role_command_def)

theorem link_refines_copies_witness:
  "\<exists>ws' wd'. link_run demo_sdk (uptime_env 5) demo_handlers demo_run (demo_world 119 None) (demo_world 0 None) = Some (ws', wd')
    \<and> tpms wd' = copy_all id id (copies demo_sdk (uptime_env 5) demo_run (demo_world 119 None)) demo_profile"
  using link_refines_copies [OF demo_link demo_run_admissible, of "uptime_env 5" 119 "demo_world 0 None"]
  by (simp add: demo_world_def)

theorem display_synchronises_witness:
  "\<exists>ws' wd'. link_run demo_sdk (uptime_env 5) demo_handlers (demo_run @ replicate 300 (Slot True)) (demo_world 119 None) (demo_world 0 None)
      = Some (ws', wd')
    \<and> page_1 (tpms wd') = page_1 (tpms ws') \<and> page_82 (tpms wd') = page82_wire (page_82 (tpms ws'))"
proof -
  have n: "4 \<le> (300 :: nat)" "256 \<le> (300 :: nat)" by simp_all
  obtain ws' wd' where "link_run demo_sdk (uptime_env 5) demo_handlers (demo_run @ replicate 300 (Slot True)) (demo_world 119 None) (demo_world 0 None)
      = Some (ws', wd')" "page_1 (tpms wd') = page_1 (tpms ws')"
    "256 \<le> (300 :: nat) \<longrightarrow> page_80 (tpms wd') = id (page_80 (tpms ws')) \<and> page_81 (tpms wd') = id (page_81 (tpms ws'))
      \<and> page_82 (tpms wd') = page82_wire (page_82 (tpms ws'))"
    using display_synchronises [OF demo_link demo_run_admissible n(1), of "uptime_env 5" 119 "demo_world 0 None"]
    by (elim exE conjE)
  then show ?thesis using n(2) by (intro exI [of _ ws'] exI [of _ wd']) simp
qed

theorem display_shows_sensor_data_witness:
  "\<exists>ws' wd'. link_run demo_sdk (uptime_env 5) demo_handlers demo_run (demo_world 119 None) (demo_world 0 None) = Some (ws', wd')
    \<and> (page_1 (tpms wd') = DEFAULT_ANT_TPMS_page1
       \<or> (\<exists>p \<in> set (profiles demo_sdk (uptime_env 5) demo_run (demo_world 119 None)). page_1 (tpms wd') = page_1 p))"
proof -
  obtain ws' wd' where r: "link_run demo_sdk (uptime_env 5) demo_handlers demo_run (demo_world 119 None) (demo_world 0 None) = Some (ws', wd')"
    using link_simulates [OF demo_link demo_run_admissible, of "uptime_env 5" 119 "demo_world 0 None"] by blast
  from display_shows_sensor_data [OF demo_link demo_run_admissible r] r show ?thesis
    by (auto simp: demo_world_def demo_profile_def)
qed

theorem display_starts_witness:
  "\<exists>rc w1 w2. ant_tpms_disp_init demo_sdk (uptime_env 5) (TPMS_DISP_CHANNEL_CONFIG_DEF 0 0 5 0x1234 0)
      (TPMS_DISP_PROFILE_CONFIG_DEF NULL) (demo_world 7 (Some 1)) = (rc, w1)
    \<and> page_1 (tpms (snd (ant_tpms_disp_open (uptime_env 5) w1))) = DEFAULT_ANT_TPMS_page1
    \<and> radio_parameters (TPMS_DISP_CHANNEL_CONFIG_DEF 0 0 5 0x1234 0) = radio_parameters (sens_channel_config demo_app 0x1234)"
proof -
  let ?cfg = "TPMS_DISP_CHANNEL_CONFIG_DEF 0 0 5 0x1234 0"
  obtain rc w1 where i: "ant_tpms_disp_init demo_sdk (uptime_env 5) ?cfg (TPMS_DISP_PROFILE_CONFIG_DEF NULL) (demo_world 7 (Some 1))
      = (rc, w1)" by fastforce
  obtain rc' w2 where o: "ant_tpms_disp_open (uptime_env 5) w1 = (rc', w2)" by fastforce
  show ?thesis using display_starts [OF refl i o, of demo_app] i o by (intro exI [of _ rc] exI [of _ w1]) simp
qed

end
