(* ===== verification/Preemption.thy ===== *)
theory Preemption
  imports Air_Link
begin

text \<open>
  The sensor data handler (\<open>ant_sensor_data_handler_cb\<close> of \<open>ant.c\<close>) store by store. The other
  theories run it in one step; here an event of the ANT stack may be handled between two of its
  stores, as it is if the stack's callback preempts the data channel's listener. The stores read
  the data pages as the source does, in the order the source writes them.
\<close>

subsection \<open>The stores of the handler\<close>

abbreviation upd_page_1 ::
  "(ant_tpms_page1_data \<Rightarrow> ant_tpms_page1_data)
    \<Rightarrow> ('rc, 'p80, 'p81, 'z) tpms_world_scheme \<Rightarrow> ('rc, 'p80, 'p81, 'z) tpms_world_scheme" where
  "upd_page_1 f w \<equiv> w\<lparr>tpms := (tpms w)\<lparr>page_1 := f (page_1 (tpms w))\<rparr>\<rparr>"

definition limits_set :: "ant_tpms_page16_data \<Rightarrow> bool" where
  "limits_set p \<longleftrightarrow> p16_alarm_low_pressure p \<noteq> 0xffff \<and> p16_alarm_high_pressure p \<noteq> 0xffff"

definition store_pressure where
  "store_pressure msg w = upd_page_1 (\<lambda>d. d\<lparr>p1_pressure := clamped_pressure
     (pressure_compensated (p16_ambient_pressure (page_16 (tpms w))) (pressure_hpa msg))\<rparr>) w"

text \<open>The branch is taken once, before the alarms are reset; the later stores belong to it.\<close>

definition store_alarm_baseline where
  "store_alarm_baseline both w =
     upd_page_1 (\<lambda>d. d\<lparr>p1_alarms := if both then ANT_TPMS_ALARM_ALL else ANT_TPMS_ALARM_NONE\<rparr>) w"

definition store_low_ok where
  "store_low_ok both w =
     (if both \<and> p16_alarm_low_pressure (page_16 (tpms w)) \<le> p1_pressure (page_1 (tpms w))
      then upd_page_1 (\<lambda>d. d\<lparr>p1_alarms := p1_alarms d OR ANT_TPMS_ALARM_LOW_OK\<rparr>) w else w)"

definition store_high_ok where
  "store_high_ok both w =
     (if both \<and> p1_pressure (page_1 (tpms w)) \<le> p16_alarm_high_pressure (page_16 (tpms w))
      then upd_page_1 (\<lambda>d. d\<lparr>p1_alarms := p1_alarms d OR ANT_TPMS_ALARM_HIGH_OK\<rparr>) w else w)"

definition store_battery where
  "store_battery e msg w =
     (let (now, w1) = k_uptime_seconds e w; r = retained_obj w1
      in w1\<lparr>tpms := (tpms w1)\<lparr>page_82 := (page_82 (tpms w1))
         \<lparr>operating_time := ucast (uptime_sum r + (ucast now - uptime_latest r)),
          battery_voltage_mv := ucast (voltage_mv msg),
          battery_status := battery_state_of (battery_level_percent (voltage_mv msg))\<rparr>\<rparr>\<rparr>)"

definition data_stores ::
  "env \<Rightarrow> sensor_readings \<Rightarrow> bool
    \<Rightarrow> (('rc, 'p80, 'p81, 'z) tpms_world_scheme \<Rightarrow> ('rc, 'p80, 'p81, 'z) tpms_world_scheme) list" where
  "data_stores e msg both =
     [store_pressure msg, store_alarm_baseline both, store_low_ok both, store_high_ok both, store_battery e msg]"

definition run_data_stores where
  "run_data_stores fs w = foldl (\<lambda>w f. f w) w fs"

lemma run_data_stores_simps [simp]:
  "run_data_stores [] w = w" "run_data_stores (f # fs) w = run_data_stores fs (f w)"
  by (simp_all add: run_data_stores_def)

text \<open>
  The stores of the handler, one after the other, are the handler: the alarms, which
  the source computes by reading the pressure back from the page, are those of the new pressure.
\<close>

theorem stores_refine_sensor_data:
  "run_data_stores (data_stores e msg (limits_set (page_16 (tpms w)))) w = ant_sensor_data_handler_cb e msg w"
  by (simp add: data_stores_def store_pressure_def store_alarm_baseline_def store_low_ok_def store_high_ok_def
      store_battery_def ant_sensor_data_handler_cb_def limits_set_def alarm_flags_def k_uptime_seconds_def split_def Let_def)

subsection \<open>A page read between two stores\<close>

text \<open>Page 1 after the first \<open>k\<close> stores, in terms of the old page and the handler's result.\<close>

lemma page_1_between:
  assumes "old = page_1 (tpms w)" "new = page_1 (tpms (ant_sensor_data_handler_cb e msg w))"
    and "both = limits_set (page_16 (tpms w))" "seen = page_1 (tpms (run_data_stores (take k (data_stores e msg both)) w))"
  shows "seen = (if k = 0 then old
    else if k = 1 then new\<lparr>p1_alarms := p1_alarms old\<rparr>
    else if k = 2 \<and> both then new\<lparr>p1_alarms := ANT_TPMS_ALARM_ALL\<rparr>
    else if k = 3 \<and> both then new\<lparr>p1_alarms := p1_alarms new AND ANT_TPMS_ALARM_LOW_OK\<rparr>
    else new)"
proof -
  consider "k = 0" | "k = 1" | "k = 2" | "k = 3" | "k = 4" | "5 \<le> k" by linarith
  then show ?thesis
    by cases (simp_all add: assms data_stores_def store_pressure_def store_alarm_baseline_def store_low_ok_def store_high_ok_def
      store_battery_def sensor_data_pages limits_set_def alarm_flags_def alarm_defs k_uptime_seconds_def split_def Let_def)
qed

text \<open>The stores after the first \<open>k\<close> do not care that the other state has changed meanwhile.\<close>

lemma stores_resume:
  assumes "tpms ws = tpms (run_data_stores (take k (data_stores e msg both)) w)" "both = limits_set (page_16 (tpms w))"
  shows "page_1 (tpms (run_data_stores (drop k (data_stores e msg both)) ws)) = page_1 (tpms (ant_sensor_data_handler_cb e msg w))"
proof -
  consider "k = 0" | "k = 1" | "k = 2" | "k = 3" | "k = 4" | "5 \<le> k" by linarith
  then show ?thesis
    using assms(1)
    by cases (simp_all add: assms(2) data_stores_def store_pressure_def store_alarm_baseline_def store_low_ok_def store_high_ok_def
      store_battery_def sensor_data_pages limits_set_def alarm_flags_def alarm_defs k_uptime_seconds_def split_def Let_def)
qed

lemma stores_frame:
  "request_controller (run_data_stores (take k (data_stores e msg both)) w) = request_controller w"
  "sens_cb (run_data_stores (take k (data_stores e msg both)) w) = sens_cb w"
proof -
  consider "k = 0" | "k = 1" | "k = 2" | "k = 3" | "k = 4" | "5 \<le> k" by linarith
  then show "request_controller (run_data_stores (take k (data_stores e msg both)) w) = request_controller w"
    "sens_cb (run_data_stores (take k (data_stores e msg both)) w) = sens_cb w"
    by (cases; simp add: data_stores_def store_pressure_def store_alarm_baseline_def store_low_ok_def store_high_ok_def
      store_battery_def k_uptime_seconds_def split_def Let_def)+
qed

lemma preempting_slot:
  assumes "quiet_link sdk Q R" "sdk_pages sdk wire80 wire81" "keeps_profile h" "request_controller w \<in> Q"
    and "fst (schedule_step (message_counter (sens_cb w))) = 1"
    and "w1 = run_data_stores (take k (data_stores e msg both)) w"
  obtains ws where "sensor_step sdk e (Slot True) w1 = Some ws" "tpms ws = tpms w1"
    "page_1 (tpms (deliver sdk h (calls ws) wd)) = page_1 (tpms w1)"
proof -
  have q: "request_controller w1 \<in> Q" and c: "fst (schedule_step (message_counter (sens_cb w1))) = 1"
    using assms(4,5) by (simp_all add: assms(6) stores_frame)
  obtain tx payload ws where s: "sensor_step sdk e (Slot True) w1 = Some ws" "tpms ws = tpms w1" "calls ws = tx # calls w1"
    "is_tx_of (channel_number (tpms w1)) (1 # payload) tx"
    and d: "\<And>q. decode_page sdk q 1 payload = Some (copy_page wire80 wire81 1 (tpms w1) q)"
    by (rule slot_step [OF assms(1,2) q refl, of e True]) (simp only: c)
  have "page_1 (tpms (deliver sdk h (calls ws) wd)) = page_1 (tpms w1)"
    unfolding s(3) deliver_copies [OF assms(3) s(4) d] by (simp add: copy_page_def)
  with s(1,2) show thesis by (rule that)
qed

text \<open>
  Property C33: a transmit slot between two stores of the handler does not disturb it, the page is
  the handler's in the end; but the message of that slot can carry a page that is neither the old
  nor the new one: the new pressure with the old alarms, with all alarms, or with the high alarm
  set though the new pressure keeps the limit.
\<close>

theorem preempting_slot_sees:
  assumes "quiet_link sdk Q R" "sdk_pages sdk wire80 wire81" "keeps_profile h" "request_controller w \<in> Q"
    and "fst (schedule_step (message_counter (sens_cb w))) = 1"
    and "old = page_1 (tpms w)" "new = page_1 (tpms (ant_sensor_data_handler_cb e msg w))"
    and "both = limits_set (page_16 (tpms w))"
  shows "\<exists>ws. sensor_step sdk e (Slot True) (run_data_stores (take k (data_stores e msg both)) w) = Some ws
    \<and> page_1 (tpms (run_data_stores (drop k (data_stores e msg both)) ws)) = new
    \<and> page_1 (tpms (deliver sdk h (calls ws) wd)) =
       (if k = 0 then old
        else if k = 1 then new\<lparr>p1_alarms := p1_alarms old\<rparr>
        else if k = 2 \<and> both then new\<lparr>p1_alarms := ANT_TPMS_ALARM_ALL\<rparr>
        else if k = 3 \<and> both then new\<lparr>p1_alarms := p1_alarms new AND ANT_TPMS_ALARM_LOW_OK\<rparr>
        else new)"
proof -
  obtain ws where "sensor_step sdk e (Slot True) (run_data_stores (take k (data_stores e msg both)) w) = Some ws"
    and t: "tpms ws = tpms (run_data_stores (take k (data_stores e msg both)) w)"
    and "page_1 (tpms (deliver sdk h (calls ws) wd)) = page_1 (tpms (run_data_stores (take k (data_stores e msg both)) w))"
    by (rule preempting_slot [OF assms(1-5) refl, of e k msg both wd])
  then show ?thesis
    using stores_resume [OF t assms(8)] page_1_between [OF assms(6-8) refl, of k] assms(7) by auto
qed

subsection \<open>Witness\<close>

text \<open>
  A tyre at 2.5 bar between limits of 2 and 3 bar, before and after the reading; the slot after the
  second store reports both alarms.
\<close>

definition calm_world :: "(u8 option, unit, unit) tpms_world" where
  "calm_world = (demo_world 0 None)\<lparr>tpms := demo_profile
     \<lparr>page_1 := \<lparr>p1_role = 1, p1_alarms = ANT_TPMS_ALARM_NONE, p1_pressure = 2500\<rparr>,
      page_16 := DEFAULT_ANT_TPMS_page16\<lparr>p16_ambient_pressure := 1013, p16_alarm_low_pressure := 2000, p16_alarm_high_pressure := 3000\<rparr>\<rparr>\<rparr>"

theorem preempting_slot_sees_witness:
  "\<exists>ws. sensor_step demo_sdk (uptime_env 5) (Slot True)
      (run_data_stores (take 2 (data_stores (uptime_env 5) demo_readings True)) calm_world) = Some ws
    \<and> p1_alarms (page_1 (tpms (deliver demo_sdk demo_handlers (calls ws) (demo_world 0 None)))) = ANT_TPMS_ALARM_ALL
    \<and> p1_alarms (page_1 (tpms (ant_sensor_data_handler_cb (uptime_env 5) demo_readings calm_world))) = ANT_TPMS_ALARM_NONE"
proof -
  have w: "request_controller calm_world \<in> {None}" "message_counter (sens_cb calm_world) = of_nat 0"
    "True = limits_set (page_16 (tpms calm_world))"
    by (simp_all add: calm_world_def demo_world_def limits_set_def)
  have c: "fst (schedule_step (message_counter (sens_cb calm_world))) = 1"
    unfolding w(2) by (subst schedule_step_nat) simp_all
  have n: "p1_alarms (page_1 (tpms (ant_sensor_data_handler_cb (uptime_env 5) demo_readings calm_world))) = ANT_TPMS_ALARM_NONE"
    by (simp add: sensor_data_pages calm_world_def demo_readings_def pressure_compensated_def clamped_pressure_def
        alarm_flags_def alarm_defs ANT_TPMS_AMBIENT_DEFAULT_def Let_def)
  obtain ws where "sensor_step demo_sdk (uptime_env 5) (Slot True)
      (run_data_stores (take 2 (data_stores (uptime_env 5) demo_readings True)) calm_world) = Some ws"
    "page_1 (tpms (deliver demo_sdk demo_handlers (calls ws) (demo_world 0 None)))
      = (page_1 (tpms (ant_sensor_data_handler_cb (uptime_env 5) demo_readings calm_world)))\<lparr>p1_alarms := ANT_TPMS_ALARM_ALL\<rparr>"
    using preempting_slot_sees [OF demo_link(1-3) w(1) c refl refl w(3), of "uptime_env 5" 2 demo_readings "demo_world 0 None"]
    by auto
  then show ?thesis using n by (intro exI [of _ ws]) simp
qed

end
