(* ===== verification/Simulator.thy ===== *)
theory Simulator
  imports Ant_Tpms
begin

text \<open>
  The TPMS simulator (\<open>ant_tpms_simulator.c\<close> and its headers): a stand-in for the sensor that feeds
  a profile with pressures from the SDK's sensor simulator. That simulator is a parameter
  \<open>sensorsim\<close>. So are the two profile members the source writes by the names
  \<open>TPMS_PROFILE_update_event_count\<close> and \<open>TPMS_PROFILE_pressure\<close>, which no file of the repository
  defines: the profile is of any type \<open>'p\<close>, with the two assignments as functions \<open>profile_ops\<close>.
\<close>

subsection \<open>The SDK's sensor simulator\<close>

record sensorsim_cfg =
  sim_min :: u32
  sim_max :: u32
  sim_incr :: u32
  start_at_max :: bool

record 'st sensorsim =
  sensorsim_init :: "'st \<Rightarrow> sensorsim_cfg \<Rightarrow> 'st"
  sensorsim_measure :: "'st \<Rightarrow> sensorsim_cfg \<Rightarrow> 'st"
  sensorsim_increment :: "'st \<Rightarrow> sensorsim_cfg \<Rightarrow> 'st"
  sensorsim_decrement :: "'st \<Rightarrow> sensorsim_cfg \<Rightarrow> 'st"
  current_val :: "'st \<Rightarrow> u32"

record 'p profile_ops =
  incr_update_event_count :: "'p \<Rightarrow> 'p"
  set_pressure :: "u32 \<Rightarrow> 'p \<Rightarrow> 'p"

subsection \<open>The simulator\<close>

definition PRESSURE_MIN :: u32 where "PRESSURE_MIN = 1000"
definition PRESSURE_MAX :: u32 where "PRESSURE_MAX = 5000"
definition PRESSURE_INCR :: u32 where "PRESSURE_INCR = 100"

record 'st ant_tpms_simulator_cb =
  auto_change :: bool
  pressure_sensorsim_state :: 'st
  pressure_sensorsim_cfg :: sensorsim_cfg

text \<open>The simulator with the profile it points to.\<close>

record ('st, 'p) ant_tpms_simulator =
  p_profile :: 'p
  sim_cb :: "'st ant_tpms_simulator_cb"

definition ant_tpms_simulator_init ::
  "'st sensorsim \<Rightarrow> 'p \<Rightarrow> bool \<Rightarrow> ('st, 'p) ant_tpms_simulator \<Rightarrow> ('st, 'p) ant_tpms_simulator" where
  "ant_tpms_simulator_init ss profile auto sim =
     (let cfg = (pressure_sensorsim_cfg (sim_cb sim))
            \<lparr>sim_min := PRESSURE_MIN, sim_max := PRESSURE_MAX, sim_incr := PRESSURE_INCR, start_at_max := False\<rparr>
      in sim\<lparr>p_profile := profile,
             sim_cb := (sim_cb sim)
               \<lparr>auto_change := auto,
                pressure_sensorsim_state := sensorsim_init ss (pressure_sensorsim_state (sim_cb sim)) cfg,
                pressure_sensorsim_cfg := cfg\<rparr>\<rparr>)"

text \<open>The three calls into the SDK, on the state in the control block.\<close>

definition with_sensorsim ::
  "('st \<Rightarrow> sensorsim_cfg \<Rightarrow> 'st) \<Rightarrow> ('st, 'p) ant_tpms_simulator \<Rightarrow> ('st, 'p) ant_tpms_simulator" where
  "with_sensorsim f sim = sim\<lparr>sim_cb := (sim_cb sim)
     \<lparr>pressure_sensorsim_state := f (pressure_sensorsim_state (sim_cb sim)) (pressure_sensorsim_cfg (sim_cb sim))\<rparr>\<rparr>"

definition ant_tpms_simulator_one_iteration ::
  "'st sensorsim \<Rightarrow> 'p profile_ops \<Rightarrow> u8 \<Rightarrow> ('st, 'p) ant_tpms_simulator \<Rightarrow> ('st, 'p) ant_tpms_simulator" where
  "ant_tpms_simulator_one_iteration ss po event sim =
     (if event = ANT_TPMS_PAGE_1
      then let sim1 = (if auto_change (sim_cb sim) then with_sensorsim (sensorsim_measure ss) sim else sim)
           in sim1\<lparr>p_profile := set_pressure po (current_val ss (pressure_sensorsim_state (sim_cb sim1)))
                (incr_update_event_count po (p_profile sim1))\<rparr>
      else sim)"

definition ant_tpms_simulator_increment ::
  "'st sensorsim \<Rightarrow> ('st, 'p) ant_tpms_simulator \<Rightarrow> ('st, 'p) ant_tpms_simulator" where
  "ant_tpms_simulator_increment ss sim =
     (if \<not> auto_change (sim_cb sim) then with_sensorsim (sensorsim_increment ss) sim else sim)"

definition ant_tpms_simulator_decrement ::
  "'st sensorsim \<Rightarrow> ('st, 'p) ant_tpms_simulator \<Rightarrow> ('st, 'p) ant_tpms_simulator" where
  "ant_tpms_simulator_decrement ss sim =
     (if \<not> auto_change (sim_cb sim) then with_sensorsim (sensorsim_decrement ss) sim else sim)"

subsection \<open>Runs\<close>

datatype sim_op = Iteration u8 | Increment | Decrement

fun sim_step ::
  "'st sensorsim \<Rightarrow> 'p profile_ops \<Rightarrow> sim_op \<Rightarrow> ('st, 'p) ant_tpms_simulator \<Rightarrow> ('st, 'p) ant_tpms_simulator" where
  "sim_step ss po (Iteration event) sim = ant_tpms_simulator_one_iteration ss po event sim"
| "sim_step ss po Increment sim = ant_tpms_simulator_increment ss sim"
| "sim_step ss po Decrement sim = ant_tpms_simulator_decrement ss sim"

definition sim_run where
  "sim_run ss po ops sim = fold (sim_step ss po) ops sim"

text \<open>The reference: which operations move the simulated pressure, by mode, and how.\<close>

fun moves :: "'st sensorsim \<Rightarrow> bool \<Rightarrow> sim_op \<Rightarrow> ('st \<Rightarrow> sensorsim_cfg \<Rightarrow> 'st) option" where
  "moves ss auto (Iteration event) = (if auto \<and> event = ANT_TPMS_PAGE_1 then Some (sensorsim_measure ss) else None)"
| "moves ss auto Increment = (if auto then None else Some (sensorsim_increment ss))"
| "moves ss auto Decrement = (if auto then None else Some (sensorsim_decrement ss))"

definition apply_moves :: "'st sensorsim \<Rightarrow> bool \<Rightarrow> sensorsim_cfg \<Rightarrow> sim_op list \<Rightarrow> 'st \<Rightarrow> 'st" where
  "apply_moves ss auto cfg ops st = fold (\<lambda>f st. f st cfg) (List.map_filter (moves ss auto) ops) st"

lemma sim_step_frame [simp]:
  "auto_change (sim_cb (sim_step ss po x sim)) = auto_change (sim_cb sim)"
  "pressure_sensorsim_cfg (sim_cb (sim_step ss po x sim)) = pressure_sensorsim_cfg (sim_cb sim)"
  by (cases x; simp add: ant_tpms_simulator_one_iteration_def ant_tpms_simulator_increment_def
      ant_tpms_simulator_decrement_def with_sensorsim_def Let_def)+

lemma sim_step_moves:
  "pressure_sensorsim_state (sim_cb (sim_step ss po x sim)) =
     (case moves ss (auto_change (sim_cb sim)) x of
        None \<Rightarrow> pressure_sensorsim_state (sim_cb sim)
      | Some f \<Rightarrow> f (pressure_sensorsim_state (sim_cb sim)) (pressure_sensorsim_cfg (sim_cb sim)))"
  by (cases x) (simp_all add: ant_tpms_simulator_one_iteration_def ant_tpms_simulator_increment_def
      ant_tpms_simulator_decrement_def with_sensorsim_def Let_def)

lemma sim_run_frame:
  "auto_change (sim_cb (sim_run ss po ops sim)) = auto_change (sim_cb sim)"
  "pressure_sensorsim_cfg (sim_cb (sim_run ss po ops sim)) = pressure_sensorsim_cfg (sim_cb sim)"
  unfolding sim_run_def by (induction ops arbitrary: sim) simp_all

lemma sim_run_moves:
  "pressure_sensorsim_state (sim_cb (sim_run ss po ops sim))
    = apply_moves ss (auto_change (sim_cb sim)) (pressure_sensorsim_cfg (sim_cb sim)) ops (pressure_sensorsim_state (sim_cb sim))"
  by (induction ops arbitrary: sim)
    (simp_all add: sim_run_def apply_moves_def map_filter_simps sim_step_moves split: option.splits)

text \<open>
  Property C40: the two modes exclude each other. An automatic simulator moves the pressure at the
  page 1 events and only there, increments and decrements do nothing; a manual one moves it by
  increments and decrements only, the events leave it.
\<close>

theorem simulator_modes:
  "sim = ant_tpms_simulator_init ss profile auto sim0
    \<Longrightarrow> pressure_sensorsim_state (sim_cb (sim_run ss po ops sim))
      = (if auto
         then fold (\<lambda>_ st. sensorsim_measure ss st (pressure_sensorsim_cfg (sim_cb sim)))
           (filter (\<lambda>x. x = Iteration ANT_TPMS_PAGE_1) ops) (pressure_sensorsim_state (sim_cb sim))
         else fold (\<lambda>x st. (if x = Increment then sensorsim_increment ss else sensorsim_decrement ss)
             st (pressure_sensorsim_cfg (sim_cb sim)))
           (filter (\<lambda>x. x \<in> {Increment, Decrement}) ops) (pressure_sensorsim_state (sim_cb sim)))"
proof -
  assume s: "sim = ant_tpms_simulator_init ss profile auto sim0"
  have a: "auto_change (sim_cb sim) = auto" by (simp add: s ant_tpms_simulator_init_def Let_def)
  have "apply_moves ss auto cfg ops st = (if auto
      then fold (\<lambda>_ st. sensorsim_measure ss st cfg) (filter (\<lambda>x. x = Iteration ANT_TPMS_PAGE_1) ops) st
      else fold (\<lambda>x st. (if x = Increment then sensorsim_increment ss else sensorsim_decrement ss) st cfg)
        (filter (\<lambda>x. x \<in> {Increment, Decrement}) ops) st)" for cfg st
  proof (induction ops arbitrary: st)
    case (Cons x ops)
    then show ?case by (cases x; cases auto) (auto simp: apply_moves_def map_filter_simps)
  qed (simp add: apply_moves_def map_filter_simps)
  then show ?thesis by (simp add: sim_run_moves a)
qed

text \<open>
  What the simulator relies on of the SDK: with the bounds in order, its operations keep the value
  within the bounds, and the initialisation puts it there.
\<close>

definition within :: "'st sensorsim \<Rightarrow> sensorsim_cfg \<Rightarrow> 'st \<Rightarrow> bool" where
  "within ss cfg st \<longleftrightarrow> sim_min cfg \<le> current_val ss st \<and> current_val ss st \<le> sim_max cfg"

definition bounded :: "'st sensorsim \<Rightarrow> bool" where
  "bounded ss \<longleftrightarrow> (\<forall>cfg st. sim_min cfg \<le> sim_max cfg \<longrightarrow>
     within ss cfg (sensorsim_init ss st cfg)
     \<and> (within ss cfg st \<longrightarrow> within ss cfg (sensorsim_measure ss st cfg)
        \<and> within ss cfg (sensorsim_increment ss st cfg) \<and> within ss cfg (sensorsim_decrement ss st cfg)))"

text \<open>The invariant of a run: the bounds stay, the value is between them, and the profile has it.\<close>

definition sim_inv :: "'st sensorsim \<Rightarrow> (u32 \<Rightarrow> 'p \<Rightarrow> bool) \<Rightarrow> ('st, 'p) ant_tpms_simulator \<Rightarrow> bool" where
  "sim_inv ss shows_pressure sim \<longleftrightarrow>
     sim_min (pressure_sensorsim_cfg (sim_cb sim)) = 1000 \<and> sim_max (pressure_sensorsim_cfg (sim_cb sim)) = 5000
     \<and> within ss (pressure_sensorsim_cfg (sim_cb sim)) (pressure_sensorsim_state (sim_cb sim))
     \<and> (\<exists>v. 1000 \<le> v \<and> v \<le> 5000 \<and> shows_pressure v (p_profile sim))"

lemma sim_inv_moved:
  assumes "bounded ss" "sim_inv ss P sim"
    and "cfg = pressure_sensorsim_cfg (sim_cb sim)" "st = pressure_sensorsim_state (sim_cb sim)"
  shows "within ss cfg (sensorsim_measure ss st cfg)" "within ss cfg (sensorsim_increment ss st cfg)"
    "within ss cfg (sensorsim_decrement ss st cfg)" "within ss cfg st" "sim_min cfg = 1000" "sim_max cfg = 5000"
  using assms by (simp_all add: bounded_def sim_inv_def)

lemma sim_inv_iteration:
  assumes "bounded ss" "\<forall>v p. shows_pressure v (set_pressure po v p)" "sim_inv ss P sim"
  shows "sim_inv ss shows_pressure (ant_tpms_simulator_one_iteration ss po ANT_TPMS_PAGE_1 sim)"
proof -
  note i = sim_inv_moved [OF assms(1,3) refl refl]
  have "\<exists>v. 1000 \<le> v \<and> v \<le> 5000 \<and> shows_pressure v (set_pressure po (current_val ss st) q)"
    if "within ss (pressure_sensorsim_cfg (sim_cb sim)) st" for st q
    using that i(5,6) assms(2) by (auto simp: within_def)
  then show ?thesis
    by (simp add: sim_inv_def i ant_tpms_simulator_one_iteration_def with_sensorsim_def Let_def)
qed

lemma sim_inv_step:
  assumes "bounded ss" "\<forall>v p. shows_pressure v (set_pressure po v p)" "sim_inv ss shows_pressure sim"
  shows "sim_inv ss shows_pressure (sim_step ss po x sim)"
proof (cases x)
  case (Iteration event)
  then show ?thesis
    using sim_inv_iteration [OF assms] assms(3)
    by (cases "event = ANT_TPMS_PAGE_1") (simp_all add: ant_tpms_simulator_one_iteration_def)
next
  case Increment
  then show ?thesis
    using sim_inv_moved [OF assms(1,3) refl refl] assms(3)
    by (simp add: sim_inv_def ant_tpms_simulator_increment_def with_sensorsim_def)
next
  case Decrement
  then show ?thesis
    using sim_inv_moved [OF assms(1,3) refl refl] assms(3)
    by (simp add: sim_inv_def ant_tpms_simulator_decrement_def with_sensorsim_def)
qed

lemma sim_inv_run:
  assumes "bounded ss" "\<forall>v p. shows_pressure v (set_pressure po v p)" "sim_inv ss shows_pressure sim"
  shows "sim_inv ss shows_pressure (sim_run ss po ops sim)"
  using assms(3) unfolding sim_run_def by (induction ops arbitrary: sim) (simp_all add: sim_inv_step assms(1,2))

text \<open>
  Whatever operations follow the initialisation, in either mode, once a page 1 event
  has occurred the pressure in the profile is between 1000 and 5000 hPa.
\<close>

theorem simulated_pressure_bounded:
  assumes "bounded ss" "\<forall>v p. shows_pressure v (set_pressure po v p)"
    and "sim = ant_tpms_simulator_init ss profile auto sim0"
  shows "\<exists>v. 1000 \<le> v \<and> v \<le> 5000
    \<and> shows_pressure v (p_profile (sim_run ss po (ops @ Iteration ANT_TPMS_PAGE_1 # ops') sim))"
proof -
  have "sim_inv ss (\<lambda>_ _. True) sim"
    using assms(1) by (auto simp: sim_inv_def assms(3) ant_tpms_simulator_init_def PRESSURE_MIN_def PRESSURE_MAX_def
        bounded_def Let_def intro!: exI [of _ 1000])
  then have "sim_inv ss (\<lambda>_ _. True) (sim_run ss po ops sim)" by (intro sim_inv_run [OF assms(1)]) simp_all
  from sim_inv_iteration [OF assms(1,2) this]
  have "sim_inv ss shows_pressure (sim_run ss po ops' (ant_tpms_simulator_one_iteration ss po ANT_TPMS_PAGE_1
      (sim_run ss po ops sim)))"
    by (rule sim_inv_run [OF assms(1,2)])
  then show ?thesis by (simp add: sim_inv_def sim_run_def)
qed

subsection \<open>Witnesses\<close>

text \<open>A sensor simulator that stops at its bounds; its state is the value.\<close>

definition demo_sensorsim :: "u32 sensorsim" where
  "demo_sensorsim =
     \<lparr>sensorsim_init = \<lambda>_ cfg. if start_at_max cfg then sim_max cfg else sim_min cfg,
      sensorsim_measure = \<lambda>v cfg. if v + sim_incr cfg \<le> sim_max cfg \<and> v \<le> v + sim_incr cfg then v + sim_incr cfg else sim_min cfg,
      sensorsim_increment = \<lambda>v cfg. if v + sim_incr cfg \<le> sim_max cfg \<and> v \<le> v + sim_incr cfg then v + sim_incr cfg else sim_max cfg,
      sensorsim_decrement = \<lambda>v cfg. if sim_min cfg \<le> v - sim_incr cfg \<and> v - sim_incr cfg \<le> v then v - sim_incr cfg else sim_min cfg,
      current_val = \<lambda>v. v\<rparr>"

lemma demo_sensorsim_bounded: "bounded demo_sensorsim"
  by (auto simp: bounded_def within_def demo_sensorsim_def intro: order_trans)

text \<open>A profile that is a pressure and a count.\<close>

definition demo_profile_ops :: "(u32 \<times> nat) profile_ops" where
  "demo_profile_ops = \<lparr>incr_update_event_count = \<lambda>(v, n). (v, Suc n), set_pressure = \<lambda>v (_, n). (v, n)\<rparr>"

definition demo_simulator :: "bool \<Rightarrow> (u32, u32 \<times> nat) ant_tpms_simulator" where
  "demo_simulator auto = ant_tpms_simulator_init demo_sensorsim (0, 0) auto
     \<lparr>p_profile = (0, 0), sim_cb = \<lparr>auto_change = False, pressure_sensorsim_state = 0,
       pressure_sensorsim_cfg = \<lparr>sim_min = 0, sim_max = 0, sim_incr = 0, start_at_max = True\<rparr>\<rparr>\<rparr>"

theorem simulator_modes_witness:
  "pressure_sensorsim_state (sim_cb (sim_run demo_sensorsim demo_profile_ops
       [Iteration 1, Increment, Iteration 82, Iteration 1] (demo_simulator True))) = 1200"
  unfolding simulator_modes [OF demo_simulator_def]
  by (simp add: demo_simulator_def ant_tpms_simulator_init_def demo_sensorsim_def
      PRESSURE_MIN_def PRESSURE_MAX_def PRESSURE_INCR_def Let_def)

theorem simulated_pressure_bounded_witness:
  "\<exists>v. 1000 \<le> v \<and> v \<le> 5000 \<and> fst (p_profile (sim_run demo_sensorsim demo_profile_ops
       ([Increment, Decrement] @ Iteration ANT_TPMS_PAGE_1 # [Decrement]) (demo_simulator False))) = v"
  by (rule simulated_pressure_bounded [OF demo_sensorsim_bounded _ demo_simulator_def, of "\<lambda>v p. fst p = v"])
    (simp add: demo_profile_ops_def split_def)

end
