(* ===== verification/Page_Log.thy ===== *)
theory Page_Log
  imports Common_Page_82
begin

text \<open>
  What the data pages write to the log when they are encoded or decoded (\<open>page1_data_log\<close>,
  \<open>page16_data_log\<close>, \<open>page82_data_log\<close>). The log of a call is the list of its entries; the Zephyr
  macro \<open>LOG_INF\<close> keeps an entry only if the level of the module admits it.
\<close>

subsection \<open>Log entries\<close>

datatype log_level = LOG_LEVEL_NONE | LOG_LEVEL_ERR | LOG_LEVEL_WRN | LOG_LEVEL_INF | LOG_LEVEL_DBG

fun log_level_value :: "log_level \<Rightarrow> nat" where
  "log_level_value LOG_LEVEL_NONE = 0"
| "log_level_value LOG_LEVEL_ERR = 1"
| "log_level_value LOG_LEVEL_WRN = 2"
| "log_level_value LOG_LEVEL_INF = 3"
| "log_level_value LOG_LEVEL_DBG = 4"

datatype log_arg = Log_uint int | Log_string string

record log_entry =
  entry_level :: log_level
  entry_format :: string
  entry_args :: "log_arg list"

definition LOG_INF :: "string \<Rightarrow> log_arg list \<Rightarrow> log_entry" where
  "LOG_INF fmt args = \<lparr>entry_level = LOG_LEVEL_INF, entry_format = fmt, entry_args = args\<rparr>"

definition emitted :: "log_level \<Rightarrow> log_entry list \<Rightarrow> log_entry list" where
  "emitted level es = filter (\<lambda>x. log_level_value (entry_level x) \<le> log_level_value level) es"

subsection \<open>The pages\<close>

text \<open>The levels the three modules are registered with.\<close>

definition page_1_log_level :: log_level where "page_1_log_level = LOG_LEVEL_WRN"
definition page_16_log_level :: log_level where "page_16_log_level = LOG_LEVEL_WRN"
definition page_82_log_level :: log_level where "page_82_log_level = LOG_LEVEL_WRN"

definition page1_data_log :: "ant_tpms_page1_data \<Rightarrow> log_entry list" where
  "page1_data_log d =
     [LOG_INF ''Role: %#x; Alarms: %#x; Pressure [hPa]: %u''
        [Log_uint (uint (p1_role d)), Log_uint (uint (p1_alarms d)), Log_uint (uint (p1_pressure d))]]"

definition page16_data_log :: "ant_tpms_page16_data \<Rightarrow> log_entry list" where
  "page16_data_log d =
     [LOG_INF ''Command: %#x; Role: %#x; Ambient comp. [hPa]: %u; Alarm Thres. [hPa] [%u, %u]''
        [Log_uint (uint (p16_command d)), Log_uint (uint (p16_role d)), Log_uint (uint (p16_ambient_pressure d)),
         Log_uint (uint (p16_alarm_low_pressure d)), Log_uint (uint (p16_alarm_high_pressure d))]]"

definition page82_data_log :: "ant_common_page82_data \<Rightarrow> log_entry list" where
  "page82_data_log d =
     (if battery_count d AND 0xF AND battery_id d = 0xF
      then [LOG_INF ''Battery count: %s'' [Log_string ''unused''], LOG_INF ''Battery ID: %s'' [Log_string ''unused'']]
      else [LOG_INF ''Battery count: %u'' [Log_uint (uint (battery_count d))],
            LOG_INF ''Battery ID: %u'' [Log_uint (uint (battery_id d))]])
     @ [LOG_INF ''Operating time: %u'' [Log_uint (uint (operating_time d))]]
     @ (if battery_status d \<noteq> BATTERY_STATE_INVALID
        then [LOG_INF ''Battery Voltage [mV]: %u'' [Log_uint (uint (battery_voltage_mv d))]] else [])
     @ [LOG_INF ''Battery Status: %u (%s)'' [Log_uint (uint (battery_state_code (battery_status d))),
          Log_string (get_ant_common_page_82_battery_status_string (battery_status d))]]"

lemma emitted_append [simp]: "emitted l (xs @ ys) = emitted l xs @ emitted l ys"
  by (simp add: emitted_def)

lemma emitted_LOG_INF [simp]: "emitted LOG_LEVEL_WRN (LOG_INF f as # es) = emitted LOG_LEVEL_WRN es"
  "emitted l [] = []"
  by (simp_all add: emitted_def LOG_INF_def)

text \<open>
  As the three page modules are registered, at warning level, encoding and decoding
  pages writes nothing at all to the log; the status string never reads past its table.
\<close>

theorem page_logs_silent:
  "emitted page_1_log_level (page1_data_log d1) = []
    \<and> emitted page_16_log_level (page16_data_log d16) = []
    \<and> emitted page_82_log_level (page82_data_log d82) = []
    \<and> unat (battery_state_code (battery_status d82)) < length ant_common_page_82_battery_status_strings"
  using battery_state_code_lt [of "battery_status d82"]
  by (auto simp: page_1_log_level_def page_16_log_level_def page_82_log_level_def page1_data_log_def page16_data_log_def
      page82_data_log_def ant_common_page_82_battery_status_strings_def)

definition unused_line :: log_entry where
  "unused_line = LOG_INF ''Battery count: %s'' [Log_string ''unused'']"

lemma unused_logged:
  "unused_line \<in> set (page82_data_log d) \<longleftrightarrow> battery_count d AND 0xF = 0xF \<and> battery_id d AND 0xF = 0xF"
proof -
  have "c AND 0xF AND i = 0xF \<longleftrightarrow> c AND 0xF = 0xF \<and> i AND 0xF = 0xF" for c i :: u8
  proof -
    have m: "(0xF :: u8) = mask 4" by (simp add: mask_eq_exp_minus_1)
    show ?thesis unfolding m bit_eq_iff by (auto simp: bit_simps)
  qed
  then show ?thesis by (auto simp: page82_data_log_def unused_line_def LOG_INF_def)
qed

text \<open>
  Were they printed, the lines of sensor and display would agree about one
  transmission of page 82: both call the battery unused in the same cases, both leave the voltage
  out in the same cases, and the line with the battery state is the same.
\<close>

theorem page_82_logs_agree:
  assumes "length buf = PAYLOAD_SIZE"
    and "sent = page82_data_log d"
    and "received = page82_data_log (ant_common_page_82_decode (ant_common_page_82_encode buf d) d0)"
  shows "(unused_line \<in> set received \<longleftrightarrow> unused_line \<in> set sent)
    \<and> length received = length sent \<and> last received = last sent"
proof -
  have r: "received = page82_data_log (page82_wire d)"
    using page82.decode_encode [OF assms(1)] assms(3) by simp
  have "x AND 0xF AND 0xF = x AND 0xF" for x :: u8 by (simp add: and.assoc)
  then have "unused_line \<in> set received \<longleftrightarrow> unused_line \<in> set sent"
    by (simp only: r assms(2) unused_logged) (simp add: page82_wire_def)
  moreover have "length received = length sent" "last received = last sent"
    by (simp_all add: r assms(2) page82_data_log_def page82_wire_def)
  ultimately show ?thesis by blast
qed

theorem page_82_logs_agree_witness:
  "unused_line \<in> set (page82_data_log (ant_common_page_82_decode
     (ant_common_page_82_encode [1, 2, 3, 4, 5, 6, 7] DEFAULT_ANT_COMMON_page82) some_battery))"
  using page_82_logs_agree [of "[1, 2, 3, 4, 5, 6, 7]", OF _ refl refl, of DEFAULT_ANT_COMMON_page82 some_battery]
    unused_logged [of DEFAULT_ANT_COMMON_page82]
  by (simp add: DEFAULT_ANT_COMMON_page82_def)

end
