(* ===== verification/Gatt.thy ===== *)
theory Gatt
  imports Bluetooth Page_Log
begin

text \<open>
  The configuration service as the Bluetooth stack sees it (\<open>bluetooth.h\<close> and the tables of
  \<open>bluetooth.c\<close>): the UUIDs, the attribute table, the callback structures and the callbacks that only
  write to the log. Which callback the stack calls for a request of a peer is a parameter; the law
  \<open>gatt_stack\<close> says what Zephyr documents of it.
\<close>

subsection \<open>UUIDs\<close>

text \<open>The arguments of Zephyr's \<open>BT_UUID_128_ENCODE\<close>.\<close>

record uuid128 =
  uuid_w32 :: "32 word"
  uuid_w1 :: u16
  uuid_w2 :: u16
  uuid_w3 :: u16
  uuid_w48 :: "48 word"

definition BT_UUID_128 :: "32 word \<Rightarrow> u16 \<Rightarrow> u16 \<Rightarrow> u16 \<Rightarrow> 48 word \<Rightarrow> uuid128" where
  "BT_UUID_128 a b c d f = \<lparr>uuid_w32 = a, uuid_w1 = b, uuid_w2 = c, uuid_w3 = d, uuid_w48 = f\<rparr>"

definition BT_CFG_SRV_UUID_STR :: string where
  "BT_CFG_SRV_UUID_STR = ''2079cd72-8955-487c-bfbf-0bf85b255f3c''"

definition BT_CFG_SRV_UUID :: uuid128 where
  "BT_CFG_SRV_UUID = BT_UUID_128 0x2079cd72 0x8955 0x487c 0xbfbf 0x0bf85b255f3c"

definition BT_CFG_SRV_DEVID_CHRX_UUID_STR :: string where
  "BT_CFG_SRV_DEVID_CHRX_UUID_STR = ''f819d540-6c73-44e5-94bb-dfeb32926c2b''"

definition BT_CFG_SRV_DEVID_CHRX_UUID :: uuid128 where
  "BT_CFG_SRV_DEVID_CHRX_UUID = BT_UUID_128 0xf819d540 0x6c73 0x44e5 0x94bb 0xdfeb32926c2b"

text \<open>The text form of a UUID: lower case hexadecimal digits in five groups.\<close>

definition hex_digit :: "nat \<Rightarrow> char" where
  "hex_digit n = ''0123456789abcdef'' ! n"

fun hex_digits :: "nat \<Rightarrow> nat \<Rightarrow> string" where
  "hex_digits 0 n = []"
| "hex_digits (Suc k) n = hex_digits k (n div 16) @ [hex_digit (n mod 16)]"

definition uuid_text :: "uuid128 \<Rightarrow> string" where
  "uuid_text u = hex_digits 8 (unat (uuid_w32 u)) @ ''-'' @ hex_digits 4 (unat (uuid_w1 u)) @ ''-''
     @ hex_digits 4 (unat (uuid_w2 u)) @ ''-'' @ hex_digits 4 (unat (uuid_w3 u)) @ ''-''
     @ hex_digits 12 (unat (uuid_w48 u))"

lemma hex_digits_numeral [simp]:
  "hex_digits (numeral k) n = hex_digits (pred_numeral k) (n div 16) @ [hex_digit (n mod 16)]"
  by (subst numeral_eq_Suc) simp

text \<open>Each UUID is written twice in \<open>bluetooth.h\<close>, as a string and as numbers; both agree.\<close>

theorem uuids_match_strings:
  "uuid_text BT_CFG_SRV_UUID = BT_CFG_SRV_UUID_STR
    \<and> uuid_text BT_CFG_SRV_DEVID_CHRX_UUID = BT_CFG_SRV_DEVID_CHRX_UUID_STR
    \<and> BT_CFG_SRV_UUID \<noteq> BT_CFG_SRV_DEVID_CHRX_UUID"
  by (simp add: uuid_text_def BT_CFG_SRV_UUID_def BT_CFG_SRV_UUID_STR_def BT_CFG_SRV_DEVID_CHRX_UUID_def
      BT_CFG_SRV_DEVID_CHRX_UUID_STR_def BT_UUID_128_def hex_digit_def)

subsection \<open>Tables\<close>

datatype gatt_property = BT_GATT_CHRC_READ | BT_GATT_CHRC_WRITE_WITHOUT_RESP | BT_GATT_CHRC_WRITE
datatype gatt_permission = BT_GATT_PERM_READ | BT_GATT_PERM_WRITE

datatype gatt_attribute =
    BT_GATT_PRIMARY_SERVICE uuid128
  | BT_GATT_CHARACTERISTIC uuid128 "gatt_property list" "gatt_permission list" fun_ptr fun_ptr

definition cfg_srv :: "gatt_attribute list" where
  "cfg_srv =
     [BT_GATT_PRIMARY_SERVICE BT_CFG_SRV_UUID,
      BT_GATT_CHARACTERISTIC BT_CFG_SRV_DEVID_CHRX_UUID
        [BT_GATT_CHRC_WRITE_WITHOUT_RESP]
        [BT_GATT_PERM_WRITE]
        NULL (Fun ''cfg_srv_devid_chrx_on_write_cb'')]"

record bt_conn_cb =
  cb_connected :: fun_ptr
  cb_disconnected :: fun_ptr

definition conn_callbacks :: bt_conn_cb where
  "conn_callbacks = \<lparr>cb_connected = Fun ''connected'', cb_disconnected = Fun ''disconnected''\<rparr>"

record bt_conn_auth_cb =
  auth_cancel_cb :: fun_ptr

definition auth_cb_display :: bt_conn_auth_cb where
  "auth_cb_display = \<lparr>auth_cancel_cb = Fun ''auth_cancel''\<rparr>"

subsection \<open>Callbacks that only log\<close>

definition LOG_DBG :: "string \<Rightarrow> log_arg list \<Rightarrow> log_entry" where
  "LOG_DBG fmt args = \<lparr>entry_level = LOG_LEVEL_DBG, entry_format = fmt, entry_args = args\<rparr>"

definition bt_log_level :: log_level where "bt_log_level = LOG_LEVEL_INF"

text \<open>The address of the peer is formatted by the stack: \<open>addr\<close>.\<close>

definition auth_cancel :: "string \<Rightarrow> log_entry list" where
  "auth_cancel addr = [LOG_DBG ''Pairing cancelled: %s'' [Log_string addr]]"

definition logging_backend_ble_hook :: "bool \<Rightarrow> log_entry list" where
  "logging_backend_ble_hook status =
     (if status then [LOG_DBG ''BLE Logger Backend enabled.'' []]
      else [LOG_DBG ''BLE Logger Backend disabled.'' []])"

text \<open>The module is registered at the level of information, so these callbacks do nothing at all.\<close>

lemma log_callbacks_silent:
  "emitted bt_log_level (auth_cancel addr) = []" "emitted bt_log_level (logging_backend_ble_hook status) = []"
  by (simp_all add: auth_cancel_def logging_backend_ble_hook_def emitted_def LOG_DBG_def bt_log_level_def)

subsection \<open>Requests of peers\<close>

datatype gatt_request = Gatt_read uuid128 | Gatt_write uuid128 bytes

text \<open>
  For a write to a characteristic that permits it and has a write callback, and for nothing
  else here (no attribute has a read callback), the stack runs a callback, with the bytes and their number.
\<close>

type_synonym gatt_dispatch = "gatt_request \<Rightarrow> (fun_ptr \<times> bytes \<times> u16) option"

definition gatt_stack :: "gatt_attribute list \<Rightarrow> gatt_dispatch \<Rightarrow> bool" where
  "gatt_stack table stack \<longleftrightarrow> (\<forall>req f buf len. stack req = Some (f, buf, len)
     \<longleftrightarrow> (\<exists>u props perms rd. req = Gatt_write u buf \<and> BT_GATT_CHARACTERISTIC u props perms rd f \<in> set table
           \<and> BT_GATT_PERM_WRITE \<in> set perms \<and> f \<noteq> NULL \<and> unat len = length buf))"

definition gatt_callback :: "env \<Rightarrow> fun_ptr \<Rightarrow> bytes \<Rightarrow> u16 \<Rightarrow> 'a world_scheme \<Rightarrow> 'a world_scheme" where
  "gatt_callback e f buf len w =
     (if f = Fun ''cfg_srv_devid_chrx_on_write_cb'' then snd (cfg_srv_devid_chrx_on_write_cb e buf len w) else w)"

definition serve :: "gatt_dispatch \<Rightarrow> env \<Rightarrow> gatt_request \<Rightarrow> 'a world_scheme \<Rightarrow> 'a world_scheme" where
  "serve stack e req w =
     (case stack req of None \<Rightarrow> w | Some (f, buf, len) \<Rightarrow> gatt_callback e f buf len w)"

text \<open>The writes of a device id among the requests, and the two bytes they mean.\<close>

fun written_id :: "gatt_request \<Rightarrow> bytes option" where
  "written_id (Gatt_write u buf) =
     (if u = BT_CFG_SRV_DEVID_CHRX_UUID \<and> (length buf = 1 \<or> length buf = 2)
      then Some (if length buf = 1 then [buf ! 0, 0] else buf) else None)"
| "written_id (Gatt_read u) = None"

definition id_calls :: "gatt_request \<Rightarrow> call list" where
  "id_calls req = (case written_id req of None \<Rightarrow> []
     | Some v \<Rightarrow> [K_work_schedule Reboot_work 250, Settings_save_one ''id'' v])"

lemma map_filter_append: "List.map_filter f (xs @ ys) = List.map_filter f xs @ List.map_filter f ys"
  by (simp add: List.map_filter_def)

lemma serve_calls:
  assumes "gatt_stack cfg_srv stack" "saves_succeed e"
  shows "serve stack e req w = w\<lparr>calls := id_calls req @ calls w\<rparr>"
proof (cases "stack req")
  case None
  have "written_id req = None"
  proof (rule ccontr)
    assume "written_id req \<noteq> None"
    then obtain u buf where r: "req = Gatt_write u buf" "u = BT_CFG_SRV_DEVID_CHRX_UUID" "length buf = 1 \<or> length buf = 2"
      by (cases req) (auto split: if_splits)
    have "unat (of_nat (length buf) :: u16) = length buf" using r(3) by auto
    then have "stack req = Some (Fun ''cfg_srv_devid_chrx_on_write_cb'', buf, of_nat (length buf))"
      using assms(1) r unfolding gatt_stack_def by (simp add: cfg_srv_def)
    with None show False by simp
  qed
  with None show ?thesis by (simp add: serve_def id_calls_def)
next
  case (Some c)
  obtain f buf len where c: "c = (f, buf, len)" by (cases c)
  with Some assms(1) have r: "req = Gatt_write BT_CFG_SRV_DEVID_CHRX_UUID buf"
    "f = Fun ''cfg_srv_devid_chrx_on_write_cb''" "length buf = unat len"
    by (auto simp: gatt_stack_def cfg_srv_def)
  have l: "len = 1 \<or> len = 2 \<longleftrightarrow> length buf = 1 \<or> length buf = 2" "len = 1 \<longleftrightarrow> length buf = 1"
    by (auto simp: r(3) word_unat_eq_iff)
  have s: "serve stack e req w = snd (cfg_srv_devid_chrx_on_write_cb e buf len w)"
    by (simp add: serve_def Some c gatt_callback_def r(2))
  show ?thesis
  proof (cases "len = 1 \<or> len = 2")
    case True
    have "env_rc e (calls w) (Settings_save_one ''id'' (le_bytes 2 (written_device_id buf len))) = 0"
      using assms(2) by (simp add: saves_succeed_def)
    note n = write_id_accepted [OF True this]
    show ?thesis
      using True l unfolding s n by (simp add: id_calls_def r(1) written_device_id_bytes [OF r(3) True])
  next
    case False
    then show ?thesis
      using l(1) unfolding s cfg_srv_devid_chrx_on_write_cb_def device_id_length by (simp add: r(1) id_calls_def)
  qed
qed

lemma serve_all_calls:
  assumes "gatt_stack cfg_srv stack" "saves_succeed e"
  shows "fold (serve stack e) reqs w = w\<lparr>calls := concat (rev (map id_calls reqs)) @ calls w\<rparr>"
  by (induction reqs arbitrary: w) (simp_all add: serve_calls [OF assms])

lemma stored_id_calls:
  assumes "saves_succeed e"
  shows "stored e flash (concat (rev (map id_calls reqs)) @ cs) =
    (case List.map_filter written_id reqs of [] \<Rightarrow> stored e flash cs
     | v # vs \<Rightarrow> (stored e flash cs)(''id'' := Some (last (v # vs))))"
proof (induction reqs rule: rev_induct)
  case (snoc req reqs)
  have "stored e flash (id_calls req @ ds) = (case written_id req of None \<Rightarrow> stored e flash ds
      | Some v \<Rightarrow> (stored e flash ds)(''id'' := Some v))" for ds
    using assms by (auto simp: id_calls_def saves_succeed_def split: option.splits)
  then show ?case
    by (auto simp: snoc.IH map_filter_append split: option.splits list.splits)
qed simp

lemma reboot_of_id_calls:
  "Reboot_work \<in> effects (concat (rev (map id_calls reqs))) P \<longleftrightarrow> List.map_filter written_id reqs \<noteq> [] \<or> Reboot_work \<in> P"
proof (induction reqs rule: rev_induct)
  case (snoc req reqs)
  then show ?case by (auto simp: id_calls_def map_filter_append work_effect_def split: option.splits)
qed simp

text \<open>
  Property C10: what peers can change over Bluetooth. Whatever requests they make of the configuration
  service, in whatever order, nothing but the device id changes: role, alarm limits and every other
  setting and all of the program's data are as before. The id stored at the end is
  the last one written in one or two bytes, and the device restarts if and only if there was one.
\<close>

theorem bluetooth_changes_only_id:
  assumes "gatt_stack cfg_srv stack" "saves_succeed e"
    and "w' = fold (serve stack e) reqs w" "ids = List.map_filter written_id reqs"
  shows "w' = w\<lparr>calls := calls w'\<rparr>
    \<and> (\<forall>k. k \<noteq> ''id'' \<longrightarrow> stored e flash (calls w') k = stored e flash (calls w) k)
    \<and> stored e flash (calls w') ''id'' = (if ids = [] then stored e flash (calls w) ''id'' else Some (last ids))
    \<and> (Reboot_work \<in> effects (new_calls w w') P \<longleftrightarrow> ids \<noteq> [] \<or> Reboot_work \<in> P)"
proof -
  let ?cs = "concat (rev (map id_calls reqs))"
  have w': "w' = w\<lparr>calls := ?cs @ calls w\<rparr>" unfolding assms(3) by (rule serve_all_calls [OF assms(1,2)])
  have "new_calls w w' = ?cs" by (rule new_calls_eq) (simp add: w')
  then have r: "Reboot_work \<in> effects (new_calls w w') P \<longleftrightarrow> ids \<noteq> [] \<or> Reboot_work \<in> P"
    by (simp add: reboot_of_id_calls assms(4))
  have "stored e flash (calls w') = (case ids of [] \<Rightarrow> stored e flash (calls w)
      | v # vs \<Rightarrow> (stored e flash (calls w))(''id'' := Some (last (v # vs))))"
    by (simp add: w' stored_id_calls [OF assms(2)] assms(4))
  with r show ?thesis by (simp add: w' split: list.splits)
qed

subsection \<open>Witnesses\<close>

definition demo_gatt :: gatt_dispatch where
  "demo_gatt req = (case req of Gatt_read _ \<Rightarrow> None
     | Gatt_write u buf \<Rightarrow> if u = BT_CFG_SRV_DEVID_CHRX_UUID \<and> length buf < 65536
         then Some (Fun ''cfg_srv_devid_chrx_on_write_cb'', buf, of_nat (length buf)) else None)"

lemma demo_gatt: "gatt_stack cfg_srv demo_gatt"
  unfolding gatt_stack_def
proof (intro allI)
  fix req f buf and len :: u16
  show "demo_gatt req = Some (f, buf, len) \<longleftrightarrow> (\<exists>u props perms rd. req = Gatt_write u buf
    \<and> BT_GATT_CHARACTERISTIC u props perms rd f \<in> set cfg_srv \<and> BT_GATT_PERM_WRITE \<in> set perms \<and> f \<noteq> NULL
    \<and> unat len = length buf)"
  proof (cases req)
    case (Gatt_write u b)
    have "length b < 65536 \<and> of_nat (length b) = len \<longleftrightarrow> unat len = length b"
      using unsigned_less [of len, where 'a = nat] by (auto simp: word_unat_eq_iff unat_of_nat)
    then show ?thesis by (auto simp: Gatt_write demo_gatt_def cfg_srv_def)
  qed (simp add: demo_gatt_def)
qed

theorem bluetooth_changes_only_id_witness:
  "stored (store_env good_rc demo_flash) demo_flash (calls (fold (serve demo_gatt (store_env good_rc demo_flash))
     [Gatt_write BT_CFG_SRV_DEVID_CHRX_UUID [1, 2], Gatt_read BT_CFG_SRV_UUID,
      Gatt_write BT_CFG_SRV_DEVID_CHRX_UUID [7], Gatt_write BT_CFG_SRV_DEVID_CHRX_UUID [1, 2, 3]] demo_bt_world)) ''id''
   = Some [7, 0]"
  using bluetooth_changes_only_id [OF demo_gatt good_rc_laws(1) refl refl, of demo_flash
      "[Gatt_write BT_CFG_SRV_DEVID_CHRX_UUID [1, 2], Gatt_read BT_CFG_SRV_UUID,
        Gatt_write BT_CFG_SRV_DEVID_CHRX_UUID [7], Gatt_write BT_CFG_SRV_DEVID_CHRX_UUID [1, 2, 3]]" demo_bt_world demo_flash "{}"]
  by simp

end
