(* ===== verification/Spec2Isabelle.thy ===== *)
theory Spec2Isabelle
  imports Timing Torn_Update Preemption Simulator Gatt
begin

text \<open>
  Verification of the AIRSPY community firmware, a tyre pressure sensor for the nRF52: it receives
  readings of a pressure sensor over SPI and sends them as an ANT+ TPMS device, takes its
  configuration over ANT+ and Bluetooth, keeps counters in retained RAM and switches itself off.

  \<^bold>\<open>The program and its model.\<close> The program's state is one record, extended from component to component:
  \<open>world\<close> (the calls issued to everything outside the repository, latest first), \<open>retained_world\<close>,
  \<open>tpms_world\<close>, \<open>ant_world\<close>, \<open>spi_world\<close>, \<open>bt_world\<close>. A C function is a definition of the same name that
  passes this state. Zephyr, the ANT and Bluetooth stacks and the hardware are an environment
  \<open>env\<close> that answers each call as a function of the calls before it, and nothing is assumed about it
  unless a theorem says so: \<open>settings_backend\<close> (an exact entry is presented once, what was saved last is
  stored), \<open>saves_succeed\<close>, \<open>boot_calls_succeed\<close>, and, for the ANT SDK, \<open>reset_clears_requests\<close>, \<open>quiet\<close>,
  \<open>quiet_link\<close> and \<open>sdk_pages\<close>, for its sensor simulator \<open>bounded\<close>, and for the Bluetooth stack \<open>gatt_stack\<close> and
  \<open>shuts_down\<close> (the calls of a shutdown succeed as long as the update service is registered). All of these are
  instantiated in the witnesses, \<open>shuts_down\<close> together with the failure of a second unregistration.

  \<^item> \<open>Prelude\<close>: word and list lemmas, reachability and the locale \<open>invariant_machine\<close>.
  \<^item> \<open>Codec\<close>, \<open>Tpms_Pages\<close>, \<open>Common_Page_82\<close> (\<open>ant_tpms_utils.h\<close>, the page encoders and decoders): the
    locales \<open>le_codec\<close> and \<open>page_codec\<close> with their laws, interpreted for every codec and page; round trips and
    the accuracy of page 82.
  \<^item> \<open>Sensor\<close> (\<open>sensor.c\<close>): decoding of the shifted frame, checksum, battery gauge. A frame the sensor sends
    one bit late is decoded to the measured values, and single bit errors are detected. Undefined
    behaviour of the float conversion is the result \<open>None\<close>.
  \<^item> \<open>Platform\<close>, \<open>Scheduler\<close>: calls, environment, pending work items; the locales \<open>call_contract\<close> and
    \<open>keeping_contract\<close> say which calls an operation issues and what it keeps.
  \<^item> \<open>Crc32\<close>, \<open>Retained\<close> (\<open>retained.c\<close>): retention of RAM sections, validation and sealing. \<open>Crc32\<close> proves
    the residue law for the real CRC-32, so that the law assumed of the parameter is known to hold.
  \<^item> \<open>Ant_Tpms\<close> (\<open>ant_tpms.c\<close>): schedule of the pages, requests, encoding and decoding of messages. The
    sensor and the display profile together refine a channel that copies one page
    (\<open>sensor_to_display\<close>).
  \<^item> \<open>Gatt\<close> (\<open>bluetooth.h\<close>, the tables and log callbacks of \<open>bluetooth.c\<close>): UUIDs, attribute table and the
    requests of peers, which reach nothing but the device id.
  \<^item> \<open>Page_Log\<close> (the log functions of the three pages) and \<open>Simulator\<close> (\<open>ant_tpms_simulator.c\<close>, over the
    SDK's sensor simulator as a parameter): what the pages write to the log; the two modes of the
    simulator and the range of its pressures.
  \<^item> \<open>Hw_Id\<close> (\<open>common.c\<close>), \<open>Settings\<close> (\<open>settings.c\<close>), \<open>Ant_App\<close> (\<open>ant.c\<close>), \<open>Spi\<close> (\<open>spi.c\<close>, \<open>zbus_com.c\<close>),
    \<open>Bluetooth\<close> (\<open>bluetooth.c\<close>), \<open>Main_App\<close> (\<open>main.c\<close>): the application, each with the effect of its
    operations on pages, settings and call history, including every error branch.
  \<^item> \<open>Air_Link\<close>: the application's sensor and a display over a radio that loses messages. They refine an
    abstract link that copies the scheduled page of each slot that arrives; the display catches up
    within four slots (page 1) and 256 (all common pages), and shows nothing the sensor did not have.
  \<^item> \<open>Preemption\<close>: the sensor data handler of \<open>ant.c\<close> store by store, with a transmit slot between two
    stores. \<open>Torn_Update\<close>: the updates of the retained data store by store, with a reset between two of
    them. In both, the stores one after the other are proved to be the operation of the other theories.
  \<^item> \<open>Firmware\<close>: frames of all components, the outcome of \<open>main\<close>, and the step relation \<open>fw_step\<close> of the
    whole firmware with its invariant \<open>fw_inv\<close>. A boot is any run of \<open>main\<close> that returns; the flag
    \<open>fw_started\<close> (\<open>tm_started\<close>) tells whether it returned success. If the wake signal is not ready or cannot be
    configured it returns failure after everything else was started, and nothing supervises the session:
    the invariant says so, and the bounds on supervision and sleep are about the other sessions. \<open>Timing\<close> refines it by the delays of the work items
    (\<open>timed_step\<close>): every item runs within its delay and the latency, so the wake signal is watched every
    second, the device is off in time and not before, Bluetooth is disabled in time, and a written device id
    restarts the device in time.
  \<^item> This theory: properties that span components, from the sensor's bits to the transmitted bytes and on to
    the pages of a display, and from a received configuration to the next readings on the display, or over
    a reboot to the pages.

  \<^bold>\<open>Interaction.\<close> \<open>main\<close> validates and counts the boot, starts settings, on a first boot Bluetooth, then the
  ANT device, the sensor receiver and the supervision of the wake signal. The interrupt
  \<open>int_cb_handler\<close> schedules \<open>spim_receive\<close>, which publishes readings to the listener
  \<open>ant_sensor_data_handler_cb\<close>; that updates pages 1 and 82 of the profile, from which
  \<open>ant_evt_handler\<close> sends at each transmit event. Configuration messages go through the same event
  handler to \<open>ant_tpms_config_handler\<close>, which stores them in the settings that the next
  \<open>profile_setup\<close> loads. \<open>handle\<close> collects these entry points; \<open>fw_step\<close> runs them in any order, a work item
  only while it is pending, together with \<open>supervise\<close>, \<open>poweroff\<close>, reboots and boots.

  \<^bold>\<open>Loops.\<close> The loops that need not end (\<open>retain_loop\<close>, \<open>pending_page\<close>, \<open>init_default_loop\<close>) are partial
  functions with an option result, \<open>None\<close> when they do not end; that they end is proved under stated
  conditions (\<open>ram_range_retain_covers\<close>, \<open>next_page_known\<close>, \<open>init_default_returns_iff\<close>, and for the
  whole start \<open>main_configures\<close>). No fuel is used.

  \<^bold>\<open>Integers\<close> are words of their C widths; promotion to \<open>int\<close> is written out.

  \<^bold>\<open>Not modelled.\<close> The log messages outside the data pages and the Bluetooth callbacks that only log; the
  parameters of the SPI driver (\<open>spim_cfg\<close>), which the code only passes on; device tree, build and boot loader
  configuration; the time handlers take (\<open>Timing\<close> bounds their effect on others by one latency); preemption
  of handlers other than the two above, and resets within a single 64 bit store; the handlers that run while
  \<open>main\<close> has not returned, so also the session of a \<open>main\<close> that never returns, whose condition is
  \<open>init_default_returns_iff\<close>; the endless loop after \<open>sys_poweroff\<close>. The members \<open>TPMS_PROFILE_pressure\<close> and \<open>TPMS_PROFILE_update_event_count\<close> that the
  simulator writes are defined nowhere, so it does not compile; they are parameters of its model.
\<close>

subsection \<open>Configuration over the air\<close>

lemma wire_command_bits: "k < 4 \<Longrightarrow> bit (p16_command (page16_wire d)) k \<longleftrightarrow> bit (p16_command d) k"
  by (auto simp: page16_wire_def masks bit_simps)

lemma config_event:
  assumes "length buf = PAYLOAD_SIZE" "config_handler (sens_cb w) = Fun ''ant_tpms_config_handler''"
    and "evt = \<lparr>ae_channel = channel_number (tpms w), ae_event = EVENT_RX, ae_mesg_id = MESG_ACKNOWLEDGED_DATA_ID,
       ae_payload = ANT_TPMS_PAGE_16 # ant_tpms_page_16_encode buf d\<rparr>"
    and "ant_evt_handler sdk e evt w = Some w1"
  shows "calls w1 = calls (ant_tpms_config_handler e (page16_wire d) w)"
proof -
  have "ant_tpms_page_16_decode (ant_tpms_page_16_encode buf d) DEFAULT_ANT_TPMS_page16 = page16_wire d"
    by (rule page16.decode_encode [OF assms(1)])
  with assms(2-4) show ?thesis
    by (auto simp: ant_evt_handler_def ant_tpms_sens_evt_handler_def sens_message_decode_def app_handlers_def)
qed

text \<open>
  Property C5: a configuration message that a display sends is still in force after the next boot,
  whatever the other memory then holds: each of role, low and high alarm limit that the message
  sets is on page 16 (the role as its four bits) and the role on page 1. The ambient pressure is
  not: it is back at its default.
\<close>

theorem configuration_survives_reboot:
  assumes "settings_backend e flash finish" "finish (- EINVAL) = 0" "boot_calls_succeed e"
    and "reset_clears_requests sdk" "sdk_pages sdk wire80 wire81" "retained_placed hw"
    and "length buf = PAYLOAD_SIZE" "config_handler (sens_cb w) = Fun ''ant_tpms_config_handler''"
    and "evt = \<lparr>ae_channel = channel_number (tpms w), ae_event = EVENT_RX, ae_mesg_id = MESG_ACKNOWLEDGED_DATA_ID,
       ae_payload = ANT_TPMS_PAGE_16 # ant_tpms_page_16_encode buf d\<rparr>"
    and "ant_evt_handler sdk e evt w = Some w1" "calls w0 = calls w1"
  shows "\<exists>w'. main sdk cfg hw e w0 = Some (EXIT_SUCCESS, w')
    \<and> (bit (p16_command d) 0 \<longrightarrow> p16_role (page_16 (tpms w')) = p16_role d AND 0x0F
        \<and> p1_role (page_1 (tpms w')) = p16_role d AND 0x0F)
    \<and> (bit (p16_command d) 2 \<longrightarrow> p16_alarm_low_pressure (page_16 (tpms w')) = p16_alarm_low_pressure d)
    \<and> (bit (p16_command d) 3 \<longrightarrow> p16_alarm_high_pressure (page_16 (tpms w')) = p16_alarm_high_pressure d)
    \<and> p16_ambient_pressure (page_16 (tpms w')) = ANT_TPMS_AMBIENT_DEFAULT"
proof -
  have "saves_succeed e" using assms(3) by (simp add: boot_calls_succeed_def)
  note h = config_handler_facts [OF this refl refl refl, where flash = flash and p = "page16_wire d" and w = w]
  have c: "calls w0 = calls (ant_tpms_config_handler e (page16_wire d) w)"
    using config_event [OF assms(7-10)] assms(11) by simp
  have f: "p16_role (page16_wire d) = p16_role d AND 0x0F"
    "p16_alarm_low_pressure (page16_wire d) = p16_alarm_low_pressure d"
    "p16_alarm_high_pressure (page16_wire d) = p16_alarm_high_pressure d"
    by (simp_all add: page16_wire_def)
  have s: "bit (p16_command d) 0 \<Longrightarrow> stored_or e flash (calls w0) ''role'' [0] = [p16_role d AND 0x0F]"
    "bit (p16_command d) 2 \<Longrightarrow> stored_or e flash (calls w0) ''alL'' [0xFF, 0xFF] = le_bytes 2 (p16_alarm_low_pressure d)"
    "bit (p16_command d) 3 \<Longrightarrow> stored_or e flash (calls w0) ''alH'' [0xFF, 0xFF] = le_bytes 2 (p16_alarm_high_pressure d)"
    using h by (simp_all add: stored_or_def c wire_command_bits f)
  obtain w' where m: "main sdk cfg hw e w0 = Some (EXIT_SUCCESS, w')"
    "page_16 (tpms w') = configured_page_16 e flash (calls w0)"
    "p1_role (page_1 (tpms w')) = p16_role (page_16 (tpms w'))"
    using main_succeeds [OF assms(1-6), of cfg w0] by blast
  then show ?thesis
    using s by (intro exI [of _ w']) (simp add: configured_page_16_def uint16_of_le_bytes DEFAULT_ANT_TPMS_page16_def)
qed

text \<open>
  Property C21: a device id written over Bluetooth stays in force: at every later boot at which it is still
  stored, the ANT channel has it as its device number, and it remains stored. The Bluetooth name is built from
  it only when a boot starts Bluetooth, that is, on a boot that counts as the first. A boot that finds valid retained
  data with one or more boots counted never enables Bluetooth, and that is what the restart after the write
  finds unless an update was announced in the meantime. So the name changes later, at the first boot
  after the battery was removed or an update was announced.
\<close>

theorem device_id_takes_effect:
  assumes "settings_backend e flash finish" "finish (- EINVAL) = 0" "boot_calls_succeed e"
    and "reset_clears_requests sdk" "sdk_pages sdk wire80 wire81" "retained_placed hw"
    and "(ret, w1) = cfg_srv_devid_chrx_on_write_cb e [b0, b1] 2 w"
    and "stored e flash (calls w0) ''id'' = stored e flash (calls w1) ''id''"
  shows "\<exists>w'. main sdk cfg hw e w0 = Some (EXIT_SUCCESS, w')
    \<and> cfg_device_number (tpms_channel_tpms_sens_config w') = uint16_decode [b0, b1] 0
    \<and> stored e flash (calls w') ''id'' = Some [b0, b1]
    \<and> (if retained_valid hw (retained_obj w0) \<and> 1 < boots (retained_obj w0) + 1
       then Bt_enable \<notin> set (new_calls w0 w')
       else Bt_enable \<in> set (new_calls w0 w')
         \<and> bt_name (bt_ready e 0 w') = formatted_name (uint16_decode [b0, b1] 0))"
proof -
  have "saves_succeed e" using assms(3) by (simp add: boot_calls_succeed_def)
  from device_id_stored [OF this _ assms(7)] have s: "stored e flash (calls w0) ''id'' = Some [b0, b1]"
    by (simp add: assms(8))
  then obtain w' where m: "main sdk cfg hw e w0 = Some (EXIT_SUCCESS, w')"
    "cfg_device_number (tpms_channel_tpms_sens_config w') = uint16_decode [b0, b1] 0"
    "stored e flash (calls w') ''id'' = Some [b0, b1]"
    using main_succeeds [OF assms(1-6), of cfg w0] by auto
  have "bt_name (bt_ready e 0 w') = formatted_name (uint16_decode [b0, b1] 0)"
    by (simp add: bt_ready_def load_result [OF assms(1)] m(3) EXIT_SUCCESS_def Let_def device_name_full)
  moreover have "Bt_enable \<in> set (new_calls w0 w')
      \<longleftrightarrow> \<not> (retained_valid hw (retained_obj w0) \<and> 1 < boots (retained_obj w0) + 1)"
    using main_result(2,4) [OF m(1)] by (simp add: not_less)
  ultimately show ?thesis using m by (intro exI [of _ w']) simp
qed

subsection \<open>From the sensor to the air\<close>

lemma page_1_message:
  assumes "quiet sdk Q" "request_controller w \<in> Q" "unat (message_counter (sens_cb w)) < 119"
    and "d = page_1 (tpms w)"
    and "msg = [ANT_TPMS_PAGE_1, p1_role d, p1_alarms d, 0xFF, 0xFF, 0xFF, byte_of 0 (p1_pressure d), byte_of 1 (p1_pressure d)]"
  shows "\<exists>w' tx. ant_message_send sdk e (app_handlers e) w = Some w' \<and> calls w' = tx # calls w
    \<and> (tx = Ant_broadcast_message_tx (channel_number (tpms w)) msg
       \<or> tx = Ant_acknowledge_message_tx (channel_number (tpms w)) msg)"
proof -
  let ?c = "message_counter (sens_cb w)"
  have "fst (schedule_step (of_nat (unat ?c))) = 1"
    using assms(3) by (subst schedule_step_nat) (simp_all add: ANT_TPMS_PAGE_1_def)
  then have "fst (schedule_step ?c) = ANT_TPMS_PAGE_1" by simp
  then obtain rc c where n: "next_page_number_get sdk w = Some (ANT_TPMS_PAGE_1,
      w\<lparr>sens_cb := (sens_cb w)\<lparr>message_counter := c\<rparr>, request_controller := rc\<rparr>)"
    using next_page_schedule [OF assms(1,2)] by auto
  have "length (junk_bytes e 8 w) = 8" by simp
  then obtain j js where j: "junk_bytes e 8 w = j # js" "length js = PAYLOAD_SIZE"
    by (cases "junk_bytes e 8 w") auto
  then have "sens_message_encode sdk (app_handlers e) (junk_bytes e 8 w) w
      = Some (msg, w\<lparr>sens_cb := (sens_cb w)\<lparr>message_counter := c\<rparr>, request_controller := rc\<rparr>)"
    by (simp add: sens_message_encode_def n encode_page_def page_1_encode_bytes assms(4,5))
  then show ?thesis
    by (auto simp: ant_message_send_def Let_def split_def)
qed

text \<open>The reception of a measurement, up to the pages of the profile.\<close>

definition measured_page_1 :: "int \<Rightarrow> u16 \<Rightarrow> u16 \<Rightarrow> ant_tpms_role \<Rightarrow> ant_tpms_page1_data \<Rightarrow> bool" where
  "measured_page_1 p low high role d \<longleftrightarrow> uint (p1_pressure d) = (if p \<le> 75 then 0 else p)
     \<and> p1_alarms d = alarm_flags low high (p1_pressure d) \<and> p1_role d = role"

lemma measurement_received:
  assumes "unat code \<le> 1970" "unat temp \<le> 182"
    and "map (env_spi_data e (calls w)) [0..<SENSOR_BUFFER_SIZE] = late_by_one lead (sensor_frame code temp volt flg)"
    and "env_rc e (calls w) Spi_read \<ge> 0" "\<And>r. env_rc e (Spi_read # calls w) (Zbus_chan_pub r) = 0"
    and "ambient = p16_ambient_pressure (page_16 (tpms w))"
    and "p = 1013 - (if ambient = 0xffff then 1013 else uint ambient) + (67 * int (unat code) div 4 - 248)"
    and "- 32768 \<le> p" "p < 32768"
  obtains w1 where "spim_receive e w = Some w1"
    "measured_page_1 p (p16_alarm_low_pressure (page_16 (tpms w))) (p16_alarm_high_pressure (page_16 (tpms w)))
       (p1_role (page_1 (tpms w))) (page_1 (tpms w1))"
    "channel_number (tpms w1) = channel_number (tpms w)" "sens_cb w1 = sens_cb w"
    "request_controller w1 = request_controller w"
proof -
  obtain b r where d: "decode_sensor_buffer (late_by_one lead (sensor_frame code temp volt flg)) = Some (EXIT_SUCCESS, b, r)"
    and r: "sint (pressure_hpa r) = 67 * int (unat code) div 4 - 248"
    using decode_sent_result [OF assms(1,2)] by blast
  let ?w0 = "w\<lparr>rx_buffer := b, calls := Zbus_chan_pub r # Spi_read # calls w\<rparr>"
  define w1 where "w1 = ant_sensor_data_handler_cb e r ?w0"
  have rec: "spim_receive e w = Some w1"
    unfolding w1_def by (rule accepted_receive [OF refl assms(4) _ assms(5)]) (simp add: assms(3) d del: SENSOR_BUFFER_SIZE_def)
  define d1 where "d1 = page_1 (tpms w1)"
  have p1: "uint (p1_pressure d1) = (if p \<le> 75 then 0 else p)" "p1_role d1 = p1_role (page_1 (tpms w))"
    using sensor_data_page_1_result [of p ambient r ?w0, OF _ assms(8,9) _ refl refl refl] assms(6,7) r
    by (simp_all add: d1_def w1_def)
  have al: "p1_alarms d1 = alarm_flags (p16_alarm_low_pressure (page_16 (tpms w)))
      (p16_alarm_high_pressure (page_16 (tpms w))) (p1_pressure d1)"
    by (simp add: d1_def w1_def sensor_data_pages Let_def)
  have f: "channel_number (tpms w1) = channel_number (tpms w)" "sens_cb w1 = sens_cb w"
    "request_controller w1 = request_controller w"
    unfolding w1_def by (subst sensor_data_handler_frame, simp)+
  show thesis by (rule that [OF rec _ f]) (use p1 al in \<open>simp add: measured_page_1_def d1_def\<close>)
qed

text \<open>
  Property C2: from the sensor to the air. When the pressure sensor sends a measurement, one bit
  late as it does, then after the reception the next scheduled transmission of page 1 carries the
  measured pressure, corrected by the configured ambient pressure, in its last two bytes, low byte
  first, together with the alarms of that pressure and the role of the wheel.
\<close>

theorem measurement_on_air:
  assumes "unat code \<le> 1970" "unat temp \<le> 182"
    and "map (env_spi_data e (calls w)) [0..<SENSOR_BUFFER_SIZE] = late_by_one lead (sensor_frame code temp volt flg)"
    and "env_rc e (calls w) Spi_read \<ge> 0" "\<And>r. env_rc e (Spi_read # calls w) (Zbus_chan_pub r) = 0"
    and "quiet sdk Q" "request_controller w \<in> Q" "unat (message_counter (sens_cb w)) < 119"
    and "ambient = p16_ambient_pressure (page_16 (tpms w))"
    and "p = 1013 - (if ambient = 0xffff then 1013 else uint ambient) + (67 * int (unat code) div 4 - 248)"
    and "- 32768 \<le> p" "p < 32768"
    and "ae_channel evt = channel_number (tpms w)" "ae_event evt = EVENT_TX"
  shows "\<exists>w1 w2 pressure alarms msg. spim_receive e w = Some w1 \<and> ant_evt_handler sdk e evt w1 = Some w2
    \<and> msg = [ANT_TPMS_PAGE_1, p1_role (page_1 (tpms w)), alarms, 0xFF, 0xFF, 0xFF, byte_of 0 pressure, byte_of 1 pressure]
    \<and> uint pressure = (if p \<le> 75 then 0 else p)
    \<and> alarms = alarm_flags (p16_alarm_low_pressure (page_16 (tpms w))) (p16_alarm_high_pressure (page_16 (tpms w))) pressure
    \<and> (calls w2 = Ant_broadcast_message_tx (channel_number (tpms w)) msg # calls w1
       \<or> calls w2 = Ant_acknowledge_message_tx (channel_number (tpms w)) msg # calls w1)"
proof -
  obtain w1 where rec: "spim_receive e w = Some w1"
    and m: "measured_page_1 p (p16_alarm_low_pressure (page_16 (tpms w))) (p16_alarm_high_pressure (page_16 (tpms w)))
      (p1_role (page_1 (tpms w))) (page_1 (tpms w1))"
    and f: "channel_number (tpms w1) = channel_number (tpms w)" "sens_cb w1 = sens_cb w"
      "request_controller w1 = request_controller w"
    by (rule measurement_received [OF assms(1-5,9-12)])
  define d1 where "d1 = page_1 (tpms w1)"
  obtain w2 tx where send: "ant_message_send sdk e (app_handlers e) w1 = Some w2" "calls w2 = tx # calls w1"
    and tx: "tx = Ant_broadcast_message_tx (channel_number (tpms w)) [ANT_TPMS_PAGE_1, p1_role d1, p1_alarms d1,
         0xFF, 0xFF, 0xFF, byte_of 0 (p1_pressure d1), byte_of 1 (p1_pressure d1)]
       \<or> tx = Ant_acknowledge_message_tx (channel_number (tpms w)) [ANT_TPMS_PAGE_1, p1_role d1, p1_alarms d1,
         0xFF, 0xFF, 0xFF, byte_of 0 (p1_pressure d1), byte_of 1 (p1_pressure d1)]"
    using page_1_message [of sdk Q w1, OF assms(6) _ _ refl refl, of e] assms(7,8) f unfolding d1_def by auto
  have "ant_evt_handler sdk e evt w1 = Some (w2\<lparr>request_controller :=
      ant_request_controller_sens_evt_handler sdk evt (request_controller w2)\<rparr>)"
    using send f assms(13,14) by (simp add: ant_evt_handler_def ant_tpms_sens_evt_handler_def)
  with rec show ?thesis
    using tx send(2) m by (auto simp: measured_page_1_def d1_def intro!: exI)
qed

subsection \<open>From the sensor to the display\<close>

text \<open>Four slots that arrive bring page 1 to the display, as it is.\<close>

lemma page_1_arrives:
  assumes "quiet_link sdk Q R" "sdk_pages sdk wire80 wire81" "keeps_profile h" "request_controller w \<in> Q"
  obtains ws' wd' where "link_run sdk e h (replicate 4 (Slot True)) w wd = Some (ws', wd')"
    "page_1 (tpms wd') = page_1 (tpms w)"
proof -
  obtain ws' wd' where r: "link_run sdk e h (replicate 4 (Slot True)) w wd = Some (ws', wd')"
    "tpms wd' = copy_all wire80 wire81 (map (\<lambda>page. (page, tpms w)) (schedule_run 4 (message_counter (sens_cb w)))) (tpms wd)"
    using slots_run [OF assms, of e 4 wd] by (elim exE conjE)
  then have "page_1 (tpms wd') = page_1 (tpms w)" by (simp add: copy_all_fixed page_1_within_four)
  with r(1) show thesis by (rule that)
qed

text \<open>
  Property C9: from the sensor to the display. After the reception of a measurement, four slots that
  arrive put the measured pressure, corrected by the ambient pressure, its alarms and the role of
  the wheel on the display, wherever in its schedule of pages the sensor is.
\<close>

theorem measurement_reaches_display:
  assumes "unat code \<le> 1970" "unat temp \<le> 182"
    and "map (env_spi_data e (calls w)) [0..<SENSOR_BUFFER_SIZE] = late_by_one lead (sensor_frame code temp volt flg)"
    and "env_rc e (calls w) Spi_read \<ge> 0" "\<And>r. env_rc e (Spi_read # calls w) (Zbus_chan_pub r) = 0"
    and "quiet_link sdk Q R" "sdk_pages sdk wire80 wire81" "keeps_profile h" "request_controller w \<in> Q"
    and "ambient = p16_ambient_pressure (page_16 (tpms w))"
    and "p = 1013 - (if ambient = 0xffff then 1013 else uint ambient) + (67 * int (unat code) div 4 - 248)"
    and "- 32768 \<le> p" "p < 32768"
  shows "\<exists>w1 ws' wd'. spim_receive e w = Some w1
    \<and> link_run sdk e h (replicate 4 (Slot True)) w1 wd = Some (ws', wd')
    \<and> measured_page_1 p (p16_alarm_low_pressure (page_16 (tpms w))) (p16_alarm_high_pressure (page_16 (tpms w)))
        (p1_role (page_1 (tpms w))) (page_1 (tpms wd'))"
proof -
  obtain w1 where rec: "spim_receive e w = Some w1"
    and m: "measured_page_1 p (p16_alarm_low_pressure (page_16 (tpms w))) (p16_alarm_high_pressure (page_16 (tpms w)))
      (p1_role (page_1 (tpms w))) (page_1 (tpms w1))"
    and f: "request_controller w1 = request_controller w"
    by (rule measurement_received [OF assms(1-5,10-13)])
  obtain ws' wd' where "link_run sdk e h (replicate 4 (Slot True)) w1 wd = Some (ws', wd')" "page_1 (tpms wd') = page_1 (tpms w1)"
    using page_1_arrives [OF assms(6-8), of w1 e wd] assms(9) f by auto
  with rec m show ?thesis by (intro exI [of _ w1] exI [of _ ws'] exI [of _ wd']) simp
qed

lemma config_event_state:
  assumes "length buf = PAYLOAD_SIZE" "config_handler (sens_cb w) = Fun ''ant_tpms_config_handler''"
    and "evt = \<lparr>ae_channel = channel_number (tpms w), ae_event = EVENT_RX, ae_mesg_id = MESG_ACKNOWLEDGED_DATA_ID,
       ae_payload = ANT_TPMS_PAGE_16 # ant_tpms_page_16_encode buf d\<rparr>"
    and "ant_evt_handler sdk e evt w = Some w1"
  shows "tpms w1 = tpms (ant_tpms_config_handler e (page16_wire d) w)"
    "request_controller w1 = ant_request_controller_sens_evt_handler sdk evt (request_controller w)"
proof -
  have "ant_tpms_page_16_decode (ant_tpms_page_16_encode buf d) DEFAULT_ANT_TPMS_page16 = page16_wire d"
    by (rule page16.decode_encode [OF assms(1)])
  with assms(2-4) show "tpms w1 = tpms (ant_tpms_config_handler e (page16_wire d) w)"
    "request_controller w1 = ant_request_controller_sens_evt_handler sdk evt (request_controller w)"
    by (auto simp: ant_evt_handler_def ant_tpms_sens_evt_handler_def sens_message_decode_def app_handlers_def config_frame)
qed

lemma configured_pages:
  assumes "bit (p16_command d) 0" "bit (p16_command d) 1" "bit (p16_command d) 2" "bit (p16_command d) 3"
  shows "page_16 (tpms (ant_tpms_config_handler e (page16_wire d) w)) = (page_16 (tpms w))
      \<lparr>p16_role := p16_role d AND 0x0F, p16_ambient_pressure := p16_ambient_pressure d,
       p16_alarm_low_pressure := p16_alarm_low_pressure d, p16_alarm_high_pressure := p16_alarm_high_pressure d\<rparr>"
    and "p1_role (page_1 (tpms (ant_tpms_config_handler e (page16_wire d) w))) = p16_role d AND 0x0F"
proof -
  let ?p = "page16_wire d"
  have b: "bit (p16_command ?p) 0" "bit (p16_command ?p) 1" "bit (p16_command ?p) 2" "bit (p16_command ?p) 3"
    using assms by (simp_all add: wire_command_bits)
  have "p16_command ?p \<noteq> 0" using b(1) by (metis bit_0_eq bot_apply bot_bool_def)
  then have r: "config_reset ?p w = w" by (simp add: config_reset_def ANT_TPMS_CONFIG_EMPTY_RESET_def)
  have f: "p16_role ?p = p16_role d AND 0x0F" "p16_ambient_pressure ?p = p16_ambient_pressure d"
    "p16_alarm_low_pressure ?p = p16_alarm_low_pressure d" "p16_alarm_high_pressure ?p = p16_alarm_high_pressure d"
    by (simp_all add: page16_wire_def)
  show p: "page_16 (tpms (ant_tpms_config_handler e ?p w)) = (page_16 (tpms w))
      \<lparr>p16_role := p16_role d AND 0x0F, p16_ambient_pressure := p16_ambient_pressure d,
       p16_alarm_low_pressure := p16_alarm_low_pressure d, p16_alarm_high_pressure := p16_alarm_high_pressure d\<rparr>"
    unfolding ant_tpms_config_handler_def by (simp only: config_step_page_16 r b f if_True)
  have "p1_role (page_1 (tpms (config_match_role v))) = p16_role (page_16 (tpms (config_match_role v)))" for v
    by (simp add: config_match_role_def)
  then have "p1_role (page_1 (tpms (ant_tpms_config_handler e ?p w))) = p16_role (page_16 (tpms (ant_tpms_config_handler e ?p w)))"
    unfolding ant_tpms_config_handler_def .
  then show "p1_role (page_1 (tpms (ant_tpms_config_handler e ?p w))) = p16_role d AND 0x0F" by (simp add: p)
qed

text \<open>
  Property C6: once round. A display sends a message that sets role, ambient pressure and both
  alarm limits; at the next measurement four slots that arrive show on the display the
  pressure corrected by that ambient pressure, the alarms of those limits and that role.
\<close>

theorem configuration_reaches_display:
  assumes "length buf = PAYLOAD_SIZE" "config_handler (sens_cb w) = Fun ''ant_tpms_config_handler''"
    and "evt = \<lparr>ae_channel = channel_number (tpms w), ae_event = EVENT_RX, ae_mesg_id = MESG_ACKNOWLEDGED_DATA_ID,
       ae_payload = ANT_TPMS_PAGE_16 # ant_tpms_page_16_encode buf d\<rparr>"
    and "ant_evt_handler sdk e evt w = Some w1"
    and "bit (p16_command d) 0" "bit (p16_command d) 1" "bit (p16_command d) 2" "bit (p16_command d) 3"
    and "quiet_link sdk Q R" "R evt" "sdk_pages sdk wire80 wire81" "keeps_profile h" "request_controller w \<in> Q"
    and "unat code \<le> 1970" "unat temp \<le> 182"
    and "map (env_spi_data e (calls w1)) [0..<SENSOR_BUFFER_SIZE] = late_by_one lead (sensor_frame code temp volt flg)"
    and "env_rc e (calls w1) Spi_read \<ge> 0" "\<And>r. env_rc e (Spi_read # calls w1) (Zbus_chan_pub r) = 0"
    and "p = 1013 - (if p16_ambient_pressure d = 0xffff then 1013 else uint (p16_ambient_pressure d))
           + (67 * int (unat code) div 4 - 248)" "- 32768 \<le> p" "p < 32768"
  shows "\<exists>w2 ws' wd'. spim_receive e w1 = Some w2
    \<and> link_run sdk e h (replicate 4 (Slot True)) w2 wd = Some (ws', wd')
    \<and> measured_page_1 p (p16_alarm_low_pressure d) (p16_alarm_high_pressure d) (p16_role d AND 0x0F) (page_1 (tpms wd'))"
proof -
  note s = config_event_state [OF assms(1-4)] configured_pages [OF assms(5-8), of e w]
  have c: "p16_ambient_pressure d = p16_ambient_pressure (page_16 (tpms w1))"
    "p16_alarm_low_pressure (page_16 (tpms w1)) = p16_alarm_low_pressure d"
    "p16_alarm_high_pressure (page_16 (tpms w1)) = p16_alarm_high_pressure d"
    "p1_role (page_1 (tpms w1)) = p16_role d AND 0x0F"
    by (simp_all add: s)
  obtain w2 where rec: "spim_receive e w1 = Some w2"
    and m: "measured_page_1 p (p16_alarm_low_pressure d) (p16_alarm_high_pressure d) (p16_role d AND 0x0F) (page_1 (tpms w2))"
    and f: "request_controller w2 = request_controller w1"
    using measurement_received [OF assms(14-18) c(1) assms(19-21)] unfolding c(2-4) by blast
  have "request_controller w2 \<in> Q" using assms(9,10,13) by (simp add: f s(2) quiet_link_def)
  then obtain ws' wd' where "link_run sdk e h (replicate 4 (Slot True)) w2 wd = Some (ws', wd')" "page_1 (tpms wd') = page_1 (tpms w2)"
    using page_1_arrives [OF assms(9,11,12), of w2 e wd] by auto
  with rec m show ?thesis by (intro exI [of _ w2] exI [of _ ws'] exI [of _ wd']) simp
qed

subsection \<open>Witnesses\<close>

definition ready_world :: "(u8 option, unit, unit) bt_world" where
  "ready_world = demo_bt_world\<lparr>sens_cb := \<lparr>config_handler = Fun ''ant_tpms_config_handler'', message_counter = 0\<rparr>\<rparr>"

definition limits_event :: ant_evt where
  "limits_event = \<lparr>ae_channel = channel_number (tpms ready_world), ae_event = EVENT_RX,
     ae_mesg_id = MESG_ACKNOWLEDGED_DATA_ID,
     ae_payload = ANT_TPMS_PAGE_16 # ant_tpms_page_16_encode (replicate 7 0) demo_limits\<rparr>"

theorem configuration_survives_reboot_witness:
  "\<exists>w1 w'. ant_evt_handler demo_sdk boot_env limits_event ready_world = Some w1
     \<and> main demo_sdk demo_app nrf52_hw boot_env (demo_bt_world\<lparr>calls := calls w1\<rparr>) = Some (EXIT_SUCCESS, w')
     \<and> p16_alarm_low_pressure (page_16 (tpms w')) = 2000"
proof -
  obtain w1 where w1: "ant_evt_handler demo_sdk boot_env limits_event ready_world = Some w1"
    by (simp add: ant_evt_handler_def ant_tpms_sens_evt_handler_def limits_event_def)
  have l: "length (replicate 7 0 :: bytes) = PAYLOAD_SIZE"
    and h: "config_handler (sens_cb ready_world) = Fun ''ant_tpms_config_handler''"
    and c: "calls (demo_bt_world\<lparr>calls := calls w1\<rparr>) = calls w1"
    by (simp_all add: ready_world_def)
  have "bit (p16_command demo_limits) 2" "p16_alarm_low_pressure demo_limits = 2000"
    by (simp_all add: demo_limits_def)
  with configuration_survives_reboot [OF store_env_backend refl boot_env_laws(1) demo_sdk_laws(1,3) nrf52_hw_laws(3)
      l h limits_event_def w1 c, of demo_app] w1
  show ?thesis by fastforce
qed

text \<open>The restart after the write, with valid retained data and one boot counted.\<close>

lemma one_boot_valid: "retained_valid nrf52_hw (retained_seal nrf52_hw (retained_zero\<lparr>boots := 1\<rparr>))"
  by (rule seal_valid [OF nrf52_hw_laws(1)])

theorem device_id_takes_effect_witness:
  "\<exists>w1 w'. snd (cfg_srv_devid_chrx_on_write_cb boot_env [0x39, 0x30] 2 demo_bt_world) = w1
     \<and> main demo_sdk demo_app nrf52_hw boot_env
         (w1\<lparr>retained_obj := retained_seal nrf52_hw (retained_zero\<lparr>boots := 1\<rparr>)\<rparr>) = Some (EXIT_SUCCESS, w')
     \<and> cfg_device_number (tpms_channel_tpms_sens_config w') = 12345
     \<and> Bt_enable \<notin> set (new_calls (w1\<lparr>retained_obj := retained_seal nrf52_hw (retained_zero\<lparr>boots := 1\<rparr>)\<rparr>) w')"
proof -
  let ?r = "retained_seal nrf52_hw (retained_zero\<lparr>boots := 1\<rparr>)"
  obtain ret w1 where w1: "(ret, w1) = cfg_srv_devid_chrx_on_write_cb boot_env [0x39, 0x30] 2 demo_bt_world"
    by (metis prod.collapse)
  have c: "stored boot_env demo_flash (calls (w1\<lparr>retained_obj := ?r\<rparr>)) ''id'' = stored boot_env demo_flash (calls w1) ''id''"
    by simp
  have v: "retained_valid nrf52_hw (retained_obj (w1\<lparr>retained_obj := ?r\<rparr>))
      \<and> 1 < boots (retained_obj (w1\<lparr>retained_obj := ?r\<rparr>)) + 1"
    using one_boot_valid by simp
  have "uint16_decode [0x39, 0x30] 0 = 12345" by (simp add: uint16_decode_def)
  with device_id_takes_effect [OF store_env_backend refl boot_env_laws(1) demo_sdk_laws(1,3) nrf52_hw_laws(3)
      w1 c, of demo_app] v obtain w' where "main demo_sdk demo_app nrf52_hw boot_env (w1\<lparr>retained_obj := ?r\<rparr>) = Some (EXIT_SUCCESS, w')"
    "cfg_device_number (tpms_channel_tpms_sens_config w') = 12345"
    "Bt_enable \<notin> set (new_calls (w1\<lparr>retained_obj := ?r\<rparr>) w')" by (auto simp del: retained_world.select_convs)
  then show ?thesis using w1 [symmetric] by (intro exI [of _ w1] exI [of _ w'] conjI) simp_all
qed

lemma demo_bt_parts: "tpms demo_bt_world = demo_profile" "request_controller demo_bt_world = None"
  "message_counter (sens_cb demo_bt_world) = 0"
  by (simp_all add: demo_bt_world_def demo_spi_world_def demo_ant_world_def demo_world_def spi_world.defs
      ant_world.defs tpms_world.defs)

theorem measurement_on_air_witness:
  "\<exists>w1 w2 (pressure :: u16) alarms. spim_receive (spi_env good_frame) demo_bt_world = Some w1
     \<and> ant_evt_handler demo_sdk (spi_env good_frame) (demo_event 0 EVENT_TX) w1 = Some w2
     \<and> uint pressure = 1427
     \<and> (calls w2 = Ant_broadcast_message_tx 0 [1, 0, alarms, 0xFF, 0xFF, 0xFF, byte_of 0 pressure, byte_of 1 pressure] # calls w1
       \<or> calls w2 = Ant_acknowledge_message_tx 0 [1, 0, alarms, 0xFF, 0xFF, 0xFF, byte_of 0 pressure, byte_of 1 pressure] # calls w1)"
proof -
  have p: "channel_number demo_profile = 0" "p16_ambient_pressure (page_16 demo_profile) = 1013"
    "p1_role (page_1 demo_profile) = 0"
    by (simp_all add: demo_profile_def DEFAULT_ANT_TPMS_page16_def DEFAULT_ANT_TPMS_page1_def ANT_TPMS_AMBIENT_DEFAULT_def)
  show ?thesis
    using measurement_on_air [of 100 83 "spi_env good_frame" demo_bt_world True 173 0 demo_sdk "{None}" 1013 1427
        "demo_event 0 EVENT_TX", OF _ _ spi_env_data [OF good_frame(1)]] demo_sdk_laws(2)
    by (simp add: demo_bt_parts p demo_event_def del: SENSOR_BUFFER_SIZE_def) blast
qed

theorem measurement_reaches_display_witness:
  "\<exists>w1 ws' wd'. spim_receive (spi_env good_frame) demo_bt_world = Some w1
     \<and> link_run demo_sdk (spi_env good_frame) demo_handlers (replicate 4 (Slot True)) w1 (demo_world 0 None) = Some (ws', wd')
     \<and> measured_page_1 1427 0xFFFF 0xFFFF 0 (page_1 (tpms wd'))"
proof -
  have p: "p16_ambient_pressure (page_16 demo_profile) = 1013" "p16_alarm_low_pressure (page_16 demo_profile) = 0xFFFF"
    "p16_alarm_high_pressure (page_16 demo_profile) = 0xFFFF" "p1_role (page_1 demo_profile) = 0"
    by (simp_all add: demo_profile_def DEFAULT_ANT_TPMS_page16_def DEFAULT_ANT_TPMS_page1_def ANT_TPMS_AMBIENT_DEFAULT_def)
  show ?thesis
    using measurement_reaches_display [of 100 83 "spi_env good_frame" demo_bt_world True 173 0 demo_sdk "{None}" no_request
        id id demo_handlers 1013 1427 "demo_world 0 None", OF _ _ spi_env_data [OF good_frame(1)] _ _ demo_link(1-3)]
    by (simp add: demo_bt_parts p del: SENSOR_BUFFER_SIZE_def)
qed

definition demo_settings :: ant_tpms_page16_data where
  "demo_settings = DEFAULT_ANT_TPMS_page16\<lparr>p16_command := 15, p16_role := 3, p16_ambient_pressure := 1000,
     p16_alarm_low_pressure := 2000, p16_alarm_high_pressure := 2200\<rparr>"

definition settings_event :: ant_evt where
  "settings_event = \<lparr>ae_channel = channel_number (tpms ready_world), ae_event = EVENT_RX,
     ae_mesg_id = MESG_ACKNOWLEDGED_DATA_ID,
     ae_payload = ANT_TPMS_PAGE_16 # ant_tpms_page_16_encode (replicate 7 0) demo_settings\<rparr>"

theorem configuration_reaches_display_witness:
  "\<exists>w1 w2 ws' wd'. ant_evt_handler demo_sdk (spi_env good_frame) settings_event ready_world = Some w1
     \<and> spim_receive (spi_env good_frame) w1 = Some w2
     \<and> link_run demo_sdk (spi_env good_frame) demo_handlers (replicate 4 (Slot True)) w2 (demo_world 0 None) = Some (ws', wd')
     \<and> measured_page_1 1440 2000 2200 3 (page_1 (tpms wd'))"
proof -
  obtain w1 where w1: "ant_evt_handler demo_sdk (spi_env good_frame) settings_event ready_world = Some w1"
    by (simp add: ant_evt_handler_def ant_tpms_sens_evt_handler_def settings_event_def)
  have l: "length (replicate 7 0 :: bytes) = PAYLOAD_SIZE"
    and h: "config_handler (sens_cb ready_world) = Fun ''ant_tpms_config_handler''"
    and q: "request_controller ready_world \<in> {None}" and n: "no_request settings_event"
    by (simp_all add: ready_world_def demo_bt_parts no_request_def settings_event_def ANT_TPMS_PAGE_16_def)
  have b: "bit (p16_command demo_settings) 0" "bit (p16_command demo_settings) 1"
    "bit (p16_command demo_settings) 2" "bit (p16_command demo_settings) 3"
    and v: "p16_ambient_pressure demo_settings = 1000" "p16_alarm_low_pressure demo_settings = 2000"
      "p16_alarm_high_pressure demo_settings = 2200" "p16_role demo_settings AND 0x0F = 3"
    by (simp_all add: demo_settings_def)
  show ?thesis
    using configuration_reaches_display [OF l h settings_event_def w1 b demo_link(1) n demo_link(2,3) q,
        of 100 83 True 173 0 1440 "demo_world 0 None", OF _ _ spi_env_data [OF good_frame(1)]] w1
    by (simp add: v del: SENSOR_BUFFER_SIZE_def)
qed

end
